theory Spec2Isabelle
  imports Complex_Main
begin

section \<open>The optimization driver of mma4py (src/optimizer.cpp)\<close>

text \<open>
  The driver binds numpy buffers to PETSc vectors without copying them, and runs the
  MMA iteration: evaluate, set move limits, update, measure, log. This theory embeds
  \<^verbatim>\<open>optimizer.cpp\<close> function by function.

  Conventions of the embedding.
  \<^item> A \<^verbatim>\<open>PetscScalar\<close> is a \<^verbatim>\<open>double\<close>: a finite value, an infinity or NaN. A finite value is
    a real: the driver itself only compares and copies scalars, so rounding plays no part
    in what is proved here. A comparison with NaN is false.
  \<^item> An \<^verbatim>\<open>int\<close> is an integer: the sizes are taken to fit.
  \<^item> Memory is a store of blocks: a pointer is a block and an offset in it. Two views of
    one buffer are two pointers into one block.
  \<^item> The process is one rank (the rank that writes the log).
  \<^item> \<^verbatim>\<open>PetscErrorCode f(...)\<close> with out-parameters of type \<open>'a\<close> becomes a function from
    the state to \<open>(PetscErrorCode + 'a) \<times> state\<close>: \<open>Inl ierr\<close> is a non-zero return,
    \<open>Inr a\<close> is \<^verbatim>\<open>return 0\<close> with the out-parameters set to \<open>a\<close>.
  \<^item> What PETSc, the file system, the \<^verbatim>\<open>Problem\<close> and the \<^verbatim>\<open>MMA\<close> class do is not in
    \<^verbatim>\<open>optimizer.cpp\<close>. Whether a PETSc call fails is read from a schedule
    (\<open>petsc_rc\<close>: the return code of the k-th library call); the methods of \<^verbatim>\<open>Problem\<close> and
    \<^verbatim>\<open>MMA\<close> are parameters, and they return (an exception thrown by one of them is not
    modelled).
\<close>

subsection \<open>Scalars\<close>

datatype PetscScalar = Finite real | PInf | NInf | NaN

text \<open>\<^verbatim>\<open>a > b\<close> and \<^verbatim>\<open>a <= b\<close> on doubles: both are false when an operand is NaN.\<close>

fun double_greater :: "PetscScalar \<Rightarrow> PetscScalar \<Rightarrow> bool" where
  "double_greater (Finite a) (Finite b) = (b < a)"
| "double_greater (Finite a) NInf = True"
| "double_greater PInf (Finite b) = True"
| "double_greater PInf NInf = True"
| "double_greater _ _ = False"

fun double_less_eq :: "PetscScalar \<Rightarrow> PetscScalar \<Rightarrow> bool" where
  "double_less_eq (Finite a) (Finite b) = (a \<le> b)"
| "double_less_eq (Finite a) PInf = True"
| "double_less_eq NInf (Finite b) = True"
| "double_less_eq NInf NInf = True"
| "double_less_eq NInf PInf = True"
| "double_less_eq PInf PInf = True"
| "double_less_eq _ _ = False"

text \<open>The absolute value and the sum, for the norm that PETSc computes.\<close>

fun double_abs :: "PetscScalar \<Rightarrow> PetscScalar" where
  "double_abs (Finite a) = Finite \<bar>a\<bar>"
| "double_abs PInf = PInf"
| "double_abs NInf = PInf"
| "double_abs NaN = NaN"

fun double_add :: "PetscScalar \<Rightarrow> PetscScalar \<Rightarrow> PetscScalar" where
  "double_add (Finite a) (Finite b) = Finite (a + b)"
| "double_add NaN _ = NaN"
| "double_add _ NaN = NaN"
| "double_add PInf NInf = NaN"
| "double_add NInf PInf = NaN"
| "double_add PInf _ = PInf"
| "double_add _ PInf = PInf"
| "double_add NInf _ = NInf"
| "double_add _ NInf = NInf"

primrec double_sum :: "PetscScalar list \<Rightarrow> PetscScalar" where
  "double_sum [] = Finite 0"
| "double_sum (a # as) = double_add a (double_sum as)"

subsection \<open>Memory\<close>

type_synonym PetscErrorCode = int
type_synonym ptr = "nat \<times> nat"
type_synonym memory = "nat \<Rightarrow> PetscScalar list"

text \<open>\<^verbatim>\<open>p[i]\<close> read and \<^verbatim>\<open>p[i] = v\<close>. An index outside the block is undefined behaviour in
  C++; here the read is unspecified and the write is dropped.\<close>

definition peek :: "memory \<Rightarrow> ptr \<Rightarrow> nat \<Rightarrow> PetscScalar" where
  "peek h p i = h (fst p) ! (snd p + i)"

definition poke :: "memory \<Rightarrow> ptr \<Rightarrow> nat \<Rightarrow> PetscScalar \<Rightarrow> memory" where
  "poke h p i v = h(fst p := (h (fst p))[snd p + i := v])"

text \<open>The \<open>n\<close> scalars at a pointer, and their replacement as a whole.\<close>

definition load :: "memory \<Rightarrow> ptr \<Rightarrow> nat \<Rightarrow> PetscScalar list" where
  "load h p n = take n (drop (snd p) (h (fst p)))"

definition store :: "memory \<Rightarrow> ptr \<Rightarrow> PetscScalar list \<Rightarrow> memory" where
  "store h p vs =
     h(fst p := take (snd p) (h (fst p)) @ vs @ drop (snd p + length vs) (h (fst p)))"

subsection \<open>The state\<close>

text \<open>A PETSc vector object: its sizes, its type, the array its operations work on, and
  the array a \<^verbatim>\<open>VecPlaceArray\<close> has displaced.\<close>

record Vec_obj =
  v_lsize :: int
  v_gsize :: int
  v_type :: "string option"
  v_array :: "ptr option"
  v_unplaced :: "ptr option"

text \<open>One argument of a \<^verbatim>\<open>printf\<close>-style call, and one such call: the format and its
  arguments.\<close>

datatype arg = S string | I int | D PetscScalar

type_synonym print = "string \<times> arg list"

text \<open>The calls the driver makes on its collaborators, in order, with the design (and
  constraint values) each call was handed, and for \<^verbatim>\<open>Update\<close> the code it returned. This
  field is not in the source: it records the source's call sequence so that claims about
  it can be stated. The getters of lines 96-99 (the communicator and the three sizes) are
  constants of the environment and are not recorded.\<close>

datatype call =
    GetVarsAndBounds
  | EvalObjCon "PetscScalar list"
  | EvalObjConGrad "PetscScalar list"
  | MMA_ctor "PetscScalar list"
  | SetOuterMovelimit_call "PetscScalar list"
  | Update_call "PetscScalar list" "PetscScalar list" PetscErrorCode
  | KKTresidual_call "PetscScalar list" "PetscScalar list"

text \<open>The state: the members of the \<^verbatim>\<open>Optimizer\<close> object (first group; \<open>o_x\<close>, \<open>o_g\<close>,
  \<open>o_lb\<close>, \<open>o_ub\<close>, \<open>o_gcon\<close>, \<open>o_obj\<close> are the members \<^verbatim>\<open>x\<close>, \<^verbatim>\<open>g\<close>, \<^verbatim>\<open>lb\<close>, \<^verbatim>\<open>ub\<close>, \<^verbatim>\<open>gcon\<close>,
  \<^verbatim>\<open>obj\<close>; a numpy array is the block of its data, a \<^verbatim>\<open>Vec\<close> is a handle, \<^verbatim>\<open>fp\<close> is the
  name of the open file or \<open>None\<close> for a null stream), then the memory, the live PETSc
  vectors, the number of PETSc calls made, the files, the \<^verbatim>\<open>Problem\<close> object's own state
  and the call record.\<close>

record 'p state =
  fp :: "string option"
  np_x :: nat
  np_lb :: nat
  np_ub :: nat
  np_g :: nat
  np_cons :: nat
  np_gcon :: nat
  o_x :: nat
  o_g :: nat
  o_lb :: nat
  o_ub :: nat
  o_gcon :: "nat list"
  o_obj :: PetscScalar
  heap :: memory
  nblk :: nat
  vecs :: "nat \<rightharpoonup> Vec_obj"
  nvec :: nat
  ncall :: nat
  files :: "string \<Rightarrow> print list"
  prob :: 'p
  calls :: "call list"

subsection \<open>PetscCall and the PETSc vector interface\<close>

type_synonym ('p, 'a) petsc = "'p state \<Rightarrow> (PetscErrorCode + 'a) \<times> 'p state"

text \<open>\<^verbatim>\<open>PetscCall(f); rest\<close>: a non-zero return code of \<open>f\<close> is returned at once, and
  \<open>rest\<close> does not run.\<close>

definition PetscCall :: "('p, 'a) petsc \<Rightarrow> ('a \<Rightarrow> ('p, 'b) petsc) \<Rightarrow> ('p, 'b) petsc" where
  "PetscCall f rest s = (case f s of (Inl ierr, s') \<Rightarrow> (Inl ierr, s') | (Inr a, s') \<Rightarrow> rest a s')"

definition Return :: "'a \<Rightarrow> ('p, 'a) petsc" where
  "Return a s = (Inr a, s)"

text \<open>A PETSc library call: its return code is the next one of the schedule. A call on a
  handle that is not a live vector fails with \<^verbatim>\<open>PETSC_ERR_ARG_CORRUPT\<close>.\<close>

definition PETSC_ERR_ARG_CORRUPT :: PetscErrorCode where
  "PETSC_ERR_ARG_CORRUPT = 64"

definition VECMPI :: string where
  "VECMPI = ''mpi''"

definition library_call :: "(nat \<Rightarrow> PetscErrorCode) \<Rightarrow> ('p, unit) petsc" where
  "library_call rc s =
     (let s' = s\<lparr>ncall := Suc (ncall s)\<rparr>
      in if rc (ncall s) \<noteq> 0 then (Inl (rc (ncall s)), s') else (Inr (), s'))"

definition on_vec :: "(nat \<Rightarrow> PetscErrorCode) \<Rightarrow> nat \<Rightarrow> (Vec_obj \<Rightarrow> ('p, 'a) petsc) \<Rightarrow> ('p, 'a) petsc" where
  "on_vec rc x f =
     PetscCall (library_call rc) (\<lambda>_ s.
       case vecs s x of None \<Rightarrow> (Inl PETSC_ERR_ARG_CORRUPT, s) | Some v \<Rightarrow> f v s)"

definition VecCreate :: "(nat \<Rightarrow> PetscErrorCode) \<Rightarrow> ('p, nat) petsc" where
  "VecCreate rc =
     PetscCall (library_call rc) (\<lambda>_ s.
       (Inr (nvec s),
        s\<lparr>vecs := (vecs s)(nvec s \<mapsto>
             \<lparr>v_lsize = - 1, v_gsize = - 1, v_type = None, v_array = None, v_unplaced = None\<rparr>),
          nvec := Suc (nvec s)\<rparr>))"

definition VecSetSizes :: "(nat \<Rightarrow> PetscErrorCode) \<Rightarrow> nat \<Rightarrow> int \<Rightarrow> int \<Rightarrow> ('p, unit) petsc" where
  "VecSetSizes rc x lsize gsize =
     on_vec rc x (\<lambda>v s.
       (Inr (), s\<lparr>vecs := (vecs s)(x \<mapsto> v\<lparr>v_lsize := lsize, v_gsize := gsize\<rparr>)\<rparr>))"

text \<open>Setting the type \<^verbatim>\<open>VECMPI\<close> builds the vector: PETSc gives it an array of its own,
  of the local size, filled with zeros. This is the storage \<^verbatim>\<open>allocate_petsc_vec\<close> relies
  on, which makes no other call before \<^verbatim>\<open>VecGetArray\<close>.\<close>

definition VecSetType :: "(nat \<Rightarrow> PetscErrorCode) \<Rightarrow> nat \<Rightarrow> string \<Rightarrow> ('p, unit) petsc" where
  "VecSetType rc x ty =
     on_vec rc x (\<lambda>v s.
       (Inr (),
        s\<lparr>heap := (heap s)(nblk s := replicate (nat (v_lsize v)) (Finite 0)),
          nblk := Suc (nblk s),
          vecs := (vecs s)(x \<mapsto> v\<lparr>v_type := Some ty, v_array := Some (nblk s, 0)\<rparr>)\<rparr>))"

text \<open>\<^verbatim>\<open>VecPlaceArray\<close> replaces the array of the vector by the caller's; the vector's own
  array is kept aside, unused.\<close>

definition VecPlaceArray :: "(nat \<Rightarrow> PetscErrorCode) \<Rightarrow> nat \<Rightarrow> ptr \<Rightarrow> ('p, unit) petsc" where
  "VecPlaceArray rc x data =
     on_vec rc x (\<lambda>v s.
       (Inr (), s\<lparr>vecs := (vecs s)(x \<mapsto> v\<lparr>v_array := Some data, v_unplaced := v_array v\<rparr>)\<rparr>))"

definition VecGetArray :: "(nat \<Rightarrow> PetscErrorCode) \<Rightarrow> nat \<Rightarrow> ('p, ptr) petsc" where
  "VecGetArray rc x =
     on_vec rc x (\<lambda>v s.
       case v_array v of None \<Rightarrow> (Inl PETSC_ERR_ARG_CORRUPT, s) | Some p \<Rightarrow> (Inr p, s))"

definition VecRestoreArray :: "(nat \<Rightarrow> PetscErrorCode) \<Rightarrow> nat \<Rightarrow> ('p, unit) petsc" where
  "VecRestoreArray rc x = on_vec rc x (\<lambda>v s. (Inr (), s))"

definition VecDestroy :: "(nat \<Rightarrow> PetscErrorCode) \<Rightarrow> nat \<Rightarrow> ('p, unit) petsc" where
  "VecDestroy rc x = on_vec rc x (\<lambda>v s. (Inr (), s\<lparr>vecs := (vecs s)(x := None)\<rparr>))"

text \<open>The local values of a vector, as the operations of PETSc and of the solver read
  and write them (nothing for a handle that is not live).\<close>

definition vec_get :: "'p state \<Rightarrow> nat \<Rightarrow> PetscScalar list" where
  "vec_get s x =
     (case vecs s x of None \<Rightarrow> []
      | Some v \<Rightarrow> (case v_array v of None \<Rightarrow> [] | Some p \<Rightarrow> load (heap s) p (nat (v_lsize v))))"

definition vec_put :: "nat \<Rightarrow> PetscScalar list \<Rightarrow> 'p state \<Rightarrow> 'p state" where
  "vec_put x vs s =
     (case vecs s x of None \<Rightarrow> s
      | Some v \<Rightarrow> (case v_array v of None \<Rightarrow> s
          | Some p \<Rightarrow> s\<lparr>heap := store (heap s) p (take (nat (v_lsize v)) vs)\<rparr>))"

text \<open>\<^verbatim>\<open>VecNorm(x, NORM_1, &val)\<close>: the sum of the absolute values.\<close>

definition VecNorm_1 :: "(nat \<Rightarrow> PetscErrorCode) \<Rightarrow> nat \<Rightarrow> ('p, PetscScalar) petsc" where
  "VecNorm_1 rc x = on_vec rc x (\<lambda>v s. (Inr (double_sum (map double_abs (vec_get s x))), s))"

subsection \<open>Lines 3-34: allocate\_petsc\_vec and bind\_petsc\_vec\_to\_array\<close>

definition allocate_petsc_vec ::
  "(nat \<Rightarrow> PetscErrorCode) \<Rightarrow> int \<Rightarrow> int \<Rightarrow> ('p, nat) petsc" where
  "allocate_petsc_vec rc gsize lsize =
     PetscCall (VecCreate rc) (\<lambda>x.
     PetscCall (VecSetSizes rc x lsize gsize) (\<lambda>_.
     PetscCall (VecSetType rc x VECMPI) (\<lambda>_.
     Return x)))"

definition bind_petsc_vec_to_array ::
  "(nat \<Rightarrow> PetscErrorCode) \<Rightarrow> int \<Rightarrow> int \<Rightarrow> ptr \<Rightarrow> ('p, nat) petsc" where
  "bind_petsc_vec_to_array rc gsize lsize data =
     PetscCall (VecCreate rc) (\<lambda>x.
     PetscCall (VecSetSizes rc x lsize gsize) (\<lambda>_.
     PetscCall (VecSetType rc x VECMPI) (\<lambda>_.
     PetscCall (VecPlaceArray rc x data) (\<lambda>_.
     Return x))))"

subsection \<open>Lines 152-159: the maximum constraint violation\<close>

text \<open>The loop starts from 0.0 and keeps a value of the buffer when it is greater than the
  value kept so far (line 156, \<^verbatim>\<open>con_vals[i] > infeas\<close>).\<close>

function infeas_loop :: "PetscScalar list \<Rightarrow> int \<Rightarrow> int \<Rightarrow> PetscScalar \<Rightarrow> PetscScalar" where
  "infeas_loop con_vals ncons i infeas =
     (if i < ncons
      then infeas_loop con_vals ncons (i + 1)
             (if double_greater (con_vals ! nat i) infeas then con_vals ! nat i else infeas)
      else infeas)"
  by pat_completeness auto
termination
  by (relation "measure (\<lambda>(con_vals, ncons, i, infeas). nat (ncons - i))") auto

declare infeas_loop.simps [simp del]

definition max_violation :: "PetscScalar list \<Rightarrow> int \<Rightarrow> PetscScalar" where
  "max_violation con_vals ncons = infeas_loop con_vals ncons 0 (Finite 0)"

subsection \<open>The collaborators: the file system, the Problem and the MMA solver\<close>

text \<open>The environment of the driver. \<open>petsc_rc k\<close> is the return code of the k-th PETSc
  library call; \<open>fopen_ok\<close> says which files \<^verbatim>\<open>fopen\<close> can open; \<open>uninit b i\<close> is what a new
  numpy array with block \<open>b\<close> holds at index \<open>i\<close> (\<^verbatim>\<open>ndarray_t(n)\<close> does not initialise it).
  The methods of \<^verbatim>\<open>Problem\<close> take the state of the problem object and the contents of the
  arrays they are handed, and give the contents they leave there and the new state of
  the object. The methods of \<^verbatim>\<open>MMA\<close> take the state \<open>'m\<close> of the solver object and the
  local values of their vector arguments, and give their return code, the values they
  leave in the vectors they write, and the new state of the solver.\<close>

record ('p, 'm) env =
  petsc_rc :: "nat \<Rightarrow> PetscErrorCode"
  fopen_ok :: "string \<Rightarrow> bool"
  uninit :: "nat \<Rightarrow> nat \<Rightarrow> PetscScalar"
  get_num_vars :: int
  get_num_vars_local :: int
  get_num_cons :: int
  getVarsAndBounds :: "'p \<Rightarrow> PetscScalar list \<Rightarrow> PetscScalar list \<Rightarrow> PetscScalar list
     \<Rightarrow> (PetscScalar list \<times> PetscScalar list \<times> PetscScalar list) \<times> 'p"
  evalObjCon :: "'p \<Rightarrow> PetscScalar list \<Rightarrow> PetscScalar list
     \<Rightarrow> (PetscScalar \<times> PetscScalar list) \<times> 'p"
  evalObjConGrad :: "'p \<Rightarrow> PetscScalar list \<Rightarrow> PetscScalar list \<Rightarrow> PetscScalar list
     \<Rightarrow> (PetscScalar list \<times> PetscScalar list) \<times> 'p"
  MMA_new :: "int \<Rightarrow> int \<Rightarrow> PetscScalar list \<Rightarrow> 'm"
  SetOuterMovelimit :: "'m \<Rightarrow> PetscScalar list \<Rightarrow> PetscScalar list \<Rightarrow> PetscScalar
     \<Rightarrow> PetscScalar list \<Rightarrow> PetscScalar list \<Rightarrow> PetscScalar list
     \<Rightarrow> PetscErrorCode \<times> (PetscScalar list \<times> PetscScalar list) \<times> 'm"
  Update :: "'m \<Rightarrow> PetscScalar list \<Rightarrow> PetscScalar list \<Rightarrow> PetscScalar list
     \<Rightarrow> PetscScalar list list \<Rightarrow> PetscScalar list \<Rightarrow> PetscScalar list
     \<Rightarrow> PetscErrorCode \<times> PetscScalar list \<times> 'm"
  KKTresidual :: "'m \<Rightarrow> PetscScalar list \<Rightarrow> PetscScalar list \<Rightarrow> PetscScalar list
     \<Rightarrow> PetscScalar list list \<Rightarrow> PetscScalar list \<Rightarrow> PetscScalar list
     \<Rightarrow> PetscErrorCode \<times> (PetscScalar \<times> PetscScalar) \<times> 'm"

text \<open>\<^verbatim>\<open>prob->getVarsAndBounds(np_x, np_lb, np_ub)\<close>: the arrays are filled in place.\<close>

definition call_getVarsAndBounds :: "('p, 'm) env \<Rightarrow> 'p state \<Rightarrow> 'p state" where
  "call_getVarsAndBounds E s =
     (case getVarsAndBounds E (prob s) (heap s (np_x s)) (heap s (np_lb s)) (heap s (np_ub s)) of
        ((xv, lbv, ubv), p') \<Rightarrow>
          s\<lparr>heap := (heap s)(np_x s := xv, np_lb s := lbv, np_ub s := ubv),
            prob := p',
            calls := calls s @ [GetVarsAndBounds]\<rparr>)"

text \<open>\<^verbatim>\<open>obj = prob->evalObjCon(np_x, np_cons)\<close>.\<close>

definition call_evalObjCon :: "('p, 'm) env \<Rightarrow> 'p state \<Rightarrow> 'p state" where
  "call_evalObjCon E s =
     (case evalObjCon E (prob s) (heap s (np_x s)) (heap s (np_cons s)) of
        ((f, cv), p') \<Rightarrow>
          s\<lparr>o_obj := f,
            heap := (heap s)(np_cons s := cv),
            prob := p',
            calls := calls s @ [EvalObjCon (heap s (np_x s))]\<rparr>)"

text \<open>\<^verbatim>\<open>prob->evalObjConGrad(np_x, np_g, np_gcon)\<close>.\<close>

definition call_evalObjConGrad :: "('p, 'm) env \<Rightarrow> 'p state \<Rightarrow> 'p state" where
  "call_evalObjConGrad E s =
     (case evalObjConGrad E (prob s) (heap s (np_x s)) (heap s (np_g s)) (heap s (np_gcon s)) of
        ((gv, gcv), p') \<Rightarrow>
          s\<lparr>heap := (heap s)(np_g s := gv, np_gcon s := gcv),
            prob := p',
            calls := calls s @ [EvalObjConGrad (heap s (np_x s))]\<rparr>)"

text \<open>\<^verbatim>\<open>mma.SetOuterMovelimit(xmin, xmax, movlim, x, xminl, xmaxl)\<close> writes the two last
  vectors and returns an error code.\<close>

definition mma_SetOuterMovelimit ::
  "('p, 'm) env \<Rightarrow> 'm \<Rightarrow> nat \<Rightarrow> nat \<Rightarrow> PetscScalar \<Rightarrow> nat \<Rightarrow> nat \<Rightarrow> nat \<Rightarrow> ('p, 'm) petsc" where
  "mma_SetOuterMovelimit E m xmin xmax movlim x xminl xmaxl s =
     (case SetOuterMovelimit E m (vec_get s xmin) (vec_get s xmax) movlim (vec_get s x)
             (vec_get s xminl) (vec_get s xmaxl) of
        (ierr, (lo, hi), m') \<Rightarrow>
          (if ierr \<noteq> 0 then Inl ierr else Inr m',
           vec_put xmaxl hi (vec_put xminl lo
             (s\<lparr>calls := calls s @ [SetOuterMovelimit_call (vec_get s x)]\<rparr>))))"

text \<open>\<^verbatim>\<open>mma.Update(x, g, cons, gcon, xmin, xmax)\<close> writes \<^verbatim>\<open>x\<close>; \<open>cons\<close> is the block of
  the constraint values. The error code is part of the result.\<close>

definition mma_Update ::
  "('p, 'm) env \<Rightarrow> 'm \<Rightarrow> nat \<Rightarrow> nat \<Rightarrow> nat \<Rightarrow> nat list \<Rightarrow> nat \<Rightarrow> nat \<Rightarrow> 'p state
     \<Rightarrow> PetscErrorCode \<times> 'm \<times> 'p state" where
  "mma_Update E m x g cons gcon xmin xmax s =
     (case Update E m (vec_get s x) (vec_get s g) (heap s cons) (map (vec_get s) gcon)
             (vec_get s xmin) (vec_get s xmax) of
        (ierr, xv, m') \<Rightarrow>
          (ierr, m',
           vec_put x xv
             (s\<lparr>calls := calls s @ [Update_call (vec_get s x) (heap s cons) ierr]\<rparr>)))"

text \<open>\<^verbatim>\<open>mma.KKTresidual(x, g, cons, gcon, xmin, xmax, &l2, &linf)\<close>.\<close>

definition mma_KKTresidual ::
  "('p, 'm) env \<Rightarrow> 'm \<Rightarrow> nat \<Rightarrow> nat \<Rightarrow> nat \<Rightarrow> nat list \<Rightarrow> nat \<Rightarrow> nat \<Rightarrow> 'p state
     \<Rightarrow> PetscErrorCode \<times> (PetscScalar \<times> PetscScalar) \<times> 'm \<times> 'p state" where
  "mma_KKTresidual E m x g cons gcon xmin xmax s =
     (case KKTresidual E m (vec_get s x) (vec_get s g) (heap s cons) (map (vec_get s) gcon)
             (vec_get s xmin) (vec_get s xmax) of
        (ierr, norms, m') \<Rightarrow>
          (ierr, norms, m',
           s\<lparr>calls := calls s @ [KKTresidual_call (vec_get s x) (heap s cons)]\<rparr>))"

text \<open>\<^verbatim>\<open>PetscFPrintf(comm, fp, format, ...)\<close> appends one print to the file of the stream.
  On a null stream the C library call is undefined (in practice a segmentation fault,
  which PETSc turns into \<^verbatim>\<open>PETSC_ERR_SIG\<close> and an abort): the model stops there with that
  code and writes nothing.\<close>

definition PETSC_ERR_SIG :: PetscErrorCode where
  "PETSC_ERR_SIG = 59"

definition PetscFPrintf ::
  "(nat \<Rightarrow> PetscErrorCode) \<Rightarrow> string option \<Rightarrow> string \<Rightarrow> arg list \<Rightarrow> ('p, unit) petsc" where
  "PetscFPrintf rc stream format args =
     PetscCall (library_call rc) (\<lambda>_ s.
       case stream of
         None \<Rightarrow> (Inl PETSC_ERR_SIG, s)
       | Some name \<Rightarrow> (Inr (), s\<lparr>files := (files s)(name := files s name @ [(format, args)])\<rparr>))"

subsection \<open>Lines 36-75: the constructor\<close>

text \<open>\<^verbatim>\<open>PetscCallAbort(comm, f)\<close> aborts the process on a non-zero code: the result
  \<open>Inl ierr\<close> of the constructor stands for that abort.\<close>

definition PetscCallAbort :: "('p, 'a) petsc \<Rightarrow> ('a \<Rightarrow> ('p, 'b) petsc) \<Rightarrow> ('p, 'b) petsc" where
  "PetscCallAbort f rest s = (case f s of (Inl ierr, s') \<Rightarrow> (Inl ierr, s') | (Inr a, s') \<Rightarrow> rest a s')"

text \<open>\<^verbatim>\<open>std::fopen(log_name, "w+")\<close>: the stream on the emptied file, or a null pointer.\<close>

definition fopen_w :: "('p, 'm) env \<Rightarrow> string \<Rightarrow> 'p state \<Rightarrow> string option \<times> 'p state" where
  "fopen_w E log_name s =
     (if fopen_ok E log_name then (Some log_name, s\<lparr>files := (files s)(log_name := [])\<rparr>)
      else (None, s))"

definition ndarray_t :: "('p, 'm) env \<Rightarrow> int \<Rightarrow> 'p state \<Rightarrow> nat \<times> 'p state" where
  "ndarray_t E n s =
     (nblk s,
      s\<lparr>heap := (heap s)(nblk s := map (uninit E (nblk s)) [0..<nat n]), nblk := Suc (nblk s)\<rparr>)"

function bind_gcon_loop ::
  "(nat \<Rightarrow> PetscErrorCode) \<Rightarrow> int \<Rightarrow> int \<Rightarrow> int \<Rightarrow> nat \<Rightarrow> int \<Rightarrow> int \<Rightarrow> ('p, unit) petsc" where
  "bind_gcon_loop rc nvars nvars_l ncons gcon_data i offset s =
     (if i < ncons
      then (case bind_petsc_vec_to_array rc nvars nvars_l (gcon_data, nat offset) s of
              (Inl ierr, s') \<Rightarrow> (Inl ierr, s')
            | (Inr v, s') \<Rightarrow>
                bind_gcon_loop rc nvars nvars_l ncons gcon_data (i + 1) (offset + nvars_l)
                  (s'\<lparr>o_gcon := (o_gcon s')[nat i := v]\<rparr>))
      else (Inr (), s))"
  by pat_completeness auto
termination
  by (relation "measure (\<lambda>(rc, nvars, nvars_l, ncons, gcon_data, i, offset, s). nat (ncons - i))")
     auto

declare bind_gcon_loop.simps [simp del]

definition Optimizer :: "('p, 'm) env \<Rightarrow> string \<Rightarrow> ('p, unit) petsc" where
  "Optimizer E log_name s0 =
     (let (stream, s1) = fopen_w E log_name s0;
          s2 = s1\<lparr>fp := stream\<rparr>;
          nvars = get_num_vars E;
          nvars_l = get_num_vars_local E;
          ncons = get_num_cons E;
          (bx, s3) = ndarray_t E nvars_l s2;
          (blb, s4) = ndarray_t E nvars_l s3;
          (bub, s5) = ndarray_t E nvars_l s4;
          (bg, s6) = ndarray_t E nvars_l s5;
          (bcons, s7) = ndarray_t E ncons s6;
          (bgcon, s8) = ndarray_t E (ncons * nvars_l) s7;
          s9 = s8\<lparr>np_x := bx, np_lb := blb, np_ub := bub, np_g := bg, np_cons := bcons,
                 np_gcon := bgcon\<rparr>
      in (PetscCallAbort (bind_petsc_vec_to_array (petsc_rc E) nvars nvars_l (np_x s9, 0)) (\<lambda>vx.
          PetscCallAbort (bind_petsc_vec_to_array (petsc_rc E) nvars nvars_l (np_g s9, 0)) (\<lambda>vg.
          PetscCallAbort (bind_petsc_vec_to_array (petsc_rc E) nvars nvars_l (np_lb s9, 0)) (\<lambda>vlb.
          PetscCallAbort (bind_petsc_vec_to_array (petsc_rc E) nvars nvars_l (np_ub s9, 0)) (\<lambda>vub s.
            bind_gcon_loop (petsc_rc E) nvars nvars_l ncons (np_gcon s) 0 0
              (s\<lparr>o_x := vx, o_g := vg, o_lb := vlb, o_ub := vub,
                 o_gcon := replicate (nat ncons) 0\<rparr>)))))) s9)"

definition getOptimizedDesign :: "'p state \<Rightarrow> PetscScalar list" where
  "getOptimizedDesign s = heap s (np_x s)"

subsection \<open>Lines 95-177: optimize\<close>

definition movelim :: PetscScalar where
  "movelim = Finite 0.2"

function init_bounds_loop :: "int \<Rightarrow> ptr \<Rightarrow> ptr \<Rightarrow> ptr \<Rightarrow> ptr \<Rightarrow> int \<Rightarrow> memory \<Rightarrow> memory" where
  "init_bounds_loop nvars_l lbt_vals ubt_vals lb_vals ub_vals i h =
     (if i < nvars_l
      then (let h1 = poke h lbt_vals (nat i) (peek h lb_vals (nat i));
                h2 = poke h1 ubt_vals (nat i) (peek h1 ub_vals (nat i))
            in init_bounds_loop nvars_l lbt_vals ubt_vals lb_vals ub_vals (i + 1) h2)
      else h)"
  by pat_completeness auto
termination
  by (relation "measure (\<lambda>(nvars_l, lbt_vals, ubt_vals, lb_vals, ub_vals, i, h). nat (nvars_l - i))")
     auto

declare init_bounds_loop.simps [simp del]

definition header_format :: string where
  "header_format = CHR 0x0A # ''%6s%20s%20s%20s%20s%20s'' @ [CHR 0x0A]"

definition header_args :: "arg list" where
  "header_args = [S ''iter'', S ''obj'', S ''KKT_l2'', S ''KKT_linf'', S ''|x|_1'', S ''infeas'']"

definition row_format :: string where
  "row_format = ''%6d%20.10e%20.10e%20.10e%20.10e%20.10e'' @ [CHR 0x0A]"

text \<open>The body of the loop, for the iteration \<open>iter\<close> and the solver in the state \<open>m\<close>;
  it returns the solver. The codes that \<^verbatim>\<open>Update\<close> and \<^verbatim>\<open>KKTresidual\<close> return are not
  looked at (lines 141 and 145); the other calls are under \<^verbatim>\<open>PetscCall\<close>.\<close>

definition iteration ::
  "('p, 'm) env \<Rightarrow> nat \<Rightarrow> nat \<Rightarrow> int \<Rightarrow> 'm \<Rightarrow> ('p, 'm) petsc" where
  "iteration E lb_temp ub_temp iter m s0 =
     (let s1 = call_evalObjCon E s0;
          s2 = call_evalObjConGrad E s1
      in PetscCall (mma_SetOuterMovelimit E m (o_lb s2) (o_ub s2) movelim (o_x s2) lb_temp ub_temp)
           (\<lambda>m1 s3.
             case mma_Update E m1 (o_x s3) (o_g s3) (np_cons s3) (o_gcon s3) lb_temp ub_temp s3 of
               (ierr_update, m2, s4) \<Rightarrow>
             case mma_KKTresidual E m2 (o_x s4) (o_g s4) (np_cons s4) (o_gcon s4) lb_temp ub_temp s4 of
               (ierr_kkt, (kkterr_l2, kkterr_linf), m3, s5) \<Rightarrow>
             PetscCall (VecNorm_1 (petsc_rc E) (o_x s5)) (\<lambda>x_l1 s6.
               let infeas = max_violation (heap s6 (np_cons s6)) (get_num_cons E)
               in PetscCall (if iter mod 10 = 0
                             then PetscFPrintf (petsc_rc E) (fp s6) header_format header_args
                             else Return ()) (\<lambda>_.
                  PetscCall (PetscFPrintf (petsc_rc E) (fp s6) row_format
                               [I iter, D (o_obj s6), D kkterr_l2, D kkterr_linf, D x_l1, D infeas]) (\<lambda>_.
                  Return m3)) s6) s5) s2)"

function optimize_loop ::
  "('p, 'm) env \<Rightarrow> nat \<Rightarrow> nat \<Rightarrow> int \<Rightarrow> int \<Rightarrow> 'm \<Rightarrow> ('p, unit) petsc" where
  "optimize_loop E lb_temp ub_temp niter iter m s =
     (if iter < niter
      then (case iteration E lb_temp ub_temp iter m s of
              (Inl ierr, s') \<Rightarrow> (Inl ierr, s')
            | (Inr m', s') \<Rightarrow> optimize_loop E lb_temp ub_temp niter (iter + 1) m' s')
      else (Inr (), s))"
  by pat_completeness auto
termination
  by (relation "measure (\<lambda>(E, lb_temp, ub_temp, niter, iter, m, s). nat (niter - iter))") auto

declare optimize_loop.simps [simp del]

definition optimize :: "('p, 'm) env \<Rightarrow> int \<Rightarrow> ('p, unit) petsc" where
  "optimize E niter s0 =
     (let nvars = get_num_vars E;
          nvars_l = get_num_vars_local E;
          ncons = get_num_cons E;
          s1 = call_getVarsAndBounds E s0
      in (PetscCall (allocate_petsc_vec (petsc_rc E) nvars nvars_l) (\<lambda>lb_temp.
          PetscCall (allocate_petsc_vec (petsc_rc E) nvars nvars_l) (\<lambda>ub_temp.
          PetscCall (VecGetArray (petsc_rc E) lb_temp) (\<lambda>lbt_vals.
          PetscCall (VecGetArray (petsc_rc E) ub_temp) (\<lambda>ubt_vals s2.
            (PetscCall (VecRestoreArray (petsc_rc E) lb_temp) (\<lambda>_.
             PetscCall (VecRestoreArray (petsc_rc E) ub_temp) (\<lambda>_ s3.
               (PetscCall (optimize_loop E lb_temp ub_temp niter 0
                             (MMA_new E nvars ncons (vec_get s3 (o_x s3)))) (\<lambda>_.
                PetscCall (VecDestroy (petsc_rc E) lb_temp) (\<lambda>_.
                PetscCall (VecDestroy (petsc_rc E) ub_temp) (\<lambda>_.
                Return ()))))
               (s3\<lparr>calls := calls s3 @ [MMA_ctor (vec_get s3 (o_x s3))]\<rparr>))))
            (s2\<lparr>heap := init_bounds_loop nvars_l lbt_vals ubt_vals (np_lb s2, 0) (np_ub s2, 0) 0
                          (heap s2)\<rparr>)))))) s1)"

subsection \<open>Concrete states and environments\<close>

text \<open>The empty state: no buffer, no vector, no file content.\<close>

definition S_init :: "nat state" where
  "S_init = \<lparr>fp = None, np_x = 0, np_lb = 0, np_ub = 0, np_g = 0, np_cons = 0, np_gcon = 0,
     o_x = 0, o_g = 0, o_lb = 0, o_ub = 0, o_gcon = [], o_obj = Finite 0,
     heap = (\<lambda>_. []), nblk = 0, vecs = Map.empty, nvec = 0, ncall = 0,
     files = (\<lambda>_. []), prob = 0, calls = []\<rparr>"

text \<open>A state with one buffer of three scalars and no vector.\<close>

definition S_buffer :: "nat state" where
  "S_buffer = S_init\<lparr>heap := (\<lambda>_. [])(0 := [Finite 7, Finite 8, Finite 9]), nblk := 1\<rparr>"

subsection \<open>The states of a call of optimize\<close>

definition vec_block :: "'p state \<Rightarrow> nat \<Rightarrow> nat option" where
  "vec_block s x =
     (case vecs s x of None \<Rightarrow> None
      | Some v \<Rightarrow> (case v_array v of None \<Rightarrow> None | Some p \<Rightarrow> Some (fst p)))"

text \<open>The layout that the constructor gives the driver: six buffers, apart from one
  another and allocated, and the vector x, created and bound to the buffer of x.\<close>

definition driver_layout :: "'p state \<Rightarrow> bool" where
  "driver_layout s \<longleftrightarrow>
     distinct [np_x s, np_lb s, np_ub s, np_g s, np_cons s, np_gcon s]
     \<and> np_x s < nblk s \<and> np_lb s < nblk s \<and> np_ub s < nblk s
     \<and> o_x s < nvec s \<and> vec_block s (o_x s) = Some (np_x s)"

text \<open>The states an iteration goes through.\<close>

definition after_evals :: "('p, 'm) env \<Rightarrow> 'p state \<Rightarrow> 'p state" where
  "after_evals E s = call_evalObjConGrad E (call_evalObjCon E s)"

definition after_movelimit :: "('p, 'm) env \<Rightarrow> nat \<Rightarrow> nat \<Rightarrow> 'm \<Rightarrow> 'p state \<Rightarrow> 'p state" where
  "after_movelimit E lb_temp ub_temp m s =
     snd (mma_SetOuterMovelimit E m (o_lb s) (o_ub s) movelim (o_x s) lb_temp ub_temp (after_evals E s))"

definition after_update :: "('p, 'm) env \<Rightarrow> nat \<Rightarrow> nat \<Rightarrow> 'm \<Rightarrow> 'm \<Rightarrow> 'p state \<Rightarrow> 'p state" where
  "after_update E lb_temp ub_temp m m1 s =
     snd (snd (mma_Update E m1 (o_x s) (o_g s) (np_cons s) (o_gcon s) lb_temp ub_temp
       (after_movelimit E lb_temp ub_temp m s)))"

definition solver_after_update :: "('p, 'm) env \<Rightarrow> nat \<Rightarrow> nat \<Rightarrow> 'm \<Rightarrow> 'm \<Rightarrow> 'p state \<Rightarrow> 'm" where
  "solver_after_update E lb_temp ub_temp m m1 s =
     fst (snd (mma_Update E m1 (o_x s) (o_g s) (np_cons s) (o_gcon s) lb_temp ub_temp
       (after_movelimit E lb_temp ub_temp m s)))"

definition kkt_of_iteration ::
  "('p, 'm) env \<Rightarrow> nat \<Rightarrow> nat \<Rightarrow> 'm \<Rightarrow> 'm \<Rightarrow> 'p state
     \<Rightarrow> PetscErrorCode \<times> (PetscScalar \<times> PetscScalar) \<times> 'm \<times> 'p state" where
  "kkt_of_iteration E lb_temp ub_temp m m1 s =
     mma_KKTresidual E (solver_after_update E lb_temp ub_temp m m1 s)
       (o_x s) (o_g s) (np_cons s) (o_gcon s) lb_temp ub_temp
       (after_update E lb_temp ub_temp m m1 s)"

text \<open>The row an iteration prints.\<close>

definition row_of_iteration ::
  "('p, 'm) env \<Rightarrow> nat \<Rightarrow> nat \<Rightarrow> int \<Rightarrow> 'm \<Rightarrow> 'm \<Rightarrow> 'p state \<Rightarrow> print" where
  "row_of_iteration E lb_temp ub_temp iter m m1 s =
     (row_format,
      [I iter, D (o_obj (call_evalObjCon E s)),
       D (fst (fst (snd (kkt_of_iteration E lb_temp ub_temp m m1 s)))),
       D (snd (fst (snd (kkt_of_iteration E lb_temp ub_temp m m1 s)))),
       D (double_sum (map double_abs (vec_get (after_update E lb_temp ub_temp m m1 s) (o_x s)))),
       D (max_violation (heap (after_update E lb_temp ub_temp m m1 s) (np_cons s))
            (get_num_cons E))])"

definition after_iteration ::
  "('p, 'm) env \<Rightarrow> nat \<Rightarrow> nat \<Rightarrow> int \<Rightarrow> 'm \<Rightarrow> 'm \<Rightarrow> string \<Rightarrow> 'p state \<Rightarrow> 'p state" where
  "after_iteration E lb_temp ub_temp iter m m1 name s =
     (after_update E lb_temp ub_temp m m1 s)
        \<lparr>calls := calls (after_update E lb_temp ub_temp m m1 s) @
            [KKTresidual_call (vec_get (after_update E lb_temp ub_temp m m1 s) (o_x s))
               (heap (after_update E lb_temp ub_temp m m1 s) (np_cons s))],
         ncall := ncall s + (if iter mod 10 = 0 then 3 else 2),
         files := (files s)(name := files s name @
            (if iter mod 10 = 0 then [(header_format, header_args)] else []) @
            [row_of_iteration E lb_temp ub_temp iter m m1 s])\<rparr>"

text \<open>The formats and first arguments of the prints of the iterations \<open>iter\<close> to
  \<open>niter - 1\<close>.\<close>

definition log_shape :: "int \<Rightarrow> int \<Rightarrow> (string \<times> arg list) list" where
  "log_shape iter niter =
     concat (map (\<lambda>k. (if k mod 10 = 0 then [(header_format, [S ''iter''])] else []) @
                      [(row_format, [I k])]) [iter..niter - 1])"

definition shape :: "print \<Rightarrow> string \<times> arg list" where
  "shape p = (fst p, take 1 (snd p))"

text \<open>The state in which the loop of a call of optimize starts, when the calls before it
  succeed: the temporary bounds are the vectors \<open>nvec s\<close> and \<open>Suc (nvec s)\<close>.\<close>

definition loop_entry :: "('p, 'm) env \<Rightarrow> 'p state \<Rightarrow> 'p state" where
  "loop_entry E s =
     (let s1 = call_getVarsAndBounds E s;
          n = nat (get_num_vars_local E);
          s2 = s1\<lparr>nblk := Suc (Suc (nblk s)),
                 vecs := (vecs s)
                   (nvec s \<mapsto> \<lparr>v_lsize = get_num_vars_local E, v_gsize = get_num_vars E,
                       v_type = Some VECMPI, v_array = Some (nblk s, 0), v_unplaced = None\<rparr>,
                    Suc (nvec s) \<mapsto> \<lparr>v_lsize = get_num_vars_local E, v_gsize = get_num_vars E,
                       v_type = Some VECMPI, v_array = Some (Suc (nblk s), 0), v_unplaced = None\<rparr>),
                 nvec := Suc (Suc (nvec s)),
                 heap := init_bounds_loop (get_num_vars_local E) (nblk s, 0) (Suc (nblk s), 0)
                           (np_lb s, 0) (np_ub s, 0) 0
                           ((heap s1)(nblk s := replicate n (Finite 0), Suc (nblk s) := replicate n (Finite 0)))\<rparr>
      in s2\<lparr>ncall := Suc (Suc (Suc (Suc (Suc (Suc (Suc (Suc (Suc (Suc (ncall s)))))))))),
            calls := calls s @ [GetVarsAndBounds, MMA_ctor (vec_get s2 (o_x s))]\<rparr>)"

text \<open>The constraint values and the objective that evalObjCon gives at the start of an
  iteration.\<close>

definition cons_of_iteration :: "('p, 'm) env \<Rightarrow> 'p state \<Rightarrow> PetscScalar list" where
  "cons_of_iteration E s =
     snd (fst (evalObjCon E (prob s) (heap s (np_x s)) (heap s (np_cons s))))"

definition obj_of_iteration :: "('p, 'm) env \<Rightarrow> 'p state \<Rightarrow> PetscScalar" where
  "obj_of_iteration E s =
     fst (fst (evalObjCon E (prob s) (heap s (np_x s)) (heap s (np_cons s))))"

text \<open>The code that Update returns in an iteration.\<close>

definition update_code :: "('p, 'm) env \<Rightarrow> nat \<Rightarrow> nat \<Rightarrow> 'm \<Rightarrow> 'm \<Rightarrow> 'p state \<Rightarrow> PetscErrorCode" where
  "update_code E lb_temp ub_temp m m1 s =
     fst (mma_Update E m1 (o_x s) (o_g s) (np_cons s) (o_gcon s) lb_temp ub_temp
       (after_movelimit E lb_temp ub_temp m s))"

subsection \<open>The move limits of the solver\<close>

text \<open>Modelled from the spec: \<^verbatim>\<open>MMA::SetOuterMovelimit\<close>, whose definition is not among the
  sources (section 4.4 of the specification: for each local variable \<open>i\<close>,
  \<open>lb_temp[i] = max(lb[i], x[i] - f*(ub[i]-lb[i]))\<close> and
  \<open>ub_temp[i] = min(ub[i], x[i] + f*(ub[i]-lb[i]))\<close>). It returns 0.\<close>

definition SetOuterMovelimit_spec ::
  "'m \<Rightarrow> real list \<Rightarrow> real list \<Rightarrow> real \<Rightarrow> real list \<Rightarrow> real list \<Rightarrow> real list
     \<Rightarrow> PetscErrorCode \<times> (real list \<times> real list) \<times> 'm" where
  "SetOuterMovelimit_spec m lb ub f x lb_temp ub_temp =
     (0,
      (map (\<lambda>i. max (lb ! i) (x ! i - f * (ub ! i - lb ! i))) [0..<length x],
       map (\<lambda>i. min (ub ! i) (x ! i + f * (ub ! i - lb ! i))) [0..<length x]),
      m)"

text \<open>The same for a solver that is handed doubles: the move limits of the finite values
  (an infinity or a NaN counting as 0), returned as finite doubles. It is the solver of the
  environments below.\<close>

fun finite_part :: "PetscScalar \<Rightarrow> real" where
  "finite_part (Finite a) = a"
| "finite_part _ = 0"

definition SetOuterMovelimit_finite ::
  "'m \<Rightarrow> PetscScalar list \<Rightarrow> PetscScalar list \<Rightarrow> PetscScalar \<Rightarrow> PetscScalar list
     \<Rightarrow> PetscScalar list \<Rightarrow> PetscScalar list
     \<Rightarrow> PetscErrorCode \<times> (PetscScalar list \<times> PetscScalar list) \<times> 'm" where
  "SetOuterMovelimit_finite m lb ub f x lb_temp ub_temp =
     (case SetOuterMovelimit_spec m (map finite_part lb) (map finite_part ub) (finite_part f)
             (map finite_part x) (map finite_part lb_temp) (map finite_part ub_temp) of
        (ierr, (lo, hi), m') \<Rightarrow> (ierr, (map Finite lo, map Finite hi), m'))"

subsection \<open>The conversions of a printf format\<close>

text \<open>A conversion specification of a printf format: width, precision, conversion letter.\<close>

datatype conv = Conv (width: nat) (precision: "nat option") (letter: char)

text \<open>The conversion specifications of a format, in order. The second argument is the
  specification being read: nothing outside one, the width and the precision read so far
  inside.\<close>

fun conversions_from :: "string \<Rightarrow> (nat \<times> nat option) option \<Rightarrow> conv list" where
  "conversions_from [] st = []"
| "conversions_from (c # cs) None =
     (if c = CHR ''%'' then conversions_from cs (Some (0, None)) else conversions_from cs None)"
| "conversions_from (c # cs) (Some (w, p)) =
     (if 48 \<le> (of_char c :: nat) \<and> (of_char c :: nat) \<le> 57
      then (case p of
              None \<Rightarrow> conversions_from cs (Some (10 * w + (of_char c - 48), None))
            | Some q \<Rightarrow> conversions_from cs (Some (w, Some (10 * q + (of_char c - 48)))))
      else if c = CHR ''.'' then conversions_from cs (Some (w, Some 0))
      else Conv w p c # conversions_from cs None)"

definition conversions :: "string \<Rightarrow> conv list" where
  "conversions format = conversions_from format None"

text \<open>The number of significant digits that a conversion prints: for \<^verbatim>\<open>%e\<close>, one digit
  before the decimal point and as many as the precision (6 when there is none) after it.\<close>

definition significant_digits :: "conv \<Rightarrow> nat option" where
  "significant_digits c =
     (if letter c = CHR ''e''
      then Some (1 + (case precision c of None \<Rightarrow> 6 | Some p \<Rightarrow> p))
      else None)"

subsection \<open>Environments and a constructed driver\<close>

text \<open>A problem of two variables and one constraint (the objective is the sum of the
  variables, the constraint is that sum less one), with a solver that lowers every
  variable by 0.1 in each update; the same with an update that fails, with move limits
  that fail, and with a log file that cannot be opened.\<close>

definition E_demo :: "(nat, nat) env" where
  "E_demo = \<lparr>petsc_rc = (\<lambda>_. 0), fopen_ok = (\<lambda>_. True), uninit = (\<lambda>_ _. Finite 0),
     get_num_vars = 2, get_num_vars_local = 2, get_num_cons = 1,
     getVarsAndBounds = (\<lambda>p x lb ub.
       (([Finite (1 / 2), Finite (1 / 2)], [Finite 0, Finite 0], [Finite 1, Finite 1]), p)),
     evalObjCon = (\<lambda>p x c. ((double_sum x, [double_add (double_sum x) (Finite (- 1))]), Suc p)),
     evalObjConGrad = (\<lambda>p x g gc. ((map (\<lambda>_. Finite 1) x, map (\<lambda>_. Finite 1) x), p)),
     MMA_new = (\<lambda>n m x. 0),
     SetOuterMovelimit = SetOuterMovelimit_finite,
     Update = (\<lambda>m x g c gc lo hi. (0, map (\<lambda>v. double_add v (Finite (- 1 / 10))) x, Suc m)),
     KKTresidual = (\<lambda>m x g c gc lo hi. (0, (Finite 0, Finite 0), m))\<rparr>"

definition E_update_fails :: "(nat, nat) env" where
  "E_update_fails = E_demo\<lparr>Update := (\<lambda>m x g c gc lo hi. (1, x, m))\<rparr>"

definition E_movelimit_fails :: "(nat, nat) env" where
  "E_movelimit_fails = E_demo\<lparr>SetOuterMovelimit := (\<lambda>m lb ub f x lo hi. (1, (lo, hi), m))\<rparr>"

definition E_nolog :: "(nat, nat) env" where
  "E_nolog = E_demo\<lparr>fopen_ok := (\<lambda>_. False)\<rparr>"

text \<open>The driver that the constructor builds for the first of them, from the empty
  state.\<close>

definition S_ready :: "nat state" where
  "S_ready = snd (Optimizer E_demo ''mma.log'' S_init)"

text \<open>The codes that the calls of Update returned, in order.\<close>

fun update_codes :: "call list \<Rightarrow> PetscErrorCode list" where
  "update_codes [] = []"
| "update_codes (Update_call x c ierr # cs) = ierr # update_codes cs"
| "update_codes (_ # cs) = update_codes cs"

text \<open>The calls that evaluate the problem or make a step of the solver: all but the
  query of the initial design and bounds and the construction of the solver.\<close>

fun evaluation_or_step :: "call \<Rightarrow> bool" where
  "evaluation_or_step GetVarsAndBounds = False"
| "evaluation_or_step (MMA_ctor x) = False"
| "evaluation_or_step _ = True"

section \<open>Properties\<close>

subsection \<open>PetscCall and the PETSc calls, outcome by outcome\<close>

lemma PetscCall_Inr_iff:
  "PetscCall f g s = (Inr b, t) \<longleftrightarrow> (\<exists>a s'. f s = (Inr a, s') \<and> g a s' = (Inr b, t))"
  by (auto simp: PetscCall_def split: prod.splits sum.splits)

lemma PetscCall_Inl_iff:
  "PetscCall f g s = (Inl e, t) \<longleftrightarrow>
     f s = (Inl e, t) \<or> (\<exists>a s'. f s = (Inr a, s') \<and> g a s' = (Inl e, t))"
  by (auto simp: PetscCall_def split: prod.splits sum.splits)

lemma Return_iff [simp]: "Return a s = (r, t) \<longleftrightarrow> r = Inr a \<and> t = s"
  by (auto simp: Return_def)

lemma library_call_Inr:
  "library_call rc s = (Inr u, t) \<longleftrightarrow> rc (ncall s) = 0 \<and> t = s\<lparr>ncall := Suc (ncall s)\<rparr>"
  by (auto simp: library_call_def Let_def)

lemma library_call_Inl:
  "library_call rc s = (Inl e, t) \<longleftrightarrow>
     rc (ncall s) \<noteq> 0 \<and> e = rc (ncall s) \<and> t = s\<lparr>ncall := Suc (ncall s)\<rparr>"
  by (auto simp: library_call_def Let_def)

lemma on_vec_Inr:
  "on_vec rc x f s = (Inr a, t) \<longleftrightarrow>
     rc (ncall s) = 0 \<and> (\<exists>v. vecs s x = Some v \<and> f v (s\<lparr>ncall := Suc (ncall s)\<rparr>) = (Inr a, t))"
  by (auto simp: on_vec_def PetscCall_Inr_iff library_call_Inr split: option.splits)

lemma on_vec_Inl:
  "on_vec rc x f s = (Inl e, t) \<longleftrightarrow>
     (rc (ncall s) \<noteq> 0 \<and> e = rc (ncall s) \<and> t = s\<lparr>ncall := Suc (ncall s)\<rparr>)
     \<or> (rc (ncall s) = 0 \<and> vecs s x = None \<and> e = PETSC_ERR_ARG_CORRUPT \<and> t = s\<lparr>ncall := Suc (ncall s)\<rparr>)
     \<or> (rc (ncall s) = 0 \<and> (\<exists>v. vecs s x = Some v \<and> f v (s\<lparr>ncall := Suc (ncall s)\<rparr>) = (Inl e, t)))"
  by (auto simp: on_vec_def PetscCall_Inl_iff library_call_Inr library_call_Inl split: option.splits)

lemma VecCreate_Inr:
  "VecCreate rc s = (Inr x, t) \<longleftrightarrow>
     rc (ncall s) = 0 \<and> x = nvec s \<and>
     t = s\<lparr>ncall := Suc (ncall s),
           vecs := (vecs s)(nvec s \<mapsto>
             \<lparr>v_lsize = - 1, v_gsize = - 1, v_type = None, v_array = None, v_unplaced = None\<rparr>),
           nvec := Suc (nvec s)\<rparr>"
  by (auto simp: VecCreate_def PetscCall_Inr_iff library_call_Inr)

lemma bind_Inr:
  "bind_petsc_vec_to_array rc gsize lsize data s = (Inr x, t) \<longleftrightarrow>
     rc (ncall s) = 0 \<and> rc (Suc (ncall s)) = 0 \<and> rc (Suc (Suc (ncall s))) = 0
     \<and> rc (Suc (Suc (Suc (ncall s)))) = 0 \<and> x = nvec s \<and>
     t = s\<lparr>ncall := Suc (Suc (Suc (Suc (ncall s)))),
           heap := (heap s)(nblk s := replicate (nat lsize) (Finite 0)),
           nblk := Suc (nblk s),
           vecs := (vecs s)(nvec s \<mapsto>
             \<lparr>v_lsize = lsize, v_gsize = gsize, v_type = Some VECMPI,
              v_array = Some data, v_unplaced = Some (nblk s, 0)\<rparr>),
           nvec := Suc (nvec s)\<rparr>"
  by (auto simp: bind_petsc_vec_to_array_def PetscCall_Inr_iff VecCreate_Inr VecSetSizes_def
      VecSetType_def VecPlaceArray_def on_vec_Inr)

lemma VecGetArray_Inr:
  "VecGetArray rc x s = (Inr p, t) \<longleftrightarrow>
     rc (ncall s) = 0 \<and> (\<exists>v. vecs s x = Some v \<and> v_array v = Some p) \<and> t = s\<lparr>ncall := Suc (ncall s)\<rparr>"
  unfolding VecGetArray_def on_vec_Inr
  by (cases "vecs s x") (auto split: option.splits)

lemma load_store:
  "snd p + length vs \<le> length (h (fst p)) \<Longrightarrow> load (store h p vs) p (length vs) = vs"
  by (simp add: load_def store_def)

lemma peek_store:
  "snd p + length vs \<le> length (h (fst p)) \<Longrightarrow> i < length vs \<Longrightarrow> peek (store h p vs) p i = vs ! i"
  by (simp add: peek_def store_def nth_append)

lemma load_poke:
  "snd p + n \<le> length (h (fst p)) \<Longrightarrow> i < n \<Longrightarrow> load (poke h p i v) p n ! i = v"
  by (simp add: load_def poke_def)

lemma bind_ok:
  "rc (ncall s) = 0 \<Longrightarrow> rc (Suc (ncall s)) = 0 \<Longrightarrow> rc (Suc (Suc (ncall s))) = 0 \<Longrightarrow>
   rc (Suc (Suc (Suc (ncall s)))) = 0 \<Longrightarrow>
   bind_petsc_vec_to_array rc gsize lsize data s =
     (Inr (nvec s),
      s\<lparr>ncall := Suc (Suc (Suc (Suc (ncall s)))),
           heap := (heap s)(nblk s := replicate (nat lsize) (Finite 0)),
           nblk := Suc (nblk s),
           vecs := (vecs s)(nvec s \<mapsto>
             \<lparr>v_lsize = lsize, v_gsize = gsize, v_type = Some VECMPI,
              v_array = Some data, v_unplaced = Some (nblk s, 0)\<rparr>),
           nvec := Suc (nvec s)\<rparr>)"
  by (simp add: bind_Inr)

subsection \<open>The order of the doubles\<close>

lemma double_less_eq_refl: "a \<noteq> NaN \<Longrightarrow> double_less_eq a a"
  by (cases a) simp_all

lemma double_less_eq_trans:
  "double_less_eq a b \<Longrightarrow> double_less_eq b c \<Longrightarrow> double_less_eq a c"
  by (cases a; cases b; cases c) simp_all

lemma double_less_eq_antisym: "double_less_eq a b \<Longrightarrow> double_less_eq b a \<Longrightarrow> a = b"
  by (cases a; cases b) simp_all

lemma double_less_eq_NaN_left [simp]: "\<not> double_less_eq NaN b"
  by (cases b) simp_all

lemma double_less_eq_NaN_right [simp]: "\<not> double_less_eq a NaN"
  by (cases a) simp_all

lemma double_greater_iff:
  "double_greater a b \<longleftrightarrow> a \<noteq> NaN \<and> b \<noteq> NaN \<and> \<not> double_less_eq a b"
  by (cases a; cases b) auto

lemma double_less_eq_total:
  "a \<noteq> NaN \<Longrightarrow> b \<noteq> NaN \<Longrightarrow> double_less_eq a b \<or> double_less_eq b a"
  by (cases a; cases b) auto

lemma double_sum_Finite: "double_sum (map Finite xs) = Finite (sum_list xs)"
  by (induction xs) simp_all

subsection \<open>The maximum constraint violation\<close>

lemma infeas_loop_step:
  "i < ncons \<Longrightarrow> infeas_loop con_vals ncons i infeas =
     infeas_loop con_vals ncons (i + 1)
       (if double_greater (con_vals ! nat i) infeas then con_vals ! nat i else infeas)"
  by (subst infeas_loop.simps) simp

lemma infeas_loop_done: "\<not> i < ncons \<Longrightarrow> infeas_loop con_vals ncons i infeas = infeas"
  by (subst infeas_loop.simps) simp

lemma infeas_loop_fold:
  "0 \<le> i \<Longrightarrow> infeas_loop cs (int (length cs)) i a =
     foldl (\<lambda>a c. if double_greater c a then c else a) a (drop (nat i) cs)"
proof (induction cs "int (length cs)" i a rule: infeas_loop.induct)
  case (1 cs i a)
  show ?case
  proof (cases "i < int (length cs)")
    case True
    then have d: "drop (nat i) cs = cs ! nat i # drop (nat (i + 1)) cs"
      using 1(2) by (simp add: Cons_nth_drop_Suc nat_add_distrib)
    have "infeas_loop cs (int (length cs)) i a =
          infeas_loop cs (int (length cs)) (i + 1)
            (if double_greater (cs ! nat i) a then cs ! nat i else a)"
      using True by (rule infeas_loop_step)
    also have "\<dots> = foldl (\<lambda>a c. if double_greater c a then c else a)
        (if double_greater (cs ! nat i) a then cs ! nat i else a) (drop (nat (i + 1)) cs)"
      using 1(1)[OF True] 1(2) by simp
    also have "\<dots> = foldl (\<lambda>a c. if double_greater c a then c else a) a (drop (nat i) cs)"
      by (simp add: d)
    finally show ?thesis .
  next
    case False
    then show ?thesis using 1(2) by (simp add: infeas_loop_done)
  qed
qed

lemma max_violation_fold:
  "max_violation cs (int (length cs)) =
     foldl (\<lambda>a c. if double_greater c a then c else a) (Finite 0) cs"
  by (simp add: max_violation_def infeas_loop_fold)

text \<open>The largest value seen: it is not NaN, it is at least the start value and every
  value of the list that is not NaN, and it is the start value or a value of the list.\<close>

lemma largest_seen:
  assumes "a \<noteq> NaN"
  shows "foldl (\<lambda>a c. if double_greater c a then c else a) a cs \<noteq> NaN
    \<and> double_less_eq a (foldl (\<lambda>a c. if double_greater c a then c else a) a cs)
    \<and> (\<forall>c\<in>set cs. c \<noteq> NaN \<longrightarrow>
          double_less_eq c (foldl (\<lambda>a c. if double_greater c a then c else a) a cs))
    \<and> (foldl (\<lambda>a c. if double_greater c a then c else a) a cs = a
        \<or> foldl (\<lambda>a c. if double_greater c a then c else a) a cs \<in> set cs)"
  using assms
proof (induction cs arbitrary: a)
  case Nil
  then show ?case by (simp add: double_less_eq_refl)
next
  case (Cons c cs)
  let ?b = "if double_greater c a then c else a"
  have b: "?b \<noteq> NaN" using Cons.prems by (auto simp: double_greater_iff)
  have ab: "double_less_eq a ?b"
    using Cons.prems double_less_eq_total [of c a]
    by (auto simp: double_greater_iff double_less_eq_refl)
  have cb: "c \<noteq> NaN \<Longrightarrow> double_less_eq c ?b"
    using Cons.prems by (auto simp: double_greater_iff double_less_eq_refl)
  from Cons.IH [OF b] have ih:
    "foldl (\<lambda>a c. if double_greater c a then c else a) ?b cs \<noteq> NaN"
    "double_less_eq ?b (foldl (\<lambda>a c. if double_greater c a then c else a) ?b cs)"
    "\<forall>c\<in>set cs. c \<noteq> NaN \<longrightarrow>
          double_less_eq c (foldl (\<lambda>a c. if double_greater c a then c else a) ?b cs)"
    "foldl (\<lambda>a c. if double_greater c a then c else a) ?b cs = ?b
        \<or> foldl (\<lambda>a c. if double_greater c a then c else a) ?b cs \<in> set cs"
    by blast+
  have 1: "foldl (\<lambda>a c. if double_greater c a then c else a) a (c # cs) \<noteq> NaN"
    using ih(1) by simp
  have 2: "double_less_eq a (foldl (\<lambda>a c. if double_greater c a then c else a) a (c # cs))"
    using double_less_eq_trans [OF ab ih(2)] by simp
  have 3: "\<forall>c'\<in>set (c # cs). c' \<noteq> NaN \<longrightarrow>
          double_less_eq c' (foldl (\<lambda>a c. if double_greater c a then c else a) a (c # cs))"
  proof (intro ballI impI)
    fix c' assume "c' \<in> set (c # cs)" and n: "c' \<noteq> NaN"
    then consider "c' = c" | "c' \<in> set cs" by auto
    then show "double_less_eq c' (foldl (\<lambda>a c. if double_greater c a then c else a) a (c # cs))"
    proof cases
      case 1
      with n have "double_less_eq c' ?b" using cb by simp
      from double_less_eq_trans [OF this ih(2)] show ?thesis by simp
    next
      case 2
      with ih(3) n show ?thesis by simp
    qed
  qed
  have 4: "foldl (\<lambda>a c. if double_greater c a then c else a) a (c # cs) = a
        \<or> foldl (\<lambda>a c. if double_greater c a then c else a) a (c # cs) \<in> set (c # cs)"
    using ih(4) by (auto split: if_splits)
  from 1 2 3 4 show ?case by blast
qed

lemma largest_seen_Finite:
  "foldl (\<lambda>a c. if double_greater c a then c else a) (Finite a) (map Finite cs) =
     Finite (Max (insert a (set cs)))"
proof (induction cs arbitrary: a)
  case Nil then show ?case by simp
next
  case (Cons c cs)
  have "foldl (\<lambda>a c. if double_greater c a then c else a) (Finite a) (map Finite (c # cs)) =
        foldl (\<lambda>a c. if double_greater c a then c else a) (Finite (max a c)) (map Finite cs)"
    by (simp add: max_def)
  also have "\<dots> = Finite (Max (insert (max a c) (set cs)))"
    by (rule Cons)
  also have "Max (insert (max a c) (set cs)) = Max (insert a (set (c # cs)))"
    by (cases "set cs = {}") (simp_all add: max.assoc)
  finally show ?case .
qed

text \<open>What lines 152-159 compute on a buffer of \<open>ncons\<close> values.\<close>

lemma max_violation_char:
  assumes "int (length cons) = ncons"
  shows "max_violation cons ncons \<noteq> NaN"
    and "double_less_eq (Finite 0) (max_violation cons ncons)"
    and "\<forall>i<length cons. cons ! i \<noteq> NaN \<longrightarrow> double_less_eq (cons ! i) (max_violation cons ncons)"
    and "max_violation cons ncons = Finite 0 \<or> max_violation cons ncons \<in> set cons"
    and "max_violation cons ncons = Finite 0 \<longleftrightarrow>
           (\<forall>i<length cons. cons ! i \<noteq> NaN \<longrightarrow> double_less_eq (cons ! i) (Finite 0))"
    and "\<forall>cs. cons = map Finite cs \<longrightarrow> cs \<noteq> [] \<longrightarrow>
           max_violation cons ncons = Finite (Max ((\<lambda>c. max c 0) ` set cs))"
proof -
  let ?v = "max_violation cons ncons"
  have mv: "?v = foldl (\<lambda>a c. if double_greater c a then c else a) (Finite 0) cons"
    using assms max_violation_fold by blast
  have "Finite 0 \<noteq> NaN" by simp
  from largest_seen [OF this, of cons]
  have 1: "?v \<noteq> NaN" and 2: "double_less_eq (Finite 0) ?v"
    and 3: "\<forall>c\<in>set cons. c \<noteq> NaN \<longrightarrow> double_less_eq c ?v"
    and 4: "?v = Finite 0 \<or> ?v \<in> set cons"
    unfolding mv by blast+
  show "?v \<noteq> NaN" by (rule 1)
  show "double_less_eq (Finite 0) ?v" by (rule 2)
  show ub: "\<forall>i<length cons. cons ! i \<noteq> NaN \<longrightarrow> double_less_eq (cons ! i) ?v"
    using 3 by simp
  show "?v = Finite 0 \<or> ?v \<in> set cons" by (rule 4)
  show "?v = Finite 0 \<longleftrightarrow>
           (\<forall>i<length cons. cons ! i \<noteq> NaN \<longrightarrow> double_less_eq (cons ! i) (Finite 0))"
  proof
    assume "?v = Finite 0"
    with ub show "\<forall>i<length cons. cons ! i \<noteq> NaN \<longrightarrow> double_less_eq (cons ! i) (Finite 0)"
      by simp
  next
    assume le: "\<forall>i<length cons. cons ! i \<noteq> NaN \<longrightarrow> double_less_eq (cons ! i) (Finite 0)"
    from 4 show "?v = Finite 0"
    proof
      assume "?v = Finite 0" then show ?thesis .
    next
      assume "?v \<in> set cons"
      then obtain i where "i < length cons" "cons ! i = ?v"
        by (auto simp: in_set_conv_nth)
      with le 1 have "double_less_eq ?v (Finite 0)" by metis
      then show "?v = Finite 0" using 2 by (rule double_less_eq_antisym)
    qed
  qed
  show "\<forall>cs. cons = map Finite cs \<longrightarrow> cs \<noteq> [] \<longrightarrow>
           ?v = Finite (Max ((\<lambda>c. max c 0) ` set cs))"
  proof (intro allI impI)
    fix cs assume c: "cons = map Finite cs" and ne: "cs \<noteq> []"
    have "Max ((\<lambda>c. max c 0) ` set cs) = max (Max (set cs)) 0"
      using ne by (intro hom_Max_commute [symmetric]) auto
    also have "\<dots> = Max (insert 0 (set cs))"
      using ne by (simp add: max.commute)
    finally have "Max ((\<lambda>c. max c 0) ` set cs) = Max (insert 0 (set cs))" .
    moreover have "?v = Finite (Max (insert 0 (set cs)))"
      unfolding mv by (simp add: c largest_seen_Finite)
    ultimately show "?v = Finite (Max ((\<lambda>c. max c 0) ` set cs))"
      by simp
  qed
qed

lemma max_violation_example:
  "max_violation [Finite (- 1), Finite (3 / 10), Finite 0] 3 = Finite (3 / 10)"
  "max_violation [Finite 0] 1 = Finite 0"
  "max_violation [NaN] 1 = Finite 0"
  using max_violation_fold [of "[Finite (- 1), Finite (3 / 10), Finite 0]"]
    max_violation_fold [of "[Finite 0]"] max_violation_fold [of "[NaN]"]
  by simp_all

subsection \<open>Binding a vector to a buffer\<close>

text \<open>C1, as the code has it. When \<^verbatim>\<open>bind_petsc_vec_to_array\<close> returns 0 on a buffer that
  was allocated before the call and holds at least \<open>lsize\<close> scalars from the pointer on:
  the accessor of the vector returns the pointer of the buffer itself; the local values of
  the vector are the first \<open>lsize\<close> scalars of the buffer; the buffer is left as it was (no
  copy); a write through the vector is read back from the buffer at the same index, and a
  write to the buffer is read back through the vector. The call does allocate: the array
  that \<^verbatim>\<open>VecSetType\<close> gave the vector is one new block of \<open>lsize\<close> zeros, set aside by
  \<^verbatim>\<open>VecPlaceArray\<close>.\<close>

theorem bind_aliases_buffer:
  assumes ok: "bind_petsc_vec_to_array rc gsize lsize data s = (Inr x, t)"
    and buf: "fst data < nblk s"
    and room: "snd data + nat lsize \<le> length (heap s (fst data))"
  shows "(\<forall>rc' p t'. VecGetArray rc' x t = (Inr p, t') \<longrightarrow> p = data)
       \<and> vec_get t x = load (heap s) data (nat lsize)
       \<and> heap t (fst data) = heap s (fst data)
       \<and> (\<forall>vs i. length vs = nat lsize \<and> i < nat lsize \<longrightarrow>
            peek (heap (vec_put x vs t)) data i = vs ! i)
       \<and> (\<forall>v i. i < nat lsize \<longrightarrow> vec_get (t\<lparr>heap := poke (heap t) data i v\<rparr>) x ! i = v)
       \<and> nblk t = Suc (nblk s)
       \<and> heap t (nblk s) = replicate (nat lsize) (Finite 0)
       \<and> (\<exists>v. vecs t x = Some v \<and> v_unplaced v = Some (nblk s, 0))"
proof -
  from ok have t: "t = s\<lparr>ncall := Suc (Suc (Suc (Suc (ncall s)))),
           heap := (heap s)(nblk s := replicate (nat lsize) (Finite 0)),
           nblk := Suc (nblk s),
           vecs := (vecs s)(nvec s \<mapsto>
             \<lparr>v_lsize = lsize, v_gsize = gsize, v_type = Some VECMPI,
              v_array = Some data, v_unplaced = Some (nblk s, 0)\<rparr>),
           nvec := Suc (nvec s)\<rparr>" and x: "x = nvec s"
    by (simp_all add: bind_Inr)
  have ne: "fst data \<noteq> nblk s" using buf by simp
  have 1: "\<forall>rc' p t'. VecGetArray rc' x t = (Inr p, t') \<longrightarrow> p = data"
    by (simp add: VecGetArray_Inr t x)
  have 2: "vec_get t x = load (heap s) data (nat lsize)"
    using ne by (simp add: vec_get_def t x load_def)
  have 3: "heap t (fst data) = heap s (fst data)"
    using ne by (simp add: t)
  have 4: "\<forall>vs i. length vs = nat lsize \<and> i < nat lsize \<longrightarrow>
            peek (heap (vec_put x vs t)) data i = vs ! i"
    using ne room by (simp add: vec_put_def t x peek_store)
  have 5: "\<forall>v i. i < nat lsize \<longrightarrow> vec_get (t\<lparr>heap := poke (heap t) data i v\<rparr>) x ! i = v"
  proof (intro allI impI)
    fix v i assume i: "i < nat lsize"
    have "snd data + nat lsize \<le> length (heap t (fst data))" using room 3 by simp
    then show "vec_get (t\<lparr>heap := poke (heap t) data i v\<rparr>) x ! i = v"
      using i by (simp add: vec_get_def t x load_poke)
  qed
  have 6: "nblk t = Suc (nblk s)" by (simp add: t)
  have 7: "\<exists>v. vecs t x = Some v \<and> v_unplaced v = Some (nblk s, 0)" by (simp add: t x)
  have 8: "heap t (nblk s) = replicate (nat lsize) (Finite 0)" by (simp add: t)
  from 1 2 3 4 5 6 7 8 show ?thesis by blast
qed

theorem bind_aliases_buffer_witness:
  "bind_petsc_vec_to_array (\<lambda>_. 0) 3 3 (0, 0) S_buffer =
     (Inr 0, snd (bind_petsc_vec_to_array (\<lambda>_. 0) 3 3 (0, 0) S_buffer))
   \<and> fst (0::nat, 0::nat) < nblk S_buffer
   \<and> snd (0::nat, 0::nat) + nat 3 \<le> length (heap S_buffer (fst (0::nat, 0::nat)))
   \<and> vec_get (snd (bind_petsc_vec_to_array (\<lambda>_. 0) 3 3 (0, 0) S_buffer)) 0 =
        [Finite 7, Finite 8, Finite 9]
   \<and> peek (heap (vec_put 0 [Finite 1, Finite 2, Finite 3]
          (snd (bind_petsc_vec_to_array (\<lambda>_. 0) 3 3 (0, 0) S_buffer)))) (0, 0) 1 = Finite 2"
proof -
  have a: "bind_petsc_vec_to_array (\<lambda>_. 0) 3 3 (0, 0) S_buffer =
     (Inr 0, snd (bind_petsc_vec_to_array (\<lambda>_. 0) 3 3 (0, 0) S_buffer))"
    by (simp add: bind_ok S_buffer_def S_init_def)
  have b: "fst (0::nat, 0::nat) < nblk S_buffer"
    by (simp add: S_buffer_def)
  have c: "snd (0::nat, 0::nat) + nat 3 \<le> length (heap S_buffer (fst (0::nat, 0::nat)))"
    by (simp add: S_buffer_def)
  have d: "load (heap S_buffer) (0, 0) (nat 3) = [Finite 7, Finite 8, Finite 9]"
    by (simp add: load_def S_buffer_def)
  from bind_aliases_buffer [OF a b c] a b c d show ?thesis
    by simp
qed

text \<open>C1 as stated (no allocation of separate storage) fails: binding a buffer of three
  scalars allocates a second block of three zeros.\<close>

theorem bind_allocates_counterexample:
  "fst (bind_petsc_vec_to_array (\<lambda>_. 0) 3 3 (0, 0) S_buffer) = Inr 0
   \<and> nblk (snd (bind_petsc_vec_to_array (\<lambda>_. 0) 3 3 (0, 0) S_buffer)) \<noteq> nblk S_buffer
   \<and> heap (snd (bind_petsc_vec_to_array (\<lambda>_. 0) 3 3 (0, 0) S_buffer)) 1 =
        [Finite 0, Finite 0, Finite 0]"
  by (simp add: bind_ok S_buffer_def S_init_def numeral_3_eq_3)

subsection \<open>What the calls on the collaborators leave\<close>

lemma vec_put_fields [simp]:
  "fp (vec_put x vs s) = fp s" "np_x (vec_put x vs s) = np_x s" "np_lb (vec_put x vs s) = np_lb s"
  "np_ub (vec_put x vs s) = np_ub s" "np_g (vec_put x vs s) = np_g s"
  "np_cons (vec_put x vs s) = np_cons s" "np_gcon (vec_put x vs s) = np_gcon s"
  "o_x (vec_put x vs s) = o_x s" "o_g (vec_put x vs s) = o_g s" "o_lb (vec_put x vs s) = o_lb s"
  "o_ub (vec_put x vs s) = o_ub s" "o_gcon (vec_put x vs s) = o_gcon s"
  "o_obj (vec_put x vs s) = o_obj s" "nblk (vec_put x vs s) = nblk s"
  "vecs (vec_put x vs s) = vecs s" "nvec (vec_put x vs s) = nvec s"
  "ncall (vec_put x vs s) = ncall s" "files (vec_put x vs s) = files s"
  "prob (vec_put x vs s) = prob s" "calls (vec_put x vs s) = calls s"
  by (simp_all add: vec_put_def split: option.splits)

lemma call_evalObjCon_fields [simp]:
  "fp (call_evalObjCon E s) = fp s" "np_x (call_evalObjCon E s) = np_x s"
  "np_lb (call_evalObjCon E s) = np_lb s" "np_ub (call_evalObjCon E s) = np_ub s"
  "np_g (call_evalObjCon E s) = np_g s" "np_cons (call_evalObjCon E s) = np_cons s"
  "np_gcon (call_evalObjCon E s) = np_gcon s" "o_x (call_evalObjCon E s) = o_x s"
  "o_g (call_evalObjCon E s) = o_g s" "o_lb (call_evalObjCon E s) = o_lb s"
  "o_ub (call_evalObjCon E s) = o_ub s" "o_gcon (call_evalObjCon E s) = o_gcon s"
  "nblk (call_evalObjCon E s) = nblk s" "vecs (call_evalObjCon E s) = vecs s"
  "nvec (call_evalObjCon E s) = nvec s" "ncall (call_evalObjCon E s) = ncall s"
  "files (call_evalObjCon E s) = files s"
  by (simp_all add: call_evalObjCon_def split: prod.splits)

lemma call_evalObjConGrad_fields [simp]:
  "fp (call_evalObjConGrad E s) = fp s" "np_x (call_evalObjConGrad E s) = np_x s"
  "np_lb (call_evalObjConGrad E s) = np_lb s" "np_ub (call_evalObjConGrad E s) = np_ub s"
  "np_g (call_evalObjConGrad E s) = np_g s" "np_cons (call_evalObjConGrad E s) = np_cons s"
  "np_gcon (call_evalObjConGrad E s) = np_gcon s" "o_x (call_evalObjConGrad E s) = o_x s"
  "o_g (call_evalObjConGrad E s) = o_g s" "o_lb (call_evalObjConGrad E s) = o_lb s"
  "o_ub (call_evalObjConGrad E s) = o_ub s" "o_gcon (call_evalObjConGrad E s) = o_gcon s"
  "o_obj (call_evalObjConGrad E s) = o_obj s"
  "nblk (call_evalObjConGrad E s) = nblk s" "vecs (call_evalObjConGrad E s) = vecs s"
  "nvec (call_evalObjConGrad E s) = nvec s" "ncall (call_evalObjConGrad E s) = ncall s"
  "files (call_evalObjConGrad E s) = files s"
  by (simp_all add: call_evalObjConGrad_def split: prod.splits)

lemma call_getVarsAndBounds_fields [simp]:
  "fp (call_getVarsAndBounds E s) = fp s" "np_x (call_getVarsAndBounds E s) = np_x s"
  "np_lb (call_getVarsAndBounds E s) = np_lb s" "np_ub (call_getVarsAndBounds E s) = np_ub s"
  "np_g (call_getVarsAndBounds E s) = np_g s" "np_cons (call_getVarsAndBounds E s) = np_cons s"
  "np_gcon (call_getVarsAndBounds E s) = np_gcon s" "o_x (call_getVarsAndBounds E s) = o_x s"
  "o_g (call_getVarsAndBounds E s) = o_g s" "o_lb (call_getVarsAndBounds E s) = o_lb s"
  "o_ub (call_getVarsAndBounds E s) = o_ub s" "o_gcon (call_getVarsAndBounds E s) = o_gcon s"
  "o_obj (call_getVarsAndBounds E s) = o_obj s"
  "nblk (call_getVarsAndBounds E s) = nblk s" "vecs (call_getVarsAndBounds E s) = vecs s"
  "nvec (call_getVarsAndBounds E s) = nvec s" "ncall (call_getVarsAndBounds E s) = ncall s"
  "files (call_getVarsAndBounds E s) = files s"
  "calls (call_getVarsAndBounds E s) = calls s @ [GetVarsAndBounds]"
  by (simp_all add: call_getVarsAndBounds_def split: prod.splits)

lemma mma_SetOuterMovelimit_fields [simp]:
  "fp (snd (mma_SetOuterMovelimit E m a b f x lo hi s)) = fp s"
  "np_x (snd (mma_SetOuterMovelimit E m a b f x lo hi s)) = np_x s"
  "np_lb (snd (mma_SetOuterMovelimit E m a b f x lo hi s)) = np_lb s"
  "np_ub (snd (mma_SetOuterMovelimit E m a b f x lo hi s)) = np_ub s"
  "np_g (snd (mma_SetOuterMovelimit E m a b f x lo hi s)) = np_g s"
  "np_cons (snd (mma_SetOuterMovelimit E m a b f x lo hi s)) = np_cons s"
  "np_gcon (snd (mma_SetOuterMovelimit E m a b f x lo hi s)) = np_gcon s"
  "o_x (snd (mma_SetOuterMovelimit E m a b f x lo hi s)) = o_x s"
  "o_g (snd (mma_SetOuterMovelimit E m a b f x lo hi s)) = o_g s"
  "o_lb (snd (mma_SetOuterMovelimit E m a b f x lo hi s)) = o_lb s"
  "o_ub (snd (mma_SetOuterMovelimit E m a b f x lo hi s)) = o_ub s"
  "o_gcon (snd (mma_SetOuterMovelimit E m a b f x lo hi s)) = o_gcon s"
  "o_obj (snd (mma_SetOuterMovelimit E m a b f x lo hi s)) = o_obj s"
  "nblk (snd (mma_SetOuterMovelimit E m a b f x lo hi s)) = nblk s"
  "vecs (snd (mma_SetOuterMovelimit E m a b f x lo hi s)) = vecs s"
  "nvec (snd (mma_SetOuterMovelimit E m a b f x lo hi s)) = nvec s"
  "ncall (snd (mma_SetOuterMovelimit E m a b f x lo hi s)) = ncall s"
  "files (snd (mma_SetOuterMovelimit E m a b f x lo hi s)) = files s"
  "prob (snd (mma_SetOuterMovelimit E m a b f x lo hi s)) = prob s"
  "calls (snd (mma_SetOuterMovelimit E m a b f x lo hi s)) = calls s @ [SetOuterMovelimit_call (vec_get s x)]"
  by (simp_all add: mma_SetOuterMovelimit_def split_beta)

lemma mma_Update_fields [simp]:
  "fp (snd (snd (mma_Update E m x g c gc lo hi s))) = fp s"
  "np_x (snd (snd (mma_Update E m x g c gc lo hi s))) = np_x s"
  "np_lb (snd (snd (mma_Update E m x g c gc lo hi s))) = np_lb s"
  "np_ub (snd (snd (mma_Update E m x g c gc lo hi s))) = np_ub s"
  "np_g (snd (snd (mma_Update E m x g c gc lo hi s))) = np_g s"
  "np_cons (snd (snd (mma_Update E m x g c gc lo hi s))) = np_cons s"
  "np_gcon (snd (snd (mma_Update E m x g c gc lo hi s))) = np_gcon s"
  "o_x (snd (snd (mma_Update E m x g c gc lo hi s))) = o_x s"
  "o_g (snd (snd (mma_Update E m x g c gc lo hi s))) = o_g s"
  "o_lb (snd (snd (mma_Update E m x g c gc lo hi s))) = o_lb s"
  "o_ub (snd (snd (mma_Update E m x g c gc lo hi s))) = o_ub s"
  "o_gcon (snd (snd (mma_Update E m x g c gc lo hi s))) = o_gcon s"
  "o_obj (snd (snd (mma_Update E m x g c gc lo hi s))) = o_obj s"
  "nblk (snd (snd (mma_Update E m x g c gc lo hi s))) = nblk s"
  "vecs (snd (snd (mma_Update E m x g c gc lo hi s))) = vecs s"
  "nvec (snd (snd (mma_Update E m x g c gc lo hi s))) = nvec s"
  "ncall (snd (snd (mma_Update E m x g c gc lo hi s))) = ncall s"
  "files (snd (snd (mma_Update E m x g c gc lo hi s))) = files s"
  "prob (snd (snd (mma_Update E m x g c gc lo hi s))) = prob s"
  "calls (snd (snd (mma_Update E m x g c gc lo hi s))) =
     calls s @ [Update_call (vec_get s x) (heap s c)
        (fst (Update E m (vec_get s x) (vec_get s g) (heap s c) (map (vec_get s) gc)
                (vec_get s lo) (vec_get s hi)))]"
  by (simp_all add: mma_Update_def split_beta)

lemma mma_KKTresidual_state:
  "snd (snd (snd (mma_KKTresidual E m x g c gc lo hi s))) =
     s\<lparr>calls := calls s @ [KKTresidual_call (vec_get s x) (heap s c)]\<rparr>"
  by (simp add: mma_KKTresidual_def split_beta)

lemma vec_get_cong: "vecs s = vecs s' \<Longrightarrow> heap s = heap s' \<Longrightarrow> vec_get s x = vec_get s' x"
  by (simp add: vec_get_def split: option.splits)

lemma vec_get_upd [simp]:
  "vec_get (s\<lparr>ncall := n\<rparr>) x = vec_get s x"
  "vec_get (s\<lparr>calls := c\<rparr>) x = vec_get s x"
  "vec_get (s\<lparr>files := f\<rparr>) x = vec_get s x"
  by (simp_all add: vec_get_def split: option.splits)

lemma VecNorm_1_Inr:
  "VecNorm_1 rc x s = (Inr n, t) \<longleftrightarrow>
     rc (ncall s) = 0 \<and> (\<exists>v. vecs s x = Some v) \<and> n = double_sum (map double_abs (vec_get s x))
     \<and> t = s\<lparr>ncall := Suc (ncall s)\<rparr>"
  by (auto simp: VecNorm_1_def on_vec_Inr)

lemma PetscFPrintf_Inr:
  "PetscFPrintf rc stream format args s = (Inr u, t) \<longleftrightarrow>
     rc (ncall s) = 0 \<and>
     (\<exists>name. stream = Some name \<and>
        t = s\<lparr>ncall := Suc (ncall s), files := (files s)(name := files s name @ [(format, args)])\<rparr>)"
  by (auto simp: PetscFPrintf_def PetscCall_Inr_iff library_call_Inr split: option.splits)

text \<open>What a successful iteration leaves.\<close>

lemma PetscCall_InrE:
  assumes "PetscCall f g s = (Inr b, t)"
  obtains a s' where "f s = (Inr a, s')" "g a s' = (Inr b, t)"
  using assms by (auto simp: PetscCall_Inr_iff)

lemma iteration_Inr:
  assumes "iteration E lb_temp ub_temp iter m s = (Inr m', t)"
  shows "\<exists>m1 name.
    mma_SetOuterMovelimit E m (o_lb s) (o_ub s) movelim (o_x s) lb_temp ub_temp (after_evals E s)
      = (Inr m1, after_movelimit E lb_temp ub_temp m s)
    \<and> fp s = Some name
    \<and> (\<exists>v. vecs s (o_x s) = Some v)
    \<and> m' = fst (snd (snd (kkt_of_iteration E lb_temp ub_temp m m1 s)))
    \<and> t = after_iteration E lb_temp ub_temp iter m m1 name s"
proof -
  let ?s2 = "after_evals E s"
  let ?s3 = "after_movelimit E lb_temp ub_temp m s"
  from assms obtain m1 s3 where
    A: "mma_SetOuterMovelimit E m (o_lb s) (o_ub s) movelim (o_x s) lb_temp ub_temp ?s2 = (Inr m1, s3)"
    and B: "(case mma_Update E m1 (o_x s3) (o_g s3) (np_cons s3) (o_gcon s3) lb_temp ub_temp s3 of
               (ierr_update, m2, s4) \<Rightarrow>
             case mma_KKTresidual E m2 (o_x s4) (o_g s4) (np_cons s4) (o_gcon s4) lb_temp ub_temp s4 of
               (ierr_kkt, (kkterr_l2, kkterr_linf), m3, s5) \<Rightarrow>
             PetscCall (VecNorm_1 (petsc_rc E) (o_x s5)) (\<lambda>x_l1 s6.
               let infeas = max_violation (heap s6 (np_cons s6)) (get_num_cons E)
               in PetscCall (if iter mod 10 = 0
                             then PetscFPrintf (petsc_rc E) (fp s6) header_format header_args
                             else Return ()) (\<lambda>_.
                  PetscCall (PetscFPrintf (petsc_rc E) (fp s6) row_format
                               [I iter, D (o_obj s6), D kkterr_l2, D kkterr_linf, D x_l1, D infeas]) (\<lambda>_.
                  Return m3)) s6) s5) = (Inr m', t)"
    unfolding iteration_def Let_def after_evals_def
    by (subst (asm) PetscCall_Inr_iff) (auto simp: after_evals_def)
  have s3: "s3 = ?s3"
    using A by (simp add: after_movelimit_def)
  let ?s4 = "after_update E lb_temp ub_temp m m1 s"
  have f3: "o_x ?s3 = o_x s" "o_g ?s3 = o_g s" "np_cons ?s3 = np_cons s" "o_gcon ?s3 = o_gcon s"
    "fp ?s3 = fp s" "ncall ?s3 = ncall s" "files ?s3 = files s"
    by (simp_all add: after_movelimit_def after_evals_def)
  have f4: "o_x ?s4 = o_x s" "o_g ?s4 = o_g s" "np_cons ?s4 = np_cons s" "o_gcon ?s4 = o_gcon s"
    "fp ?s4 = fp s" "ncall ?s4 = ncall s" "files ?s4 = files s"
    "o_obj ?s4 = o_obj (call_evalObjCon E s)"
    by (simp_all add: after_update_def after_movelimit_def after_evals_def)
  have s4: "snd (snd (mma_Update E m1 (o_x s3) (o_g s3) (np_cons s3) (o_gcon s3) lb_temp ub_temp s3)) = ?s4"
    by (simp add: s3 f3 after_update_def)
  have m2: "fst (snd (mma_Update E m1 (o_x s3) (o_g s3) (np_cons s3) (o_gcon s3) lb_temp ub_temp s3))
      = solver_after_update E lb_temp ub_temp m m1 s"
    by (simp add: s3 f3 solver_after_update_def)
  have v4: "vecs ?s4 = vecs s"
    by (simp add: after_update_def after_movelimit_def after_evals_def)
  from B have C: "PetscCall (VecNorm_1 (petsc_rc E) (o_x s)) (\<lambda>x_l1 s6.
               let infeas = max_violation (heap s6 (np_cons s6)) (get_num_cons E)
               in PetscCall (if iter mod 10 = 0
                             then PetscFPrintf (petsc_rc E) (fp s6) header_format header_args
                             else Return ()) (\<lambda>_.
                  PetscCall (PetscFPrintf (petsc_rc E) (fp s6) row_format
                               [I iter, D (o_obj s6),
                                D (fst (fst (snd (kkt_of_iteration E lb_temp ub_temp m m1 s)))),
                                D (snd (fst (snd (kkt_of_iteration E lb_temp ub_temp m m1 s)))),
                                D x_l1, D infeas]) (\<lambda>_.
                  Return (fst (snd (snd (kkt_of_iteration E lb_temp ub_temp m m1 s)))))) s6)
             (?s4\<lparr>calls := calls ?s4 @ [KKTresidual_call (vec_get ?s4 (o_x s)) (heap ?s4 (np_cons s))]\<rparr>)
           = (Inr m', t)"
    by (simp add: split_beta s4 m2 mma_KKTresidual_state f4 kkt_of_iteration_def)
  let ?s5 = "?s4\<lparr>calls := calls ?s4 @ [KKTresidual_call (vec_get ?s4 (o_x s)) (heap ?s4 (np_cons s))]\<rparr>"
  from C obtain x_l1 s6 where
    N: "VecNorm_1 (petsc_rc E) (o_x s) ?s5 = (Inr x_l1, s6)"
    and R1: "PetscCall (if iter mod 10 = 0
                             then PetscFPrintf (petsc_rc E) (fp s6) header_format header_args
                             else Return ()) (\<lambda>_.
                  PetscCall (PetscFPrintf (petsc_rc E) (fp s6) row_format
                               [I iter, D (o_obj s6),
                                D (fst (fst (snd (kkt_of_iteration E lb_temp ub_temp m m1 s)))),
                                D (snd (fst (snd (kkt_of_iteration E lb_temp ub_temp m m1 s)))),
                                D x_l1, D (max_violation (heap s6 (np_cons s6)) (get_num_cons E))]) (\<lambda>_.
                  Return (fst (snd (snd (kkt_of_iteration E lb_temp ub_temp m m1 s)))))) s6
           = (Inr m', t)"
    unfolding Let_def by (rule PetscCall_InrE)
  from N have n0: "petsc_rc E (ncall s) = 0" and live: "\<exists>v. vecs s (o_x s) = Some v"
    and xl1: "x_l1 = double_sum (map double_abs (vec_get ?s4 (o_x s)))"
    and s6: "s6 = ?s5\<lparr>ncall := Suc (ncall s)\<rparr>"
    by (simp_all add: VecNorm_1_Inr f4 v4)
  have f6: "fp s6 = fp s" "o_obj s6 = o_obj (call_evalObjCon E s)" "np_cons s6 = np_cons s"
    "heap s6 = heap ?s4" "files s6 = files s" "ncall s6 = Suc (ncall s)"
    by (simp_all add: s6 f4)
  from R1 obtain u s7 where
    H: "(if iter mod 10 = 0 then PetscFPrintf (petsc_rc E) (fp s) header_format header_args
         else Return ()) s6 = (Inr u, s7)"
    and R2: "PetscCall (PetscFPrintf (petsc_rc E) (fp s) row_format
                     (snd (row_of_iteration E lb_temp ub_temp iter m m1 s)))
               (\<lambda>_. Return (fst (snd (snd (kkt_of_iteration E lb_temp ub_temp m m1 s))))) s7
           = (Inr m', t)"
    unfolding f6 xl1 row_of_iteration_def snd_conv by (rule PetscCall_InrE)
  from R2 obtain u' s8 where
    P: "PetscFPrintf (petsc_rc E) (fp s) row_format
          (snd (row_of_iteration E lb_temp ub_temp iter m m1 s)) s7 = (Inr u', s8)"
    and R3: "Return (fst (snd (snd (kkt_of_iteration E lb_temp ub_temp m m1 s)))) s8 = (Inr m', t)"
    by (rule PetscCall_InrE)
  from R3 have m': "m' = fst (snd (snd (kkt_of_iteration E lb_temp ub_temp m m1 s)))" and t: "t = s8"
    by simp_all
  from P obtain name where name: "fp s = Some name"
    and s8: "s8 = s7\<lparr>ncall := Suc (ncall s7),
        files := (files s7)(name := files s7 name @ [row_of_iteration E lb_temp ub_temp iter m m1 s])\<rparr>"
    by (auto simp: PetscFPrintf_Inr row_of_iteration_def)
  have s7: "s7 = s6\<lparr>ncall := ncall s + (if iter mod 10 = 0 then 2 else 1),
        files := (files s)(name := files s name @
           (if iter mod 10 = 0 then [(header_format, header_args)] else []))\<rparr>"
  proof (cases "iter mod 10 = 0")
    case True
    with H show ?thesis by (simp add: PetscFPrintf_Inr name f6)
  next
    case False
    with H show ?thesis by (simp add: f6 [symmetric])
  qed
  have "t = after_iteration E lb_temp ub_temp iter m m1 name s"
    unfolding t s8 s7 s6 after_iteration_def by simp
  with name live m' have D: "\<exists>name. fp s = Some name \<and> (\<exists>v. vecs s (o_x s) = Some v)
       \<and> m' = fst (snd (snd (kkt_of_iteration E lb_temp ub_temp m m1 s)))
       \<and> t = after_iteration E lb_temp ub_temp iter m m1 name s"
    by blast
  from A s3 D show ?thesis by blast
qed

lemma after_iteration_fields [simp]:
  "fp (after_iteration E lb_temp ub_temp iter m m1 name s) = fp s"
  "np_x (after_iteration E lb_temp ub_temp iter m m1 name s) = np_x s"
  "np_lb (after_iteration E lb_temp ub_temp iter m m1 name s) = np_lb s"
  "np_ub (after_iteration E lb_temp ub_temp iter m m1 name s) = np_ub s"
  "np_g (after_iteration E lb_temp ub_temp iter m m1 name s) = np_g s"
  "np_cons (after_iteration E lb_temp ub_temp iter m m1 name s) = np_cons s"
  "np_gcon (after_iteration E lb_temp ub_temp iter m m1 name s) = np_gcon s"
  "o_x (after_iteration E lb_temp ub_temp iter m m1 name s) = o_x s"
  "o_g (after_iteration E lb_temp ub_temp iter m m1 name s) = o_g s"
  "o_lb (after_iteration E lb_temp ub_temp iter m m1 name s) = o_lb s"
  "o_ub (after_iteration E lb_temp ub_temp iter m m1 name s) = o_ub s"
  "o_gcon (after_iteration E lb_temp ub_temp iter m m1 name s) = o_gcon s"
  "nblk (after_iteration E lb_temp ub_temp iter m m1 name s) = nblk s"
  "vecs (after_iteration E lb_temp ub_temp iter m m1 name s) = vecs s"
  "nvec (after_iteration E lb_temp ub_temp iter m m1 name s) = nvec s"
  "files (after_iteration E lb_temp ub_temp iter m m1 name s) =
     (files s)(name := files s name @
        (if iter mod 10 = 0 then [(header_format, header_args)] else []) @
        [row_of_iteration E lb_temp ub_temp iter m m1 s])"
  by (simp_all add: after_iteration_def after_update_def after_movelimit_def after_evals_def)

lemma log_shape_step:
  "iter < niter \<Longrightarrow> log_shape iter niter =
     (if iter mod 10 = 0 then [(header_format, [S ''iter''])] else []) @
     [(row_format, [I iter])] @ log_shape (iter + 1) niter"
  by (simp add: log_shape_def upto_rec1 [of iter "niter - 1"])

lemma log_shape_done: "\<not> iter < niter \<Longrightarrow> log_shape iter niter = []"
  by (simp add: log_shape_def)

lemma optimize_loop_done:
  "\<not> iter < niter \<Longrightarrow> optimize_loop E lb_temp ub_temp niter iter m s = (Inr (), s)"
  by (subst optimize_loop.simps) simp

lemma optimize_loop_step:
  "iter < niter \<Longrightarrow> optimize_loop E lb_temp ub_temp niter iter m s =
     (case iteration E lb_temp ub_temp iter m s of
        (Inl ierr, s') \<Rightarrow> (Inl ierr, s')
      | (Inr m', s') \<Rightarrow> optimize_loop E lb_temp ub_temp niter (iter + 1) m' s')"
  by (subst optimize_loop.simps) simp

lemma optimize_loop_Inr:
  assumes "optimize_loop E lb_temp ub_temp niter iter m s = (Inr u, t)"
  shows "vecs t = vecs s \<and> nvec t = nvec s \<and> fp t = fp s \<and> nblk t = nblk s \<and>
     np_x t = np_x s \<and> np_lb t = np_lb s \<and> np_ub t = np_ub s \<and> o_x t = o_x s \<and>
     (\<exists>ps. files t = (case fp s of None \<Rightarrow> files s
                      | Some name \<Rightarrow> (files s)(name := files s name @ ps))
         \<and> map shape ps = log_shape iter niter)"
  using assms
proof (induction E lb_temp ub_temp niter iter m s rule: optimize_loop.induct)
  case (1 E lb_temp ub_temp niter iter m s)
  show ?case
  proof (cases "iter < niter")
    case False
    with "1.prems" have "t = s" by (simp add: optimize_loop_done)
    then show ?thesis using False
      by (auto simp: log_shape_done split: option.splits intro: exI [of _ "[]"])
  next
    case True
    obtain r s' where it: "iteration E lb_temp ub_temp iter m s = (r, s')"
      by (cases "iteration E lb_temp ub_temp iter m s")
    from "1.prems" True it obtain m' where r: "r = Inr m'"
      and rest: "optimize_loop E lb_temp ub_temp niter (iter + 1) m' s' = (Inr u, t)"
      by (cases r) (simp_all add: optimize_loop_step)
    from iteration_Inr [OF it [unfolded r]]
    obtain m1 name where name: "fp s = Some name"
      and s': "s' = after_iteration E lb_temp ub_temp iter m m1 name s"
      by blast
    from "1.IH" [OF True it [unfolded r, symmetric] refl rest]
    obtain ps where ih: "vecs t = vecs s'" "nvec t = nvec s'" "fp t = fp s'"
      "files t = (case fp s' of None \<Rightarrow> files s'
                      | Some name \<Rightarrow> (files s')(name := files s' name @ ps))"
      "map shape ps = log_shape (iter + 1) niter"
      "nblk t = nblk s'" "np_x t = np_x s'" "np_lb t = np_lb s'" "np_ub t = np_ub s'"
      "o_x t = o_x s'"
      by blast
    let ?new = "(if iter mod 10 = 0 then [(header_format, header_args)] else []) @
        [row_of_iteration E lb_temp ub_temp iter m m1 s] @ ps"
    have "files t = (files s)(name := files s name @ ?new)"
      using ih(4) by (simp add: s' name)
    moreover have "map shape ?new = log_shape iter niter"
      using ih(5) True
      by (simp add: log_shape_step shape_def header_args_def row_of_iteration_def)
    ultimately show ?thesis
      using ih(1-3) ih(6-10) name by (auto simp: s')
  qed
qed

lemma allocate_Inr:
  "allocate_petsc_vec rc gsize lsize s = (Inr x, t) \<longleftrightarrow>
     rc (ncall s) = 0 \<and> rc (Suc (ncall s)) = 0 \<and> rc (Suc (Suc (ncall s))) = 0 \<and> x = nvec s \<and>
     t = s\<lparr>ncall := Suc (Suc (Suc (ncall s))),
           heap := (heap s)(nblk s := replicate (nat lsize) (Finite 0)),
           nblk := Suc (nblk s),
           vecs := (vecs s)(nvec s \<mapsto>
             \<lparr>v_lsize = lsize, v_gsize = gsize, v_type = Some VECMPI,
              v_array = Some (nblk s, 0), v_unplaced = None\<rparr>),
           nvec := Suc (nvec s)\<rparr>"
  by (auto simp: allocate_petsc_vec_def PetscCall_Inr_iff VecCreate_Inr VecSetSizes_def
      VecSetType_def on_vec_Inr)

lemma VecRestoreArray_Inr:
  "VecRestoreArray rc x s = (Inr u, t) \<longleftrightarrow>
     rc (ncall s) = 0 \<and> (\<exists>v. vecs s x = Some v) \<and> t = s\<lparr>ncall := Suc (ncall s)\<rparr>"
  by (auto simp: VecRestoreArray_def on_vec_Inr)

lemma VecDestroy_Inr:
  "VecDestroy rc x s = (Inr u, t) \<longleftrightarrow>
     rc (ncall s) = 0 \<and> (\<exists>v. vecs s x = Some v)
     \<and> t = s\<lparr>ncall := Suc (ncall s), vecs := (vecs s)(x := None)\<rparr>"
  by (auto simp: VecDestroy_def on_vec_Inr)

lemma optimize_Inr:
  assumes "optimize E niter s = (Inr u, t)"
  shows "\<exists>sL. optimize_loop E (nvec s) (Suc (nvec s)) niter 0
                 (MMA_new E (get_num_vars E) (get_num_cons E) (vec_get (loop_entry E s) (o_x s)))
                 (loop_entry E s) = (Inr (), sL)
           \<and> t = sL\<lparr>ncall := Suc (Suc (ncall sL)),
                     vecs := (vecs sL)(nvec s := None, Suc (nvec s) := None)\<rparr>"
  using assms unfolding optimize_def Let_def
  apply (elim PetscCall_InrE)
  apply (simp add: allocate_Inr VecGetArray_Inr VecRestoreArray_Inr VecDestroy_Inr)
  apply (elim conjE exE)
  apply (simp add: loop_entry_def Let_def)
  done

subsection \<open>Failures and their causes\<close>

lemma PetscCall_cases:
  assumes "PetscCall f g s = (r, t)"
  obtains (fail) e where "f s = (Inl e, t)" "r = Inl e"
        | (ok) a s' where "f s = (Inr a, s')" "g a s' = (r, t)"
  using assms by (auto simp: PetscCall_def split: prod.splits sum.splits)

lemma on_vec_Inl_state:
  assumes "on_vec rc x f s = (Inl e, t)"
    and "\<And>v t'. f v (s\<lparr>ncall := Suc (ncall s)\<rparr>) = (Inl e, t') \<Longrightarrow> t' = s\<lparr>ncall := Suc (ncall s)\<rparr>"
  shows "t = s\<lparr>ncall := Suc (ncall s)\<rparr>"
  using assms by (auto simp: on_vec_Inl)

lemma VecGetArray_Inl: "VecGetArray rc x s = (Inl e, t) \<Longrightarrow> t = s\<lparr>ncall := Suc (ncall s)\<rparr>"
  unfolding VecGetArray_def by (erule on_vec_Inl_state) (auto split: option.splits)

lemma VecRestoreArray_Inl: "VecRestoreArray rc x s = (Inl e, t) \<Longrightarrow> t = s\<lparr>ncall := Suc (ncall s)\<rparr>"
  unfolding VecRestoreArray_def by (erule on_vec_Inl_state) auto

lemma VecDestroy_Inl: "VecDestroy rc x s = (Inl e, t) \<Longrightarrow> t = s\<lparr>ncall := Suc (ncall s)\<rparr>"
  unfolding VecDestroy_def by (erule on_vec_Inl_state) auto

lemma init_bounds_loop_step:
  "i < nvars_l \<Longrightarrow> init_bounds_loop nvars_l lbt_vals ubt_vals lb_vals ub_vals i h =
     init_bounds_loop nvars_l lbt_vals ubt_vals lb_vals ub_vals (i + 1)
       (poke (poke h lbt_vals (nat i) (peek h lb_vals (nat i))) ubt_vals (nat i)
          (peek (poke h lbt_vals (nat i) (peek h lb_vals (nat i))) ub_vals (nat i)))"
  by (subst init_bounds_loop.simps) (simp add: Let_def)

lemma init_bounds_loop_done:
  "\<not> i < nvars_l \<Longrightarrow> init_bounds_loop nvars_l lbt_vals ubt_vals lb_vals ub_vals i h = h"
  by (subst init_bounds_loop.simps) simp

lemma poke_other: "b \<noteq> fst p \<Longrightarrow> poke h p i v b = h b"
  by (simp add: poke_def)

lemma init_bounds_loop_frame:
  "b \<noteq> fst lbt \<Longrightarrow> b \<noteq> fst ubt \<Longrightarrow> init_bounds_loop n lbt ubt lb ub i h b = h b"
proof (induction n lbt ubt lb ub i h rule: init_bounds_loop.induct)
  case (1 n lbt ubt lb ub i h)
  show ?case
  proof (cases "i < n")
    case True
    let ?h1 = "poke h lbt (nat i) (peek h lb (nat i))"
    let ?h2 = "poke ?h1 ubt (nat i) (peek ?h1 ub (nat i))"
    have "init_bounds_loop n lbt ubt lb ub i h b = init_bounds_loop n lbt ubt lb ub (i + 1) ?h2 b"
      using True by (simp only: init_bounds_loop_step)
    also have "\<dots> = ?h2 b"
      using "1.IH" [OF True refl refl "1.prems"] .
    also have "\<dots> = h b"
      using "1.prems" by (simp add: poke_other)
    finally show ?thesis .
  next
    case False
    then show ?thesis by (simp add: init_bounds_loop_done)
  qed
qed

lemma VecCreate_Inl:
  "VecCreate rc s = (Inl e, t) \<longleftrightarrow>
     rc (ncall s) \<noteq> 0 \<and> e = rc (ncall s) \<and> t = s\<lparr>ncall := Suc (ncall s)\<rparr>"
  by (auto simp: VecCreate_def PetscCall_Inl_iff library_call_Inl)

lemma allocate_Inl:
  "allocate_petsc_vec rc gsize lsize s = (Inl e, t) \<Longrightarrow>
     calls t = calls s \<and> np_x t = np_x s \<and> heap t = heap s"
  by (auto simp: allocate_petsc_vec_def PetscCall_Inl_iff VecCreate_Inr VecCreate_Inl VecSetSizes_def
      VecSetType_def on_vec_Inr on_vec_Inl)

lemma optimize_zero_outcome:
  assumes wf: "np_x s < nblk s" "np_lb s \<noteq> np_x s" "np_ub s \<noteq> np_x s"
    and run: "optimize E 0 s = (r, t)"
  shows "(calls t = calls s @ [GetVarsAndBounds]
          \<or> (\<exists>xs. calls t = calls s @ [GetVarsAndBounds, MMA_ctor xs]))
       \<and> getOptimizedDesign t =
           fst (fst (getVarsAndBounds E (prob s) (heap s (np_x s)) (heap s (np_lb s)) (heap s (np_ub s))))"
proof -
  have x1: "heap (call_getVarsAndBounds E s) (np_x s) =
      fst (fst (getVarsAndBounds E (prob s) (heap s (np_x s)) (heap s (np_lb s)) (heap s (np_ub s))))"
    using wf by (simp add: call_getVarsAndBounds_def split_beta)
  note [simp] = allocate_Inr VecGetArray_Inr VecRestoreArray_Inr VecDestroy_Inr
    optimize_loop_done getOptimizedDesign_def init_bounds_loop_frame x1
  from run wf show ?thesis
    unfolding optimize_def Let_def
    apply (elim PetscCall_cases)
    apply (auto dest!: allocate_Inl VecGetArray_Inl VecRestoreArray_Inl VecDestroy_Inl)
    done
qed

lemma mma_SetOuterMovelimit_Inl:
  "mma_SetOuterMovelimit E m a b f x lo hi s = (Inl e, t) \<Longrightarrow>
     fst (SetOuterMovelimit E m (vec_get s a) (vec_get s b) f (vec_get s x) (vec_get s lo) (vec_get s hi)) \<noteq> 0"
  by (auto simp: mma_SetOuterMovelimit_def split_beta split: if_splits)

lemma on_vec_Inl_cause:
  "on_vec rc x f s = (Inl e, t) \<Longrightarrow>
     rc (ncall s) \<noteq> 0 \<or> vecs s x = None
     \<or> (\<exists>v. vecs s x = Some v \<and> f v (s\<lparr>ncall := Suc (ncall s)\<rparr>) = (Inl e, t))"
  by (auto simp: on_vec_Inl)

lemma VecNorm_1_Inl: "VecNorm_1 rc x s = (Inl e, t) \<Longrightarrow> rc (ncall s) \<noteq> 0 \<or> vecs s x = None"
  unfolding VecNorm_1_def by (drule on_vec_Inl_cause) auto

lemma PetscFPrintf_Inl:
  "PetscFPrintf rc stream format args s = (Inl e, t) \<Longrightarrow> rc (ncall s) \<noteq> 0 \<or> stream = None"
  by (auto simp: PetscFPrintf_def PetscCall_Inl_iff library_call_Inl library_call_Inr split: option.splits)

lemma mma_SetOuterMovelimit_result:
  assumes "mma_SetOuterMovelimit E m a b f x lo hi s = (r, t)"
  shows "vecs t = vecs s \<and> fp t = fp s \<and> o_x t = o_x s \<and> ncall t = ncall s
    \<and> (\<forall>e. r = Inl e \<longrightarrow>
          fst (SetOuterMovelimit E m (vec_get s a) (vec_get s b) f (vec_get s x)
                 (vec_get s lo) (vec_get s hi)) \<noteq> 0)"
proof -
  have t: "t = snd (mma_SetOuterMovelimit E m a b f x lo hi s)" using assms by simp
  have "vecs t = vecs s" "fp t = fp s" "o_x t = o_x s" "ncall t = ncall s"
    unfolding t by simp_all
  moreover have "\<forall>e. r = Inl e \<longrightarrow>
          fst (SetOuterMovelimit E m (vec_get s a) (vec_get s b) f (vec_get s x)
                 (vec_get s lo) (vec_get s hi)) \<noteq> 0"
  proof (intro allI impI)
    fix e assume "r = Inl e"
    with assms have "mma_SetOuterMovelimit E m a b f x lo hi s = (Inl e, t)" by simp
    then show "fst (SetOuterMovelimit E m (vec_get s a) (vec_get s b) f (vec_get s x)
                 (vec_get s lo) (vec_get s hi)) \<noteq> 0"
      by (rule mma_SetOuterMovelimit_Inl)
  qed
  ultimately show ?thesis by blast
qed

lemma iteration_no_fail:
  assumes rc: "\<And>k. petsc_rc E k = 0"
    and ml: "\<And>m a b f x lo hi. fst (SetOuterMovelimit E m a b f x lo hi) = 0"
    and fp: "fp s = Some name"
    and live: "vecs s (o_x s) = Some v"
  shows "iteration E lb_temp ub_temp iter m s \<noteq> (Inl e, t)"
proof
  assume "iteration E lb_temp ub_temp iter m s = (Inl e, t)"
  then show False
    unfolding iteration_def Let_def split_beta
    apply (elim PetscCall_cases)
    using rc ml fp live
    apply (auto dest!: mma_SetOuterMovelimit_result VecNorm_1_Inl PetscFPrintf_Inl
       simp: VecNorm_1_Inr PetscFPrintf_Inr mma_KKTresidual_state split: if_splits)
    done
qed

lemma iteration_ok:
  assumes rc: "\<And>k. petsc_rc E k = 0"
    and ml: "\<And>m a b f x lo hi. fst (SetOuterMovelimit E m a b f x lo hi) = 0"
    and fp: "fp s = Some name"
    and live: "vecs s (o_x s) = Some v"
  shows "\<exists>m1 m'. iteration E lb_temp ub_temp iter m s =
           (Inr m', after_iteration E lb_temp ub_temp iter m m1 name s)"
proof -
  obtain r t where it: "iteration E lb_temp ub_temp iter m s = (r, t)"
    by (cases "iteration E lb_temp ub_temp iter m s")
  with iteration_no_fail [OF rc ml fp live] obtain m' where r: "r = Inr m'"
    by (cases r) auto
  from iteration_Inr [OF it [unfolded r]] fp obtain m1 where
    "t = after_iteration E lb_temp ub_temp iter m m1 name s"
    by auto
  with it r show ?thesis by blast
qed

lemma optimize_loop_ok:
  assumes rc: "\<And>k. petsc_rc E k = 0"
    and ml: "\<And>m a b f x lo hi. fst (SetOuterMovelimit E m a b f x lo hi) = 0"
    and fp: "fp s = Some name"
    and live: "vecs s (o_x s) = Some v"
  shows "\<exists>t. optimize_loop E lb_temp ub_temp niter iter m s = (Inr (), t)"
  using rc ml fp live
proof (induction E lb_temp ub_temp niter iter m s rule: optimize_loop.induct)
  case (1 E lb_temp ub_temp niter iter m s)
  show ?case
  proof (cases "iter < niter")
    case False
    then show ?thesis by (simp add: optimize_loop_done)
  next
    case True
    from iteration_ok [OF "1.prems"] obtain m1 m' where
      it: "iteration E lb_temp ub_temp iter m s =
             (Inr m', after_iteration E lb_temp ub_temp iter m m1 name s)"
      by blast
    have "\<exists>t. optimize_loop E lb_temp ub_temp niter (iter + 1) m'
            (after_iteration E lb_temp ub_temp iter m m1 name s) = (Inr (), t)"
      using "1.prems" by (intro "1.IH" [OF True it [symmetric] refl]) simp_all
    then show ?thesis
      using True it by (simp add: optimize_loop_step)
  qed
qed

lemma optimize_loop_Inl_cause:
  assumes "optimize_loop E lb_temp ub_temp niter iter m s = (Inl e, t)"
  shows "(\<exists>k. petsc_rc E k \<noteq> 0)
       \<or> (\<exists>m a b f x lo hi. fst (SetOuterMovelimit E m a b f x lo hi) \<noteq> 0)
       \<or> fp s = None \<or> vecs s (o_x s) = None"
proof (rule ccontr)
  assume "\<not> ?thesis"
  then have "\<exists>t. optimize_loop E lb_temp ub_temp niter iter m s = (Inr (), t)"
    by (intro optimize_loop_ok [where name = "the (fp s)" and v = "the (vecs s (o_x s))"]) auto
  with assms show False by simp
qed

lemma optimize_loop_vecs:
  "optimize_loop E lb_temp ub_temp niter iter m s = (Inr u, t) \<Longrightarrow> vecs t = vecs s"
  by (drule optimize_loop_Inr) simp

lemma allocate_Inl_cause:
  "allocate_petsc_vec rc gsize lsize s = (Inl e, t) \<Longrightarrow> \<exists>k. rc k \<noteq> 0"
  by (auto simp: allocate_petsc_vec_def PetscCall_Inl_iff VecCreate_Inr VecCreate_Inl VecSetSizes_def
      VecSetType_def on_vec_Inr on_vec_Inl)

lemma VecGetArray_Inl_cause:
  "VecGetArray rc x s = (Inl e, t) \<Longrightarrow>
     rc (ncall s) \<noteq> 0 \<or> vecs s x = None \<or> (\<exists>v. vecs s x = Some v \<and> v_array v = None)"
  unfolding VecGetArray_def by (drule on_vec_Inl_cause) (auto split: option.splits)

lemma VecRestoreArray_Inl_cause:
  "VecRestoreArray rc x s = (Inl e, t) \<Longrightarrow> rc (ncall s) \<noteq> 0 \<or> vecs s x = None"
  unfolding VecRestoreArray_def by (drule on_vec_Inl_cause) auto

lemma VecDestroy_Inl_cause:
  "VecDestroy rc x s = (Inl e, t) \<Longrightarrow> rc (ncall s) \<noteq> 0 \<or> vecs s x = None"
  unfolding VecDestroy_def by (drule on_vec_Inl_cause) auto

lemma optimize_ok:
  assumes rc: "\<And>k. petsc_rc E k = 0"
    and ml: "\<And>m a b f x lo hi. fst (SetOuterMovelimit E m a b f x lo hi) = 0"
    and fp: "fp s = Some name"
    and live: "vecs s (o_x s) = Some v"
  shows "\<exists>t. optimize E niter s = (Inr (), t)"
proof -
  obtain r t where run: "optimize E niter s = (r, t)"
    by (cases "optimize E niter s")
  have "r \<noteq> Inl e" for e
  proof
    assume "r = Inl e"
    with run have "optimize E niter s = (Inl e, t)" by simp
    then show False
      unfolding optimize_def Let_def
      apply (elim PetscCall_cases)
      using rc ml fp live
      apply (auto dest!: allocate_Inl_cause VecGetArray_Inl_cause VecRestoreArray_Inl_cause
          VecDestroy_Inl_cause optimize_loop_Inl_cause optimize_loop_vecs
          simp: allocate_Inr VecGetArray_Inr VecRestoreArray_Inr VecDestroy_Inr split: if_splits)
      done
  qed
  then have "r = Inr ()" by (cases r) auto
  with run show ?thesis by blast
qed

subsection \<open>The constraint buffer during an iteration\<close>

lemma store_other: "b \<noteq> fst p \<Longrightarrow> store h p vs b = h b"
  by (simp add: store_def)

lemma heap_vec_put_other:
  "vec_block s x \<noteq> Some b \<Longrightarrow> heap (vec_put x vs s) b = heap s b"
  by (auto simp: vec_put_def vec_block_def store_other split: option.splits)

lemma vec_block_upd [simp]:
  "vec_block (s\<lparr>calls := c\<rparr>) x = vec_block s x"
  "vec_block (s\<lparr>ncall := n\<rparr>) x = vec_block s x"
  "vec_block (s\<lparr>heap := h\<rparr>) x = vec_block s x"
  "vec_block (s\<lparr>prob := p\<rparr>) x = vec_block s x"
  "vec_block (s\<lparr>o_obj := f\<rparr>) x = vec_block s x"
  "vec_block (s\<lparr>files := fl\<rparr>) x = vec_block s x"
  by (simp_all add: vec_block_def)

lemma vec_block_vec_put [simp]: "vec_block (vec_put y vs s) x = vec_block s x"
  by (simp add: vec_block_def)

lemma vec_block_evals [simp]:
  "vec_block (call_evalObjCon E s) x = vec_block s x"
  "vec_block (call_evalObjConGrad E s) x = vec_block s x"
  by (simp_all add: vec_block_def)

lemma heap_call_evalObjCon:
  "heap (call_evalObjCon E s) =
     (heap s)(np_cons s := snd (fst (evalObjCon E (prob s) (heap s (np_x s)) (heap s (np_cons s)))))"
  by (simp add: call_evalObjCon_def split_beta)

lemma calls_call_evalObjCon:
  "calls (call_evalObjCon E s) = calls s @ [EvalObjCon (heap s (np_x s))]"
  by (simp add: call_evalObjCon_def split_beta)

lemma heap_call_evalObjConGrad:
  "heap (call_evalObjConGrad E s) =
     (heap s)(np_g s := fst (fst (evalObjConGrad E (prob s) (heap s (np_x s)) (heap s (np_g s)) (heap s (np_gcon s)))),
              np_gcon s := snd (fst (evalObjConGrad E (prob s) (heap s (np_x s)) (heap s (np_g s)) (heap s (np_gcon s)))))"
  by (simp add: call_evalObjConGrad_def split_beta)

lemma calls_call_evalObjConGrad:
  "calls (call_evalObjConGrad E s) = calls s @ [EvalObjConGrad (heap s (np_x s))]"
  by (simp add: call_evalObjConGrad_def split_beta)

lemma heap_mma_SetOuterMovelimit_other:
  "vec_block s lo \<noteq> Some b \<Longrightarrow> vec_block s hi \<noteq> Some b \<Longrightarrow>
     heap (snd (mma_SetOuterMovelimit E m xmin xmax f x lo hi s)) b = heap s b"
  by (simp add: mma_SetOuterMovelimit_def split_beta heap_vec_put_other)

lemma heap_mma_Update_other:
  "vec_block s x \<noteq> Some b \<Longrightarrow>
     heap (snd (snd (mma_Update E m x g c gc lo hi s))) b = heap s b"
  by (simp add: mma_Update_def split_beta heap_vec_put_other)

lemma vec_block_mma [simp]:
  "vec_block (snd (mma_SetOuterMovelimit E m xmin xmax f x lo hi s)) y = vec_block s y"
  "vec_block (snd (snd (mma_Update E m x g c gc lo hi s))) y = vec_block s y"
  by (simp_all add: vec_block_def)

lemma cons_after_evals:
  "np_g s \<noteq> np_cons s \<Longrightarrow> np_gcon s \<noteq> np_cons s \<Longrightarrow>
     heap (after_evals E s) (np_cons s) = cons_of_iteration E s"
  by (simp add: after_evals_def heap_call_evalObjConGrad heap_call_evalObjCon cons_of_iteration_def)

lemma x_after_evalObjCon:
  "np_x s \<noteq> np_cons s \<Longrightarrow> heap (call_evalObjCon E s) (np_x s) = heap s (np_x s)"
  by (simp add: heap_call_evalObjCon)

lemma vec_block_after [simp]:
  "vec_block (after_evals E s) x = vec_block s x"
  "vec_block (after_movelimit E lb_temp ub_temp m s) x = vec_block s x"
  by (simp_all add: after_evals_def after_movelimit_def)

lemma cons_after_movelimit:
  assumes "np_g s \<noteq> np_cons s" "np_gcon s \<noteq> np_cons s"
    "vec_block s lb_temp \<noteq> Some (np_cons s)" "vec_block s ub_temp \<noteq> Some (np_cons s)"
  shows "heap (after_movelimit E lb_temp ub_temp m s) (np_cons s) = cons_of_iteration E s"
  using assms
  by (simp add: after_movelimit_def heap_mma_SetOuterMovelimit_other cons_after_evals)

lemma cons_after_update:
  assumes "np_g s \<noteq> np_cons s" "np_gcon s \<noteq> np_cons s"
    "vec_block s lb_temp \<noteq> Some (np_cons s)" "vec_block s ub_temp \<noteq> Some (np_cons s)"
    "vec_block s (o_x s) \<noteq> Some (np_cons s)"
  shows "heap (after_update E lb_temp ub_temp m m1 s) (np_cons s) = cons_of_iteration E s"
  using assms
  by (simp add: after_update_def heap_mma_Update_other cons_after_movelimit)

lemma update_code_eq:
  "update_code E lb_temp ub_temp m m1 s =
     fst (Update E m1 (vec_get (after_movelimit E lb_temp ub_temp m s) (o_x s))
       (vec_get (after_movelimit E lb_temp ub_temp m s) (o_g s))
       (heap (after_movelimit E lb_temp ub_temp m s) (np_cons s))
       (map (vec_get (after_movelimit E lb_temp ub_temp m s)) (o_gcon s))
       (vec_get (after_movelimit E lb_temp ub_temp m s) lb_temp)
       (vec_get (after_movelimit E lb_temp ub_temp m s) ub_temp))"
  by (simp add: update_code_def mma_Update_def split_beta)

lemma calls_after_update:
  "calls (after_update E lb_temp ub_temp m m1 s) =
     calls s @ [EvalObjCon (heap s (np_x s)),
                EvalObjConGrad (heap (call_evalObjCon E s) (np_x s)),
                SetOuterMovelimit_call (vec_get (after_evals E s) (o_x s)),
                Update_call (vec_get (after_movelimit E lb_temp ub_temp m s) (o_x s))
                            (heap (after_movelimit E lb_temp ub_temp m s) (np_cons s))
                            (update_code E lb_temp ub_temp m m1 s)]"
  by (simp add: after_update_def after_movelimit_def after_evals_def update_code_eq
      calls_call_evalObjCon calls_call_evalObjConGrad)

subsection \<open>From the loop to the whole call\<close>

lemma loop_entry_fields [simp]:
  "fp (loop_entry E s) = fp s" "np_x (loop_entry E s) = np_x s" "np_lb (loop_entry E s) = np_lb s"
  "np_ub (loop_entry E s) = np_ub s" "np_g (loop_entry E s) = np_g s"
  "np_cons (loop_entry E s) = np_cons s" "np_gcon (loop_entry E s) = np_gcon s"
  "o_x (loop_entry E s) = o_x s" "o_g (loop_entry E s) = o_g s" "o_lb (loop_entry E s) = o_lb s"
  "o_ub (loop_entry E s) = o_ub s" "o_gcon (loop_entry E s) = o_gcon s"
  "files (loop_entry E s) = files s"
  "nblk (loop_entry E s) = Suc (Suc (nblk s))" "nvec (loop_entry E s) = Suc (Suc (nvec s))"
  "vecs (loop_entry E s) = (vecs s)
     (nvec s \<mapsto> \<lparr>v_lsize = get_num_vars_local E, v_gsize = get_num_vars E,
         v_type = Some VECMPI, v_array = Some (nblk s, 0), v_unplaced = None\<rparr>,
      Suc (nvec s) \<mapsto> \<lparr>v_lsize = get_num_vars_local E, v_gsize = get_num_vars E,
         v_type = Some VECMPI, v_array = Some (Suc (nblk s), 0), v_unplaced = None\<rparr>)"
  by (simp_all add: loop_entry_def Let_def)

lemma calls_loop_entry:
  "\<exists>xs. calls (loop_entry E s) = calls s @ [GetVarsAndBounds, MMA_ctor xs]"
  by (simp add: loop_entry_def Let_def)

lemma heap_loop_entry_x:
  assumes "np_x s < nblk s" "np_lb s \<noteq> np_x s" "np_ub s \<noteq> np_x s"
  shows "heap (loop_entry E s) (np_x s) =
     fst (fst (getVarsAndBounds E (prob s) (heap s (np_x s)) (heap s (np_lb s)) (heap s (np_ub s))))"
  using assms
  by (simp add: loop_entry_def Let_def init_bounds_loop_frame call_getVarsAndBounds_def split_beta)

lemma optimize_vecs:
  assumes "optimize E niter s = (Inr u, t)"
  shows "vecs t = (vecs s)(nvec s := None, Suc (nvec s) := None)
       \<and> vecs t (nvec s) = None \<and> vecs t (Suc (nvec s)) = None"
proof -
  from optimize_Inr [OF assms] obtain sL where
    loop: "optimize_loop E (nvec s) (Suc (nvec s)) niter 0
                 (MMA_new E (get_num_vars E) (get_num_cons E) (vec_get (loop_entry E s) (o_x s)))
                 (loop_entry E s) = (Inr (), sL)"
    and t: "t = sL\<lparr>ncall := Suc (Suc (ncall sL)),
                     vecs := (vecs sL)(nvec s := None, Suc (nvec s) := None)\<rparr>"
    by blast
  have "vecs sL = vecs (loop_entry E s)"
    using loop by (rule optimize_loop_vecs)
  then show ?thesis
    by (simp add: t)
qed

lemma optimize_log:
  assumes run: "optimize E niter s = (Inr u, t)" and name: "fp s = Some name"
  shows "\<exists>ps. files t = (files s)(name := files s name @ ps) \<and> map shape ps = log_shape 0 niter"
proof -
  from optimize_Inr [OF run] obtain sL where
    loop: "optimize_loop E (nvec s) (Suc (nvec s)) niter 0
                 (MMA_new E (get_num_vars E) (get_num_cons E) (vec_get (loop_entry E s) (o_x s)))
                 (loop_entry E s) = (Inr (), sL)"
    and t: "t = sL\<lparr>ncall := Suc (Suc (ncall sL)),
                     vecs := (vecs sL)(nvec s := None, Suc (nvec s) := None)\<rparr>"
    by blast
  from optimize_loop_Inr [OF loop] name obtain ps where
    "files sL = (files s)(name := files s name @ ps)" "map shape ps = log_shape 0 niter"
    by auto
  then show ?thesis by (auto simp: t)
qed

lemma calls_after_iteration:
  "\<exists>rest. calls (after_iteration E lb_temp ub_temp iter m m1 name s) =
     calls s @ EvalObjCon (heap s (np_x s)) # rest"
  by (simp add: after_iteration_def calls_after_update)

lemma optimize_loop_calls_grow:
  assumes "optimize_loop E lb_temp ub_temp niter iter m s = (Inr u, t)"
  shows "\<exists>rest. calls t = calls s @ rest"
  using assms
proof (induction E lb_temp ub_temp niter iter m s rule: optimize_loop.induct)
  case (1 E lb_temp ub_temp niter iter m s)
  show ?case
  proof (cases "iter < niter")
    case False
    with "1.prems" show ?thesis by (simp add: optimize_loop_done)
  next
    case True
    obtain r s' where it: "iteration E lb_temp ub_temp iter m s = (r, s')"
      by (cases "iteration E lb_temp ub_temp iter m s")
    from "1.prems" True it obtain m' where r: "r = Inr m'"
      and rest: "optimize_loop E lb_temp ub_temp niter (iter + 1) m' s' = (Inr u, t)"
      by (cases r) (simp_all add: optimize_loop_step)
    from iteration_Inr [OF it [unfolded r]]
    obtain m1 name where s': "s' = after_iteration E lb_temp ub_temp iter m m1 name s"
      by blast
    from "1.IH" [OF True it [unfolded r, symmetric] refl rest]
    obtain rest' where "calls t = calls s' @ rest'" by blast
    moreover have "\<exists>rest''. calls s' = calls s @ EvalObjCon (heap s (np_x s)) # rest''"
      unfolding s' by (rule calls_after_iteration)
    ultimately show ?thesis by auto
  qed
qed

lemma optimize_loop_first_call:
  assumes run: "optimize_loop E lb_temp ub_temp niter iter m s = (Inr u, t)" and "iter < niter"
  shows "\<exists>rest. calls t = calls s @ EvalObjCon (heap s (np_x s)) # rest"
proof -
  obtain r s' where it: "iteration E lb_temp ub_temp iter m s = (r, s')"
    by (cases "iteration E lb_temp ub_temp iter m s")
  from run assms(2) it obtain m' where r: "r = Inr m'"
    and rest: "optimize_loop E lb_temp ub_temp niter (iter + 1) m' s' = (Inr u, t)"
    by (cases r) (simp_all add: optimize_loop_step)
  from iteration_Inr [OF it [unfolded r]]
  obtain m1 name where s': "s' = after_iteration E lb_temp ub_temp iter m m1 name s"
    by blast
  from optimize_loop_calls_grow [OF rest] obtain rest' where "calls t = calls s' @ rest'" by blast
  moreover have "\<exists>rest''. calls s' = calls s @ EvalObjCon (heap s (np_x s)) # rest''"
    unfolding s' by (rule calls_after_iteration)
  ultimately show ?thesis by auto
qed

lemma optimize_first_evaluation:
  assumes wf: "np_x s < nblk s" "np_lb s \<noteq> np_x s" "np_ub s \<noteq> np_x s"
    and run: "optimize E niter s = (Inr u, t)" and pos: "0 < niter"
  shows "\<exists>xs rest. calls t = calls s @ GetVarsAndBounds # MMA_ctor xs #
     EvalObjCon (fst (fst (getVarsAndBounds E (prob s) (heap s (np_x s)) (heap s (np_lb s))
                              (heap s (np_ub s))))) # rest"
proof -
  from optimize_Inr [OF run] obtain sL where
    loop: "optimize_loop E (nvec s) (Suc (nvec s)) niter 0
                 (MMA_new E (get_num_vars E) (get_num_cons E) (vec_get (loop_entry E s) (o_x s)))
                 (loop_entry E s) = (Inr (), sL)"
    and t: "t = sL\<lparr>ncall := Suc (Suc (ncall sL)),
                     vecs := (vecs sL)(nvec s := None, Suc (nvec s) := None)\<rparr>"
    by blast
  from optimize_loop_first_call [OF loop pos] obtain rest where
    "calls sL = calls (loop_entry E s) @ EvalObjCon (heap (loop_entry E s) (np_x s)) # rest"
    by auto
  moreover obtain xs where "calls (loop_entry E s) = calls s @ [GetVarsAndBounds, MMA_ctor xs]"
    using calls_loop_entry by blast
  ultimately show ?thesis
    using wf by (simp add: t heap_loop_entry_x)
qed

subsection \<open>The constructed driver\<close>

lemma E_demo_simps [simp]:
  "petsc_rc E_demo = (\<lambda>_. 0)" "fopen_ok E_demo = (\<lambda>_. True)" "uninit E_demo = (\<lambda>_ _. Finite 0)"
  "get_num_vars E_demo = 2" "get_num_vars_local E_demo = 2" "get_num_cons E_demo = 1"
  "getVarsAndBounds E_demo = (\<lambda>p x lb ub.
       (([Finite (1 / 2), Finite (1 / 2)], [Finite 0, Finite 0], [Finite 1, Finite 1]), p))"
  "evalObjCon E_demo = (\<lambda>p x c. ((double_sum x, [double_add (double_sum x) (Finite (- 1))]), Suc p))"
  "evalObjConGrad E_demo = (\<lambda>p x g gc. ((map (\<lambda>_. Finite 1) x, map (\<lambda>_. Finite 1) x), p))"
  "MMA_new E_demo = (\<lambda>n m x. 0)"
  "SetOuterMovelimit E_demo = SetOuterMovelimit_finite"
  "Update E_demo = (\<lambda>m x g c gc lo hi. (0, map (\<lambda>v. double_add v (Finite (- 1 / 10))) x, Suc m))"
  "KKTresidual E_demo = (\<lambda>m x g c gc lo hi. (0, (Finite 0, Finite 0), m))"
  by (simp_all add: E_demo_def)

lemma E_update_fails_simps [simp]:
  "petsc_rc E_update_fails = (\<lambda>_. 0)"
  "SetOuterMovelimit E_update_fails = SetOuterMovelimit_finite"
  "Update E_update_fails = (\<lambda>m x g c gc lo hi. (1, x, m))"
  by (simp_all add: E_update_fails_def)

lemma E_movelimit_fails_simps [simp]:
  "petsc_rc E_movelimit_fails = (\<lambda>_. 0)"
  "SetOuterMovelimit E_movelimit_fails = (\<lambda>m lb ub f x lo hi. (1, (lo, hi), m))"
  by (simp_all add: E_movelimit_fails_def)

lemma E_nolog_simps [simp]:
  "petsc_rc E_nolog = (\<lambda>_. 0)" "fopen_ok E_nolog = (\<lambda>_. False)" "uninit E_nolog = (\<lambda>_ _. Finite 0)"
  "get_num_vars E_nolog = 2" "get_num_vars_local E_nolog = 2" "get_num_cons E_nolog = 1"
  by (simp_all add: E_nolog_def)

lemma bind_gcon_loop_done:
  "\<not> i < ncons \<Longrightarrow> bind_gcon_loop rc nvars nvars_l ncons gcon_data i offset s = (Inr (), s)"
  by (subst bind_gcon_loop.simps) simp

lemma bind_gcon_loop_step:
  "i < ncons \<Longrightarrow> bind_gcon_loop rc nvars nvars_l ncons gcon_data i offset s =
     (case bind_petsc_vec_to_array rc nvars nvars_l (gcon_data, nat offset) s of
              (Inl ierr, s') \<Rightarrow> (Inl ierr, s')
            | (Inr v, s') \<Rightarrow>
                bind_gcon_loop rc nvars nvars_l ncons gcon_data (i + 1) (offset + nvars_l)
                  (s'\<lparr>o_gcon := (o_gcon s')[nat i := v]\<rparr>))"
  by (subst bind_gcon_loop.simps) simp

lemmas ctor_simps = Optimizer_def S_init_def fopen_w_def ndarray_t_def PetscCallAbort_def bind_ok
     bind_gcon_loop_step bind_gcon_loop_done numeral_2_eq_2 upt_rec

lemma Optimizer_demo:
  "Optimizer E_demo ''mma.log'' S_init = (Inr (),
        \<lparr>fp = Some ''mma.log'', np_x = 0, np_lb = Suc 0, np_ub = Suc (Suc 0),
           np_g = Suc (Suc (Suc 0)), np_cons = Suc (Suc (Suc (Suc 0))),
           np_gcon = Suc (Suc (Suc (Suc (Suc 0)))), o_x = 0, o_g = Suc 0,
           o_lb = Suc (Suc 0), o_ub = Suc (Suc (Suc 0)),
           o_gcon = [Suc (Suc (Suc (Suc 0)))], o_obj = Finite 0,
           heap =
             (\<lambda>_. [])
             (0 := [Finite 0, Finite 0], Suc 0 := [Finite 0, Finite 0],
                Suc (Suc 0) := [Finite 0, Finite 0],
                Suc (Suc (Suc 0)) := [Finite 0, Finite 0],
                Suc (Suc (Suc (Suc 0))) := [Finite 0],
                Suc (Suc (Suc (Suc (Suc 0)))) := [Finite 0, Finite 0],
                Suc (Suc (Suc (Suc (Suc (Suc 0))))) := [Finite 0, Finite 0],
                Suc (Suc (Suc (Suc (Suc (Suc (Suc 0)))))) := [Finite 0, Finite 0],
                Suc (Suc (Suc (Suc (Suc (Suc (Suc (Suc 0))))))) := [Finite 0, Finite 0],
                Suc (Suc (Suc (Suc (Suc (Suc (Suc (Suc (Suc 0)))))))) := [Finite 0, Finite 0],
                Suc (Suc (Suc (Suc (Suc (Suc (Suc (Suc (Suc (Suc 0))))))))) := [Finite 0, Finite 0]),
           nblk = Suc (Suc (Suc (Suc (Suc (Suc (Suc (Suc (Suc (Suc (Suc 0)))))))))),
           vecs =
             [0 \<mapsto>
              \<lparr>v_lsize = 2, v_gsize = 2, v_type = Some VECMPI,
                 v_array = Some (0, 0),
                 v_unplaced = Some (Suc (Suc (Suc (Suc (Suc (Suc 0))))), 0)\<rparr>,
              Suc 0 \<mapsto>
              \<lparr>v_lsize = 2, v_gsize = 2, v_type = Some VECMPI,
                 v_array = Some (Suc (Suc (Suc 0)), 0),
                 v_unplaced = Some (Suc (Suc (Suc (Suc (Suc (Suc (Suc 0)))))), 0)\<rparr>,
              Suc (Suc 0) \<mapsto>
              \<lparr>v_lsize = 2, v_gsize = 2, v_type = Some VECMPI,
                 v_array = Some (Suc 0, 0),
                 v_unplaced = Some (Suc (Suc (Suc (Suc (Suc (Suc (Suc (Suc 0))))))), 0)\<rparr>,
              Suc (Suc (Suc 0)) \<mapsto>
              \<lparr>v_lsize = 2, v_gsize = 2, v_type = Some VECMPI,
                 v_array = Some (Suc (Suc 0), 0),
                 v_unplaced = Some (Suc (Suc (Suc (Suc (Suc (Suc (Suc (Suc (Suc 0)))))))), 0)\<rparr>,
              Suc (Suc (Suc (Suc 0))) \<mapsto>
              \<lparr>v_lsize = 2, v_gsize = 2, v_type = Some VECMPI,
                 v_array = Some (Suc (Suc (Suc (Suc (Suc 0)))), 0),
                 v_unplaced = Some (Suc (Suc (Suc (Suc (Suc (Suc (Suc (Suc (Suc (Suc 0))))))))), 0)\<rparr>],
           nvec = Suc (Suc (Suc (Suc (Suc 0)))),
           ncall = Suc (Suc (Suc (Suc (Suc (Suc (Suc (Suc (Suc (Suc (Suc (Suc (Suc (Suc (Suc
                     (Suc (Suc (Suc (Suc (Suc 0))))))))))))))))))),
           files = (\<lambda>_. [])(''mma.log'' := []), prob = 0, calls = []\<rparr>)"
  by (simp add: ctor_simps)

lemma S_ready_fields [simp]:
  "fp S_ready = Some ''mma.log''" "np_x S_ready = 0" "np_lb S_ready = 1" "np_ub S_ready = 2"
  "np_g S_ready = 3" "np_cons S_ready = 4" "np_gcon S_ready = 5"
  "o_x S_ready = 0" "o_g S_ready = 1" "o_lb S_ready = 2" "o_ub S_ready = 3" "o_gcon S_ready = [4]"
  "nblk S_ready = 11" "nvec S_ready = 5" "calls S_ready = []"
  "files S_ready ''mma.log'' = []"
  "heap S_ready 0 = [Finite 0, Finite 0]"
  "vecs S_ready 0 = Some \<lparr>v_lsize = 2, v_gsize = 2, v_type = Some VECMPI,
                 v_array = Some (0, 0), v_unplaced = Some (6, 0)\<rparr>"
  "vecs S_ready (Suc 0) = Some \<lparr>v_lsize = 2, v_gsize = 2, v_type = Some VECMPI,
                 v_array = Some (3, 0), v_unplaced = Some (7, 0)\<rparr>"
  "vecs S_ready 2 = Some \<lparr>v_lsize = 2, v_gsize = 2, v_type = Some VECMPI,
                 v_array = Some (1, 0), v_unplaced = Some (8, 0)\<rparr>"
  "vecs S_ready 3 = Some \<lparr>v_lsize = 2, v_gsize = 2, v_type = Some VECMPI,
                 v_array = Some (2, 0), v_unplaced = Some (9, 0)\<rparr>"
  "vecs S_ready 4 = Some \<lparr>v_lsize = 2, v_gsize = 2, v_type = Some VECMPI,
                 v_array = Some (5, 0), v_unplaced = Some (10, 0)\<rparr>"
  by (simp_all add: S_ready_def Optimizer_demo eval_nat_numeral)

lemma demo_ok:
  "\<exists>t. optimize E_demo niter S_ready = (Inr (), t)"
  by (rule optimize_ok [where name = "''mma.log''"]) (simp_all add: SetOuterMovelimit_finite_def SetOuterMovelimit_spec_def)

lemma demo_run: "optimize E_demo niter S_ready = (Inr (), snd (optimize E_demo niter S_ready))"
  using demo_ok [of niter] by auto

lemma log_shape_3:
  "log_shape 0 3 = [(header_format, [S ''iter'']), (row_format, [I 0]), (row_format, [I 1]),
                    (row_format, [I 2])]"
  by (simp add: log_shape_step log_shape_done)

lemma update_codes_append: "update_codes (xs @ ys) = update_codes xs @ update_codes ys"
  by (induction xs rule: update_codes.induct) simp_all

lemma update_codes_after_iteration:
  "\<exists>rest. calls (after_iteration E lb_temp ub_temp iter m m1 name s) = calls s @ rest
     \<and> update_codes rest = [update_code E lb_temp ub_temp m m1 s]"
  by (simp add: after_iteration_def calls_after_update)

lemma optimize_loop_update_codes:
  assumes "optimize_loop E lb_temp ub_temp niter iter m s = (Inr u, t)"
    and "\<And>m x g c gc lo hi. fst (Update E m x g c gc lo hi) = code"
  shows "\<exists>rest. calls t = calls s @ rest \<and> update_codes rest = replicate (nat (niter - iter)) code"
  using assms
proof (induction E lb_temp ub_temp niter iter m s rule: optimize_loop.induct)
  case (1 E lb_temp ub_temp niter iter m s)
  show ?case
  proof (cases "iter < niter")
    case False
    with "1.prems" show ?thesis by (simp add: optimize_loop_done)
  next
    case True
    obtain r s' where it: "iteration E lb_temp ub_temp iter m s = (r, s')"
      by (cases "iteration E lb_temp ub_temp iter m s")
    from "1.prems" True it obtain m' where r: "r = Inr m'"
      and rest: "optimize_loop E lb_temp ub_temp niter (iter + 1) m' s' = (Inr u, t)"
      by (cases r) (simp_all add: optimize_loop_step)
    from iteration_Inr [OF it [unfolded r]]
    obtain m1 name where s': "s' = after_iteration E lb_temp ub_temp iter m m1 name s"
      by blast
    from "1.IH" [OF True it [unfolded r, symmetric] refl rest "1.prems"(2)]
    obtain rest' where a: "calls t = calls s' @ rest'"
      "update_codes rest' = replicate (nat (niter - (iter + 1))) code" by blast
    have "\<exists>rest''. calls s' = calls s @ rest''
        \<and> update_codes rest'' = [update_code E lb_temp ub_temp m m1 s]"
      unfolding s' by (rule update_codes_after_iteration)
    then obtain rest'' where b: "calls s' = calls s @ rest''"
      "update_codes rest'' = [update_code E lb_temp ub_temp m m1 s]"
      by blast
    have c: "update_code E lb_temp ub_temp m m1 s = code"
      by (simp add: update_code_eq "1.prems"(2))
    have "nat (niter - iter) = Suc (nat (niter - (iter + 1)))"
      using True by simp
    then have "update_codes (rest'' @ rest') = replicate (nat (niter - iter)) code"
      by (simp add: update_codes_append a b c)
    then show ?thesis using a b by auto
  qed
qed

lemma optimize_update_codes:
  assumes run: "optimize E niter s = (Inr u, t)"
    and code: "\<And>m x g c gc lo hi. fst (Update E m x g c gc lo hi) = code"
  shows "update_codes (calls t) = update_codes (calls s) @ replicate (nat niter) code"
proof -
  from optimize_Inr [OF run] obtain sL where
    loop: "optimize_loop E (nvec s) (Suc (nvec s)) niter 0
                 (MMA_new E (get_num_vars E) (get_num_cons E) (vec_get (loop_entry E s) (o_x s)))
                 (loop_entry E s) = (Inr (), sL)"
    and t: "t = sL\<lparr>ncall := Suc (Suc (ncall sL)),
                     vecs := (vecs sL)(nvec s := None, Suc (nvec s) := None)\<rparr>"
    by blast
  from optimize_loop_update_codes [OF loop code] obtain rest where
    "calls sL = calls (loop_entry E s) @ rest" "update_codes rest = replicate (nat niter) code"
    by auto
  moreover obtain xs where "calls (loop_entry E s) = calls s @ [GetVarsAndBounds, MMA_ctor xs]"
    using calls_loop_entry by blast
  ultimately show ?thesis
    by (simp add: t update_codes_append)
qed

lemma update_fails_ok:
  "\<exists>t. optimize E_update_fails niter S_ready = (Inr (), t)"
  by (rule optimize_ok [where name = "''mma.log''"]) (simp_all add: SetOuterMovelimit_finite_def SetOuterMovelimit_spec_def)

lemma after_movelimit_fields [simp]:
  "vecs (after_movelimit E lb_temp ub_temp m s) = vecs s"
  "fp (after_movelimit E lb_temp ub_temp m s) = fp s"
  "o_x (after_movelimit E lb_temp ub_temp m s) = o_x s"
  "np_x (after_movelimit E lb_temp ub_temp m s) = np_x s"
  "np_cons (after_movelimit E lb_temp ub_temp m s) = np_cons s"
  by (simp_all add: after_movelimit_def after_evals_def)

lemma iteration_movelimit_failure:
  assumes ml: "\<And>m a b f x lo hi. fst (SetOuterMovelimit E m a b f x lo hi) = c" and c: "c \<noteq> 0"
  shows "iteration E lb_temp ub_temp iter m s = (Inl c, after_movelimit E lb_temp ub_temp m s)"
proof -
  have "mma_SetOuterMovelimit E m (o_lb s) (o_ub s) movelim (o_x s) lb_temp ub_temp (after_evals E s)
      = (Inl c, after_movelimit E lb_temp ub_temp m s)"
    using c by (simp add: mma_SetOuterMovelimit_def split_beta after_movelimit_def ml)
  then show ?thesis
    by (simp add: iteration_def Let_def PetscCall_def after_evals_def)
qed

lemma optimize_movelimit_failure:
  assumes rc: "\<And>k. petsc_rc E k = 0"
    and ml: "\<And>m a b f x lo hi. fst (SetOuterMovelimit E m a b f x lo hi) = c" and c: "c \<noteq> 0"
    and pos: "0 < niter"
  shows "\<exists>t. optimize E niter s = (Inl c, t) \<and> vecs t (nvec s) \<noteq> None
     \<and> vecs t (Suc (nvec s)) \<noteq> None"
proof -
  have loop: "optimize_loop E lb_temp ub_temp niter 0 m s' =
      (Inl c, after_movelimit E lb_temp ub_temp m s')" for lb_temp ub_temp m s'
    using pos by (simp add: optimize_loop_step iteration_movelimit_failure [OF ml c])
  obtain r t where run: "optimize E niter s = (r, t)"
    by (cases "optimize E niter s")
  from run have "r = Inl c \<and> vecs t (nvec s) \<noteq> None \<and> vecs t (Suc (nvec s)) \<noteq> None"
    unfolding optimize_def Let_def
    apply (elim PetscCall_cases)
    using rc
    apply (auto dest!: allocate_Inl_cause VecGetArray_Inl_cause VecRestoreArray_Inl_cause
          simp: allocate_Inr VecGetArray_Inr VecRestoreArray_Inr loop split: if_splits)
    done
  with run show ?thesis by blast
qed

lemma row_conversions:
  "conversions row_format =
     [Conv 6 None CHR ''d'', Conv 20 (Some 10) CHR ''e'', Conv 20 (Some 10) CHR ''e'',
      Conv 20 (Some 10) CHR ''e'', Conv 20 (Some 10) CHR ''e'', Conv 20 (Some 10) CHR ''e'']"
  by (simp add: conversions_def row_format_def)

lemma optimize_fields:
  assumes run: "optimize E niter s = (Inr u, t)"
  shows "fp t = fp s" "np_x t = np_x s" "np_lb t = np_lb s" "np_ub t = np_ub s" "o_x t = o_x s"
    "nblk t = Suc (Suc (nblk s))"
proof -
  from optimize_Inr [OF run] obtain sL where
    loop: "optimize_loop E (nvec s) (Suc (nvec s)) niter 0
                 (MMA_new E (get_num_vars E) (get_num_cons E) (vec_get (loop_entry E s) (o_x s)))
                 (loop_entry E s) = (Inr (), sL)"
    and t: "t = sL\<lparr>ncall := Suc (Suc (ncall sL)),
                     vecs := (vecs sL)(nvec s := None, Suc (nvec s) := None)\<rparr>"
    by blast
  from optimize_loop_Inr [OF loop]
  show "fp t = fp s" "np_x t = np_x s" "np_lb t = np_lb s" "np_ub t = np_ub s" "o_x t = o_x s"
    "nblk t = Suc (Suc (nblk s))"
    by (simp_all add: t)
qed

lemma optimize_one_iteration:
  assumes run: "optimize E 1 s = (Inr u, t)"
  shows "\<exists>m1. heap t =
     heap (after_update E (nvec s) (Suc (nvec s))
            (MMA_new E (get_num_vars E) (get_num_cons E) (vec_get (loop_entry E s) (o_x s))) m1
            (loop_entry E s))"
proof -
  let ?m0 = "MMA_new E (get_num_vars E) (get_num_cons E) (vec_get (loop_entry E s) (o_x s))"
  from optimize_Inr [OF run] obtain sL where
    loop: "optimize_loop E (nvec s) (Suc (nvec s)) 1 0 ?m0 (loop_entry E s) = (Inr (), sL)"
    and t: "t = sL\<lparr>ncall := Suc (Suc (ncall sL)),
                     vecs := (vecs sL)(nvec s := None, Suc (nvec s) := None)\<rparr>"
    by blast
  obtain r s' where it: "iteration E (nvec s) (Suc (nvec s)) 0 ?m0 (loop_entry E s) = (r, s')"
    by (cases "iteration E (nvec s) (Suc (nvec s)) 0 ?m0 (loop_entry E s)")
  from loop it obtain m' where r: "r = Inr m'" and sL: "sL = s'"
    by (cases r) (simp_all add: optimize_loop_step optimize_loop_done)
  from iteration_Inr [OF it [unfolded r]]
  obtain m1 name where "s' = after_iteration E (nvec s) (Suc (nvec s)) 0 ?m0 m1 name (loop_entry E s)"
    by blast
  then show ?thesis
    by (auto simp: t sL after_iteration_def)
qed

lemma entry_demo [simp]:
  "heap (loop_entry E_demo S_ready) 0 = [Finite (1 / 2), Finite (1 / 2)]"
  "vecs (loop_entry E_demo S_ready) 0 = Some \<lparr>v_lsize = 2, v_gsize = 2, v_type = Some VECMPI,
                 v_array = Some (0, 0), v_unplaced = Some (6, 0)\<rparr>"
  "vec_block (loop_entry E_demo S_ready) 0 = Some 0"
  "vec_block (loop_entry E_demo S_ready) 5 = Some 11"
  "vec_block (loop_entry E_demo S_ready) 6 = Some 12"
  using heap_loop_entry_x [of S_ready E_demo]
  by (simp_all add: vec_block_def eval_nat_numeral)

lemma x_after_movelimit_demo:
  "heap (after_movelimit E_demo 5 6 m (loop_entry E_demo S_ready)) 0 = [Finite (1 / 2), Finite (1 / 2)]"
proof -
  have "heap (after_evals E_demo (loop_entry E_demo S_ready)) 0 = [Finite (1 / 2), Finite (1 / 2)]"
    by (simp add: after_evals_def heap_call_evalObjConGrad heap_call_evalObjCon)
  then show ?thesis
    by (simp add: after_movelimit_def heap_mma_SetOuterMovelimit_other)
qed

lemma x_after_update_demo:
  "heap (after_update E_demo 5 6 m m1 (loop_entry E_demo S_ready)) 0 = [Finite (2 / 5), Finite (2 / 5)]"
  by (simp add: after_update_def mma_Update_def vec_put_def vec_get_def load_def store_def
      x_after_movelimit_demo)

subsection \<open>Whatever the outcome\<close>

text \<open>The calls after the update of an iteration change the count of PETSc calls and the
  files only.\<close>

lemma log_only_PetscCall:
  assumes "PetscCall f g s = (r, t)"
    and "\<And>r' t'. f s = (r', t') \<Longrightarrow> \<exists>n fl. t' = s\<lparr>ncall := n, files := fl\<rparr>"
    and "\<And>a s' r' t'. g a s' = (r', t') \<Longrightarrow> \<exists>n fl. t' = s'\<lparr>ncall := n, files := fl\<rparr>"
  shows "\<exists>n fl. t = s\<lparr>ncall := n, files := fl\<rparr>"
  using assms(1)
proof (rule PetscCall_cases)
  fix e assume "f s = (Inl e, t)"
  then show ?thesis by (rule assms(2))
next
  fix a s' assume f: "f s = (Inr a, s')" and g: "g a s' = (r, t)"
  from assms(2) [OF f] obtain n fl where "s' = s\<lparr>ncall := n, files := fl\<rparr>" by blast
  moreover from assms(3) [OF g] obtain n' fl' where "t = s'\<lparr>ncall := n', files := fl'\<rparr>" by blast
  ultimately have "t = s\<lparr>ncall := n', files := fl'\<rparr>" by simp
  then show ?thesis by blast
qed

lemma log_only_ncall: "\<exists>n fl. s\<lparr>ncall := k\<rparr> = s\<lparr>ncall := n, files := fl\<rparr>"
  by (rule exI [of _ k], rule exI [of _ "files s"]) simp

lemma log_only_refl: "\<exists>n fl. s = s\<lparr>ncall := n, files := fl\<rparr>"
  by (rule exI [of _ "ncall s"], rule exI [of _ "files s"]) simp

lemma VecNorm_1_log_only:
  "VecNorm_1 rc x s = (r, t) \<Longrightarrow> \<exists>n fl. t = s\<lparr>ncall := n, files := fl\<rparr>"
  by (cases r) (auto simp: VecNorm_1_def on_vec_Inl on_vec_Inr log_only_ncall)

lemma PetscFPrintf_log_only:
  "PetscFPrintf rc stream format args s = (r, t) \<Longrightarrow> \<exists>n fl. t = s\<lparr>ncall := n, files := fl\<rparr>"
  by (cases r)
     (auto simp: PetscFPrintf_def PetscCall_Inl_iff PetscCall_Inr_iff library_call_Inl
        library_call_Inr log_only_ncall split: option.splits)

lemma Return_log_only: "Return a s = (r, t) \<Longrightarrow> \<exists>n fl. t = s\<lparr>ncall := n, files := fl\<rparr>"
  by (simp add: log_only_refl)

lemma tail_log_only:
  assumes "PetscCall (VecNorm_1 rc x) (\<lambda>x_l1 s6.
             PetscCall (if c then PetscFPrintf rc (fp s6) hf ha else Return ()) (\<lambda>_.
               PetscCall (PetscFPrintf rc (fp s6) rf (args x_l1 s6)) (\<lambda>_. Return m3)) s6) s5
           = (r, t)"
  shows "\<exists>n fl. t = s5\<lparr>ncall := n, files := fl\<rparr>"
  using assms
proof (rule log_only_PetscCall)
  fix r' t' assume "VecNorm_1 rc x s5 = (r', t')"
  then show "\<exists>n fl. t' = s5\<lparr>ncall := n, files := fl\<rparr>" by (rule VecNorm_1_log_only)
next
  fix a s' r' t'
  assume "PetscCall (if c then PetscFPrintf rc (fp s') hf ha else Return ()) (\<lambda>_.
               PetscCall (PetscFPrintf rc (fp s') rf (args a s')) (\<lambda>_. Return m3)) s' = (r', t')"
  then show "\<exists>n fl. t' = s'\<lparr>ncall := n, files := fl\<rparr>"
  proof (rule log_only_PetscCall)
    fix r'' t'' assume "(if c then PetscFPrintf rc (fp s') hf ha else Return ()) s' = (r'', t'')"
    then show "\<exists>n fl. t'' = s'\<lparr>ncall := n, files := fl\<rparr>"
      by (cases c) (auto dest: PetscFPrintf_log_only simp: log_only_refl)
  next
    fix u s'' r'' t''
    assume "PetscCall (PetscFPrintf rc (fp s') rf (args a s')) (\<lambda>_. Return m3) s'' = (r'', t'')"
    then show "\<exists>n fl. t'' = s''\<lparr>ncall := n, files := fl\<rparr>"
      by (rule log_only_PetscCall) (erule PetscFPrintf_log_only, erule Return_log_only)
  qed
qed

lemma iteration_shape:
  assumes it: "iteration E lb_temp ub_temp iter m s = (r, t)"
  shows "t = after_movelimit E lb_temp ub_temp m s
    \<or> (\<exists>m1 n fl. t = (after_update E lb_temp ub_temp m m1 s)
          \<lparr>calls := calls (after_update E lb_temp ub_temp m m1 s) @
             [KKTresidual_call (vec_get (after_update E lb_temp ub_temp m m1 s) (o_x s))
                (heap (after_update E lb_temp ub_temp m m1 s) (np_cons s))],
           ncall := n, files := fl\<rparr>)"
  using it unfolding iteration_def Let_def
proof (rule PetscCall_cases)
  fix e
  assume "mma_SetOuterMovelimit E m (o_lb (call_evalObjConGrad E (call_evalObjCon E s)))
     (o_ub (call_evalObjConGrad E (call_evalObjCon E s))) movelim
     (o_x (call_evalObjConGrad E (call_evalObjCon E s))) lb_temp ub_temp
     (call_evalObjConGrad E (call_evalObjCon E s)) = (Inl e, t)"
  then have "t = after_movelimit E lb_temp ub_temp m s"
    by (simp add: after_movelimit_def after_evals_def)
  then show ?thesis by blast
next
  fix m1 s3
  let ?s3 = "after_movelimit E lb_temp ub_temp m s"
  let ?s4 = "after_update E lb_temp ub_temp m m1 s"
  assume A: "mma_SetOuterMovelimit E m (o_lb (call_evalObjConGrad E (call_evalObjCon E s)))
     (o_ub (call_evalObjConGrad E (call_evalObjCon E s))) movelim
     (o_x (call_evalObjConGrad E (call_evalObjCon E s))) lb_temp ub_temp
     (call_evalObjConGrad E (call_evalObjCon E s)) = (Inr m1, s3)"
    and B: "(case mma_Update E m1 (o_x s3) (o_g s3) (np_cons s3) (o_gcon s3) lb_temp ub_temp s3 of
               (ierr_update, m2, s4) \<Rightarrow>
             case mma_KKTresidual E m2 (o_x s4) (o_g s4) (np_cons s4) (o_gcon s4) lb_temp ub_temp s4 of
               (ierr_kkt, (kkterr_l2, kkterr_linf), m3, s5) \<Rightarrow>
             PetscCall (VecNorm_1 (petsc_rc E) (o_x s5)) (\<lambda>x_l1 s6.
               PetscCall (if iter mod 10 = 0
                             then PetscFPrintf (petsc_rc E) (fp s6) header_format header_args
                             else Return ()) (\<lambda>_.
                  PetscCall (PetscFPrintf (petsc_rc E) (fp s6) row_format
                               [I iter, D (o_obj s6), D kkterr_l2, D kkterr_linf, D x_l1,
                                D (max_violation (heap s6 (np_cons s6)) (get_num_cons E))]) (\<lambda>_.
                  Return m3)) s6) s5) = (r, t)"
  have s3: "s3 = ?s3"
    using A by (simp add: after_movelimit_def after_evals_def)
  have f3: "o_x ?s3 = o_x s" "o_g ?s3 = o_g s" "np_cons ?s3 = np_cons s" "o_gcon ?s3 = o_gcon s"
    by (simp_all add: after_movelimit_def after_evals_def)
  have f4: "o_x ?s4 = o_x s" "o_g ?s4 = o_g s" "np_cons ?s4 = np_cons s" "o_gcon ?s4 = o_gcon s"
    by (simp_all add: after_update_def after_movelimit_def after_evals_def)
  obtain ierr m2 s4 where
    U: "mma_Update E m1 (o_x s3) (o_g s3) (np_cons s3) (o_gcon s3) lb_temp ub_temp s3 = (ierr, m2, s4)"
    by (cases "mma_Update E m1 (o_x s3) (o_g s3) (np_cons s3) (o_gcon s3) lb_temp ub_temp s3")
  obtain ik l2 linf m3 s5 where
    K: "mma_KKTresidual E m2 (o_x s4) (o_g s4) (np_cons s4) (o_gcon s4) lb_temp ub_temp s4 =
          (ik, (l2, linf), m3, s5)"
    by (cases "mma_KKTresidual E m2 (o_x s4) (o_g s4) (np_cons s4) (o_gcon s4) lb_temp ub_temp s4")
       auto
  have s4: "s4 = ?s4"
    using U by (simp add: s3 f3 after_update_def)
  have s5: "s5 = ?s4\<lparr>calls := calls ?s4 @
             [KKTresidual_call (vec_get ?s4 (o_x s)) (heap ?s4 (np_cons s))]\<rparr>"
    using K mma_KKTresidual_state [of E m2 "o_x s4" "o_g s4" "np_cons s4" "o_gcon s4" lb_temp ub_temp s4]
    by (simp add: s4 f4)
  from B [unfolded U prod.case K] have "\<exists>n fl. t = s5\<lparr>ncall := n, files := fl\<rparr>"
    by (rule tail_log_only)
  then show ?thesis
    unfolding s5 by blast
qed


lemma heap_after_evals_other:
  "b \<noteq> np_cons s \<Longrightarrow> b \<noteq> np_g s \<Longrightarrow> b \<noteq> np_gcon s \<Longrightarrow> heap (after_evals E s) b = heap s b"
  by (simp add: after_evals_def heap_call_evalObjConGrad heap_call_evalObjCon)

lemma heap_after_movelimit_other:
  assumes "b \<noteq> np_cons s" "b \<noteq> np_g s" "b \<noteq> np_gcon s"
    "vec_block s lb_temp \<noteq> Some b" "vec_block s ub_temp \<noteq> Some b"
  shows "heap (after_movelimit E lb_temp ub_temp m s) b = heap s b"
  using assms
  by (simp add: after_movelimit_def heap_mma_SetOuterMovelimit_other heap_after_evals_other)

lemma heap_after_update_other:
  assumes "b \<noteq> np_cons s" "b \<noteq> np_g s" "b \<noteq> np_gcon s"
    "vec_block s lb_temp \<noteq> Some b" "vec_block s ub_temp \<noteq> Some b"
    "vec_block s (o_x s) \<noteq> Some b"
  shows "heap (after_update E lb_temp ub_temp m m1 s) b = heap s b"
  using assms
  by (simp add: after_update_def heap_mma_Update_other heap_after_movelimit_other)

lemma calls_after_movelimit:
  "calls (after_movelimit E lb_temp ub_temp m s) =
     calls s @ [EvalObjCon (heap s (np_x s)),
                EvalObjConGrad (heap (call_evalObjCon E s) (np_x s)),
                SetOuterMovelimit_call (vec_get (after_evals E s) (o_x s))]"
  by (simp add: after_movelimit_def after_evals_def calls_call_evalObjCon calls_call_evalObjConGrad)

lemma after_update_fields [simp]:
  "vecs (after_update E lb_temp ub_temp m m1 s) = vecs s"
  "np_x (after_update E lb_temp ub_temp m m1 s) = np_x s"
  "np_lb (after_update E lb_temp ub_temp m m1 s) = np_lb s"
  "np_ub (after_update E lb_temp ub_temp m m1 s) = np_ub s"
  "np_g (after_update E lb_temp ub_temp m m1 s) = np_g s"
  "np_cons (after_update E lb_temp ub_temp m m1 s) = np_cons s"
  "np_gcon (after_update E lb_temp ub_temp m m1 s) = np_gcon s"
  "o_x (after_update E lb_temp ub_temp m m1 s) = o_x s"
  "fp (after_update E lb_temp ub_temp m m1 s) = fp s"
  by (simp_all add: after_update_def after_movelimit_def after_evals_def)

lemma after_movelimit_more_fields [simp]:
  "np_lb (after_movelimit E lb_temp ub_temp m s) = np_lb s"
  "np_ub (after_movelimit E lb_temp ub_temp m s) = np_ub s"
  "np_g (after_movelimit E lb_temp ub_temp m s) = np_g s"
  "np_gcon (after_movelimit E lb_temp ub_temp m s) = np_gcon s"
  by (simp_all add: after_movelimit_def after_evals_def)

lemma vec_block_cong: "vecs t = vecs s \<Longrightarrow> vec_block t x = vec_block s x"
  by (simp add: vec_block_def)

lemma vec_get_heap_cong:
  "vecs t = vecs s \<Longrightarrow> (\<And>b. vec_block s y = Some b \<Longrightarrow> heap t b = heap s b) \<Longrightarrow>
     vec_get t y = vec_get s y"
  by (auto simp: vec_get_def vec_block_def load_def split: option.splits)

lemma vec_get_after_evals_other:
  assumes "vec_block s y \<notin> {Some (np_g s), Some (np_cons s), Some (np_gcon s)}"
  shows "vec_get (after_evals E s) y = vec_get s y"
proof (rule vec_get_heap_cong)
  show "vecs (after_evals E s) = vecs s" by (simp add: after_evals_def)
next
  fix b assume "vec_block s y = Some b"
  with assms show "heap (after_evals E s) b = heap s b"
    by (intro heap_after_evals_other) auto
qed

lemma vec_get_vec_put_other:
  "vec_block s x = Some b \<Longrightarrow> vec_block s y \<noteq> Some b \<Longrightarrow> vec_get (vec_put x vs s) y = vec_get s y"
  by (auto simp: vec_get_def vec_put_def vec_block_def load_def store_other split: option.splits)

text \<open>What an iteration leaves, whatever its outcome.\<close>

lemma iteration_any:
  assumes it: "iteration E lb_temp ub_temp iter m s = (r, t)"
  shows "vecs t = vecs s" "np_x t = np_x s" "np_lb t = np_lb s" "np_ub t = np_ub s"
    "np_g t = np_g s" "np_cons t = np_cons s" "np_gcon t = np_gcon s" "o_x t = o_x s"
    "fp t = fp s"
    "\<exists>rest. calls t = calls s @ EvalObjCon (heap s (np_x s)) # rest"
    "b \<noteq> np_cons s \<Longrightarrow> b \<noteq> np_g s \<Longrightarrow> b \<noteq> np_gcon s \<Longrightarrow> vec_block s lb_temp \<noteq> Some b \<Longrightarrow>
       vec_block s ub_temp \<noteq> Some b \<Longrightarrow> vec_block s (o_x s) \<noteq> Some b \<Longrightarrow> heap t b = heap s b"
proof -
  from iteration_shape [OF it] consider
    (ml) "t = after_movelimit E lb_temp ub_temp m s"
    | (up) m1 n fl where "t = (after_update E lb_temp ub_temp m m1 s)
          \<lparr>calls := calls (after_update E lb_temp ub_temp m m1 s) @
             [KKTresidual_call (vec_get (after_update E lb_temp ub_temp m m1 s) (o_x s))
                (heap (after_update E lb_temp ub_temp m m1 s) (np_cons s))],
           ncall := n, files := fl\<rparr>"
    by blast
  then have "vecs t = vecs s \<and> np_x t = np_x s \<and> np_lb t = np_lb s \<and> np_ub t = np_ub s
    \<and> np_g t = np_g s \<and> np_cons t = np_cons s \<and> np_gcon t = np_gcon s \<and> o_x t = o_x s
    \<and> fp t = fp s
    \<and> (\<exists>rest. calls t = calls s @ EvalObjCon (heap s (np_x s)) # rest)
    \<and> (b \<noteq> np_cons s \<longrightarrow> b \<noteq> np_g s \<longrightarrow> b \<noteq> np_gcon s \<longrightarrow> vec_block s lb_temp \<noteq> Some b \<longrightarrow>
       vec_block s ub_temp \<noteq> Some b \<longrightarrow> vec_block s (o_x s) \<noteq> Some b \<longrightarrow> heap t b = heap s b)"
  proof cases
    case ml
    then show ?thesis
      by (simp add: calls_after_movelimit heap_after_movelimit_other)
  next
    case up
    then show ?thesis
      by (simp add: calls_after_update heap_after_update_other)
  qed
  then show "vecs t = vecs s" "np_x t = np_x s" "np_lb t = np_lb s" "np_ub t = np_ub s"
    "np_g t = np_g s" "np_cons t = np_cons s" "np_gcon t = np_gcon s" "o_x t = o_x s"
    "fp t = fp s"
    "\<exists>rest. calls t = calls s @ EvalObjCon (heap s (np_x s)) # rest"
    "b \<noteq> np_cons s \<Longrightarrow> b \<noteq> np_g s \<Longrightarrow> b \<noteq> np_gcon s \<Longrightarrow> vec_block s lb_temp \<noteq> Some b \<Longrightarrow>
       vec_block s ub_temp \<noteq> Some b \<Longrightarrow> vec_block s (o_x s) \<noteq> Some b \<Longrightarrow> heap t b = heap s b"
    by blast+
qed

text \<open>What the loop leaves, whatever its outcome.\<close>

lemma optimize_loop_any:
  assumes "optimize_loop E lb_temp ub_temp niter iter m s = (r, t)"
  shows "np_x t = np_x s \<and> np_lb t = np_lb s \<and> np_ub t = np_ub s
    \<and> (\<exists>rest. calls t = calls s @ rest
          \<and> (if iter < niter then \<exists>rest'. rest = EvalObjCon (heap s (np_x s)) # rest'
              else rest = [] \<and> heap t = heap s))
    \<and> (b \<noteq> np_cons s \<longrightarrow> b \<noteq> np_g s \<longrightarrow> b \<noteq> np_gcon s \<longrightarrow> vec_block s lb_temp \<noteq> Some b \<longrightarrow>
         vec_block s ub_temp \<noteq> Some b \<longrightarrow> vec_block s (o_x s) \<noteq> Some b \<longrightarrow> heap t b = heap s b)"
  using assms
proof (induction E lb_temp ub_temp niter iter m s rule: optimize_loop.induct)
  case (1 E lb_temp ub_temp niter iter m s)
  show ?case
  proof (cases "iter < niter")
    case False
    with "1.prems" show ?thesis by (simp add: optimize_loop_done)
  next
    case True
    obtain r' s' where it: "iteration E lb_temp ub_temp iter m s = (r', s')"
      by (cases "iteration E lb_temp ub_temp iter m s")
    note a = iteration_any [OF it]
    have vb: "vec_block s' x = vec_block s x" for x
      using a(1) by (rule vec_block_cong)
    from a(10) obtain rest1 where c1: "calls s' = calls s @ EvalObjCon (heap s (np_x s)) # rest1"
      by blast
    show ?thesis
    proof (cases r')
      case (Inl e)
      with "1.prems" True it have "t = s'" by (simp add: optimize_loop_step)
      then show ?thesis
        using True a(2-4) c1 a(11) [of b] by auto
    next
      case (Inr m')
      with "1.prems" True it
      have rest: "optimize_loop E lb_temp ub_temp niter (iter + 1) m' s' = (r, t)"
        by (simp add: optimize_loop_step)
      from "1.IH" [OF True it [unfolded Inr, symmetric] refl rest]
      have ih: "np_x t = np_x s'" "np_lb t = np_lb s'" "np_ub t = np_ub s'"
        "\<exists>rest. calls t = calls s' @ rest"
        "b \<noteq> np_cons s' \<longrightarrow> b \<noteq> np_g s' \<longrightarrow> b \<noteq> np_gcon s' \<longrightarrow> vec_block s' lb_temp \<noteq> Some b \<longrightarrow>
         vec_block s' ub_temp \<noteq> Some b \<longrightarrow> vec_block s' (o_x s') \<noteq> Some b \<longrightarrow> heap t b = heap s' b"
        by blast+
      from ih(4) obtain rest2 where c2: "calls t = calls s' @ rest2" by blast
      have "calls t = calls s @ EvalObjCon (heap s (np_x s)) # (rest1 @ rest2)"
        by (simp add: c1 c2)
      then show ?thesis
        using True ih(1-3) ih(5) a(2-8) a(11) [of b] by (auto simp: vb)
    qed
  qed
qed


lemma heap_loop_entry_old:
  "b < nblk s \<Longrightarrow> heap (loop_entry E s) b = heap (call_getVarsAndBounds E s) b"
  by (simp add: loop_entry_def Let_def init_bounds_loop_frame)

lemma heap_call_getVarsAndBounds:
  "heap (call_getVarsAndBounds E s) =
     (heap s)(np_x s := fst (fst (getVarsAndBounds E (prob s) (heap s (np_x s)) (heap s (np_lb s)) (heap s (np_ub s)))),
              np_lb s := fst (snd (fst (getVarsAndBounds E (prob s) (heap s (np_x s)) (heap s (np_lb s)) (heap s (np_ub s))))),
              np_ub s := snd (snd (fst (getVarsAndBounds E (prob s) (heap s (np_x s)) (heap s (np_lb s)) (heap s (np_ub s))))))"
  by (simp add: call_getVarsAndBounds_def split_beta)

text \<open>A call of optimize, whatever its outcome, fails before the solver is constructed or
  runs the loop from \<open>loop_entry\<close>.\<close>

lemma optimize_any_shape:
  assumes run: "optimize E niter s = (r, t)"
  shows "(calls t = calls s @ [GetVarsAndBounds] \<and> (\<exists>e. r = Inl e)
          \<and> (\<forall>b<nblk s. heap t b = heap (call_getVarsAndBounds E s) b))
       \<or> (\<exists>r' sL. optimize_loop E (nvec s) (Suc (nvec s)) niter 0
                 (MMA_new E (get_num_vars E) (get_num_cons E) (vec_get (loop_entry E s) (o_x s)))
                 (loop_entry E s) = (r', sL)
             \<and> heap t = heap sL \<and> calls t = calls sL \<and> (r = Inr () \<longrightarrow> r' = Inr ()))"
proof -
  note [simp] = allocate_Inr VecGetArray_Inr VecRestoreArray_Inr VecDestroy_Inr
    init_bounds_loop_frame
  from run show ?thesis
    unfolding optimize_def Let_def
    apply (elim PetscCall_cases)
    apply (auto dest!: allocate_Inl VecGetArray_Inl VecRestoreArray_Inl VecDestroy_Inl
        simp: loop_entry_def Let_def)
    done
qed


lemma loop_entry_vec_block:
  "vec_block (loop_entry E s) (nvec s) = Some (nblk s)"
  "vec_block (loop_entry E s) (Suc (nvec s)) = Some (Suc (nblk s))"
  "x < nvec s \<Longrightarrow> vec_block (loop_entry E s) x = vec_block s x"
  by (simp_all add: vec_block_def)

text \<open>What a call of optimize leaves on a driver laid out as the constructor lays it out,
  whatever the outcome of the call.\<close>

lemma optimize_any:
  assumes run: "optimize E niter s = (r, t)" and lay: "driver_layout s"
  shows "\<exists>rest. calls t = calls s @ GetVarsAndBounds # rest
       \<and> (rest = [] \<or> (\<exists>xs rest'. rest = MMA_ctor xs # rest'
             \<and> (if 0 < niter
                 then \<exists>rest''. rest' = EvalObjCon (fst (fst (getVarsAndBounds E (prob s)
                        (heap s (np_x s)) (heap s (np_lb s)) (heap s (np_ub s))))) # rest''
                 else rest' = [])))
       \<and> (r = Inr () \<longrightarrow> rest \<noteq> [])
       \<and> (filter evaluation_or_step rest = [] \<longrightarrow>
            heap t (np_x s) = fst (fst (getVarsAndBounds E (prob s)
                        (heap s (np_x s)) (heap s (np_lb s)) (heap s (np_ub s)))))
       \<and> heap t (np_lb s) = fst (snd (fst (getVarsAndBounds E (prob s)
                        (heap s (np_x s)) (heap s (np_lb s)) (heap s (np_ub s)))))
       \<and> heap t (np_ub s) = snd (snd (fst (getVarsAndBounds E (prob s)
                        (heap s (np_x s)) (heap s (np_lb s)) (heap s (np_ub s)))))"
proof -
  let ?G = "getVarsAndBounds E (prob s) (heap s (np_x s)) (heap s (np_lb s)) (heap s (np_ub s))"
  from lay have d: "np_x s \<noteq> np_lb s" "np_x s \<noteq> np_ub s" "np_lb s \<noteq> np_ub s"
    "np_lb s \<noteq> np_g s" "np_lb s \<noteq> np_cons s" "np_lb s \<noteq> np_gcon s"
    "np_ub s \<noteq> np_g s" "np_ub s \<noteq> np_cons s" "np_ub s \<noteq> np_gcon s"
    and old: "np_x s < nblk s" "np_lb s < nblk s" "np_ub s < nblk s"
    and x: "o_x s < nvec s" "vec_block s (o_x s) = Some (np_x s)"
    by (auto simp: driver_layout_def)
  have g: "heap (call_getVarsAndBounds E s) (np_x s) = fst (fst ?G)"
    "heap (call_getVarsAndBounds E s) (np_lb s) = fst (snd (fst ?G))"
    "heap (call_getVarsAndBounds E s) (np_ub s) = snd (snd (fst ?G))"
    using d by (simp_all add: heap_call_getVarsAndBounds)
  from optimize_any_shape [OF run] show ?thesis
  proof
    assume "calls t = calls s @ [GetVarsAndBounds] \<and> (\<exists>e. r = Inl e)
          \<and> (\<forall>b<nblk s. heap t b = heap (call_getVarsAndBounds E s) b)"
    then show ?thesis using old g by auto
  next
    assume "\<exists>r' sL. optimize_loop E (nvec s) (Suc (nvec s)) niter 0
                 (MMA_new E (get_num_vars E) (get_num_cons E) (vec_get (loop_entry E s) (o_x s)))
                 (loop_entry E s) = (r', sL)
             \<and> heap t = heap sL \<and> calls t = calls sL \<and> (r = Inr () \<longrightarrow> r' = Inr ())"
    then obtain r' sL where
      loop: "optimize_loop E (nvec s) (Suc (nvec s)) niter 0
                 (MMA_new E (get_num_vars E) (get_num_cons E) (vec_get (loop_entry E s) (o_x s)))
                 (loop_entry E s) = (r', sL)"
      and t: "heap t = heap sL" "calls t = calls sL"
      by blast
    let ?e = "loop_entry E s"
    have vb: "vec_block ?e (nvec s) = Some (nblk s)" "vec_block ?e (Suc (nvec s)) = Some (Suc (nblk s))"
      "vec_block ?e (o_x ?e) = Some (np_x s)"
      using x by (simp_all add: loop_entry_vec_block)
    from optimize_loop_any [OF loop, of "np_lb s"] d old vb
    have lb: "heap sL (np_lb s) = heap ?e (np_lb s)"
      and c: "\<exists>rest. calls sL = calls ?e @ rest
          \<and> (if 0 < niter then \<exists>rest'. rest = EvalObjCon (heap ?e (np_x s)) # rest'
              else rest = [] \<and> heap sL = heap ?e)"
      by auto
    from optimize_loop_any [OF loop, of "np_ub s"] d old vb
    have ub: "heap sL (np_ub s) = heap ?e (np_ub s)"
      by auto
    from c obtain restL where cL: "calls sL = calls ?e @ restL"
      "if 0 < niter then \<exists>rest'. restL = EvalObjCon (heap ?e (np_x s)) # rest'
       else restL = [] \<and> heap sL = heap ?e"
      by blast
    obtain xs where ce: "calls ?e = calls s @ [GetVarsAndBounds, MMA_ctor xs]"
      using calls_loop_entry by blast
    have hx: "heap ?e (np_x s) = fst (fst ?G)"
      using old g by (simp add: heap_loop_entry_old)
    have "calls t = calls s @ GetVarsAndBounds # MMA_ctor xs # restL"
      by (simp add: t cL ce)
    moreover have "if 0 < niter then \<exists>rest''. restL = EvalObjCon (fst (fst ?G)) # rest''
                   else restL = [] \<and> heap sL = heap ?e"
      using cL(2) unfolding hx .
    moreover have "heap ?e (np_x s) = fst (fst ?G)"
      by (rule hx)
    moreover have "heap t (np_lb s) = fst (snd (fst ?G))" "heap t (np_ub s) = snd (snd (fst ?G))"
      using old g by (simp_all add: t lb ub heap_loop_entry_old)
    ultimately show ?thesis by (auto simp: t split: if_splits)
  qed
qed


lemma driver_layout_S_ready: "driver_layout S_ready"
  by (simp add: driver_layout_def vec_block_def)

subsection \<open>The logged constraint violation\<close>

text \<open>C2, as the code has it. In every iteration that succeeds, the last field of the
  record it logs is the violation that lines 152-159 compute from the constraint buffer.
  For a buffer of \<open>ncons\<close> values, that violation is the largest of 0 and the values of the
  buffer that are not NaN: it is not NaN and not negative, it is at least every value
  that is not NaN, it is 0 or a value of the buffer, and it is 0 exactly when every value
  that is not NaN is at most 0. A NaN in the buffer is passed over, for the comparison
  \<^verbatim>\<open>con_vals[i] > infeas\<close> is false on it. On a buffer of finite values it is the maximum
  of \<open>max c 0\<close> over the constraints.\<close>

theorem max_violation_is_max_positive_part:
  assumes it: "iteration E lb_temp ub_temp iter m s = (Inr m', t)"
    and len: "int (length (heap t (np_cons t))) = get_num_cons E"
  shows "\<exists>name a0 a1 a2 a3 a4 v.
      fp s = Some name
    \<and> last (files t name) = (row_format, [a0, a1, a2, a3, a4, D v])
    \<and> v = max_violation (heap t (np_cons t)) (get_num_cons E)
    \<and> v \<noteq> NaN
    \<and> double_less_eq (Finite 0) v
    \<and> (\<forall>i<length (heap t (np_cons t)). heap t (np_cons t) ! i \<noteq> NaN \<longrightarrow>
          double_less_eq (heap t (np_cons t) ! i) v)
    \<and> (v = Finite 0 \<or> v \<in> set (heap t (np_cons t)))
    \<and> (v = Finite 0 \<longleftrightarrow>
         (\<forall>i<length (heap t (np_cons t)). heap t (np_cons t) ! i \<noteq> NaN \<longrightarrow>
            double_less_eq (heap t (np_cons t) ! i) (Finite 0)))
    \<and> (\<forall>cs. heap t (np_cons t) = map Finite cs \<longrightarrow> cs \<noteq> [] \<longrightarrow>
          v = Finite (Max ((\<lambda>c. max c 0) ` set cs)))"
proof -
  from iteration_Inr [OF it] obtain m1 name where
    name: "fp s = Some name"
    and t: "t = after_iteration E lb_temp ub_temp iter m m1 name s"
    by blast
  have h: "heap t (np_cons t) = heap (after_update E lb_temp ub_temp m m1 s) (np_cons s)"
    by (simp add: t) (simp add: after_iteration_def)
  have "last (files t name) = row_of_iteration E lb_temp ub_temp iter m m1 s"
    by (simp add: t)
  then have row: "last (files t name) =
      (row_format,
       [I iter, D (o_obj (call_evalObjCon E s)),
        D (fst (fst (snd (kkt_of_iteration E lb_temp ub_temp m m1 s)))),
        D (snd (fst (snd (kkt_of_iteration E lb_temp ub_temp m m1 s)))),
        D (double_sum (map double_abs (vec_get (after_update E lb_temp ub_temp m m1 s) (o_x s)))),
        D (max_violation (heap t (np_cons t)) (get_num_cons E))])"
    by (simp add: row_of_iteration_def h)
  note c = max_violation_char [OF len]
  show ?thesis
    apply (intro exI conjI)
            apply (rule name)
           apply (rule row)
          apply (rule refl)
         apply (rule c(1))
        apply (rule c(2))
       apply (rule c(3))
      apply (rule c(4))
     apply (rule c(5))
    apply (rule c(6))
    done
qed

text \<open>The first iteration of the constructed driver: the constraint buffer holds one
  value, 0, and the violation logged is 0. The example of the specification: the buffer
  \<open>[-1.0, 0.3, 0.0]\<close> gives \<open>0.3\<close>.\<close>

theorem max_violation_is_max_positive_part_witness:
  "\<exists>m' t. iteration E_demo 5 6 0 0 (loop_entry E_demo S_ready) = (Inr m', t)
     \<and> int (length (heap t (np_cons t))) = get_num_cons E_demo
     \<and> heap t (np_cons t) = [Finite 0]
     \<and> (\<exists>a0 a1 a2 a3 a4. last (files t ''mma.log'') = (row_format, [a0, a1, a2, a3, a4, D (Finite 0)]))
     \<and> max_violation [Finite (- 1), Finite (3 / 10), Finite 0] 3 = Finite (3 / 10)"
proof -
  let ?s = "loop_entry E_demo S_ready"
  have "\<exists>m1 m'. iteration E_demo 5 6 0 0 ?s = (Inr m', after_iteration E_demo 5 6 0 0 m1 ''mma.log'' ?s)"
    by (rule iteration_ok) (simp_all add: SetOuterMovelimit_finite_def SetOuterMovelimit_spec_def)
  then obtain m1 m' t where it: "iteration E_demo 5 6 0 0 ?s = (Inr m', t)"
    and t: "t = after_iteration E_demo 5 6 0 0 m1 ''mma.log'' ?s"
    by blast
  have c: "heap (after_update E_demo 5 6 0 m1 ?s) (np_cons ?s) = cons_of_iteration E_demo ?s"
    by (rule cons_after_update) simp_all
  have "np_cons t = np_cons ?s"
    by (simp add: t)
  moreover have "heap t = heap (after_update E_demo 5 6 0 m1 ?s)"
    by (simp add: t after_iteration_def)
  ultimately have h: "heap t (np_cons t) = [Finite 0]"
    using c by (simp add: cons_of_iteration_def)
  have len: "int (length (heap t (np_cons t))) = get_num_cons E_demo"
    by (simp add: h)
  from max_violation_is_max_positive_part [OF it len] it len h show ?thesis
    by (auto simp: max_violation_example)
qed

text \<open>C2 as stated fails on a buffer that holds a NaN: the violation logged for the buffer
  \<open>[NaN]\<close> is 0, although not every constraint value is at most 0.\<close>

theorem max_violation_NaN_counterexample:
  "max_violation [NaN] 1 = Finite 0 \<and> \<not> double_less_eq ([NaN] ! 0) (Finite 0)"
  by (simp add: max_violation_example)

subsection \<open>The data flow of an iteration\<close>

text \<open>C10. Take an iteration that succeeds, on a driver laid out as the constructor lays it
  out: the buffers of x, g, cons and gcon are apart, the vector x is bound to the whole
  buffer of x, the arrays of lb\_temp and ub\_temp are apart from these four buffers, those
  of the vectors lb and ub from the buffers of g, cons and gcon, and those of the vectors g
  and gcon from the buffer of x; and take a solver whose \<^verbatim>\<open>Update\<close> leaves as many values
  in x as it found. Write \<open>x0\<close> for the design the iteration starts with. Then
  \<^verbatim>\<open>evalObjCon\<close> and \<^verbatim>\<open>evalObjConGrad\<close> are called at \<open>x0\<close>; \<^verbatim>\<open>SetOuterMovelimit\<close> is handed
  \<open>x0\<close> and the bounds as they were; \<^verbatim>\<open>Update\<close>, on the solver that \<^verbatim>\<open>SetOuterMovelimit\<close>
  left, is handed \<open>x0\<close> and the constraint values \<open>cv\<close> that \<^verbatim>\<open>evalObjCon\<close> gave at \<open>x0\<close>;
  \<^verbatim>\<open>KKTresidual\<close>, on the solver that \<^verbatim>\<open>Update\<close> left, is handed the design \<open>x1\<close> that
  \<^verbatim>\<open>Update\<close> returned, with the same \<open>cv\<close> and the same gradients and bounds as \<^verbatim>\<open>Update\<close>:
  nothing is evaluated after \<^verbatim>\<open>Update\<close>. The record logged holds the objective at \<open>x0\<close>,
  the two norms that \<^verbatim>\<open>KKTresidual\<close> returned for \<open>x1\<close> and \<open>cv\<close>, the L1 norm of \<open>x1\<close>, and
  the violation of \<open>cv\<close>. The iteration leaves \<open>x1\<close> in the buffer of x and \<open>cv\<close> in that of
  cons.\<close>

theorem iteration_dataflow:
  assumes it: "iteration E lb_temp ub_temp iter m s = (Inr m', t)"
    and d: "distinct [np_x s, np_g s, np_cons s, np_gcon s]"
    and xv: "vecs s (o_x s) = Some vx" "v_array vx = Some (np_x s, 0)"
      "nat (v_lsize vx) = length (heap s (np_x s))"
    and tmp:
      "vec_block s lb_temp \<notin> {Some (np_x s), Some (np_g s), Some (np_cons s), Some (np_gcon s)}"
      "vec_block s ub_temp \<notin> {Some (np_x s), Some (np_g s), Some (np_cons s), Some (np_gcon s)}"
    and bnd:
      "vec_block s (o_lb s) \<notin> {Some (np_g s), Some (np_cons s), Some (np_gcon s)}"
      "vec_block s (o_ub s) \<notin> {Some (np_g s), Some (np_cons s), Some (np_gcon s)}"
    and others: "vec_block s (o_g s) \<noteq> Some (np_x s)"
      "\<forall>v\<in>set (o_gcon s). vec_block s v \<noteq> Some (np_x s)"
    and upd: "\<And>m x g c gc lo hi. length (fst (snd (Update E m x g c gc lo hi))) = length x"
  shows "\<exists>name obj cv p1 c_ml bnds m1 gv gcv lo hi ierr x1 m2 c_kkt l2 linf.
      evalObjCon E (prob s) (heap s (np_x s)) (heap s (np_cons s)) = ((obj, cv), p1)
    \<and> SetOuterMovelimit E m (vec_get s (o_lb s)) (vec_get s (o_ub s)) movelim (heap s (np_x s))
          (vec_get s lb_temp) (vec_get s ub_temp) = (c_ml, bnds, m1)
    \<and> Update E m1 (heap s (np_x s)) gv cv gcv lo hi = (ierr, x1, m2)
    \<and> KKTresidual E m2 x1 gv cv gcv lo hi = (c_kkt, (l2, linf), m')
    \<and> calls t = calls s @
        [EvalObjCon (heap s (np_x s)), EvalObjConGrad (heap s (np_x s)),
         SetOuterMovelimit_call (heap s (np_x s)),
         Update_call (heap s (np_x s)) cv ierr,
         KKTresidual_call x1 cv]
    \<and> heap t (np_x s) = x1
    \<and> heap t (np_cons s) = cv
    \<and> fp s = Some name
    \<and> files t name = files s name @
        (if iter mod 10 = 0 then [(header_format, header_args)] else []) @
        [(row_format,
          [I iter, D obj, D l2, D linf, D (double_sum (map double_abs x1)),
           D (max_violation cv (get_num_cons E))])]"
proof -
  let ?x0 = "heap s (np_x s)"
  let ?cv = "cons_of_iteration E s"
  let ?s2 = "after_evals E s"
  let ?s3 = "after_movelimit E lb_temp ub_temp m s"
  from iteration_Inr [OF it] obtain m1 name where
    A: "mma_SetOuterMovelimit E m (o_lb s) (o_ub s) movelim (o_x s) lb_temp ub_temp ?s2
          = (Inr m1, ?s3)"
    and name: "fp s = Some name"
    and m': "m' = fst (snd (snd (kkt_of_iteration E lb_temp ub_temp m m1 s)))"
    and t: "t = after_iteration E lb_temp ub_temp iter m m1 name s"
    by blast
  let ?s4 = "after_update E lb_temp ub_temp m m1 s"
  from d have d: "np_x s \<noteq> np_cons s" "np_x s \<noteq> np_g s" "np_x s \<noteq> np_gcon s"
    "np_g s \<noteq> np_cons s" "np_gcon s \<noteq> np_cons s"
    by auto
  from tmp have tmp: "vec_block s lb_temp \<noteq> Some (np_x s)" "vec_block s lb_temp \<noteq> Some (np_cons s)"
    "vec_block s ub_temp \<noteq> Some (np_x s)" "vec_block s ub_temp \<noteq> Some (np_cons s)"
    and tmp': "vec_block s lb_temp \<notin> {Some (np_g s), Some (np_cons s), Some (np_gcon s)}"
    "vec_block s ub_temp \<notin> {Some (np_g s), Some (np_cons s), Some (np_gcon s)}"
    by auto
  have vb: "vec_block s (o_x s) \<noteq> Some (np_cons s)"
    using xv d(1) by (simp add: vec_block_def)
  have h2: "heap ?s2 (np_x s) = ?x0"
    using d by (simp add: after_evals_def heap_call_evalObjConGrad heap_call_evalObjCon)
  have g2: "vec_get ?s2 (o_x s) = ?x0"
    using xv h2 by (simp add: vec_get_def load_def after_evals_def)
  have h3: "heap ?s3 (np_x s) = ?x0"
    using tmp h2 by (simp add: after_movelimit_def heap_mma_SetOuterMovelimit_other)
  have g3: "vec_get ?s3 (o_x s) = ?x0"
    using xv h3 by (simp add: vec_get_def load_def)
  have c3: "heap ?s3 (np_cons s) = ?cv"
    using d tmp by (simp add: cons_after_movelimit)
  have c4: "heap ?s4 (np_cons s) = ?cv"
    using d tmp vb by (simp add: cons_after_update)
  let ?M = "SetOuterMovelimit E m (vec_get s (o_lb s)) (vec_get s (o_ub s)) movelim ?x0
              (vec_get s lb_temp) (vec_get s ub_temp)"
  let ?U = "Update E m1 ?x0 (vec_get ?s3 (o_g s)) ?cv (map (vec_get ?s3) (o_gcon s))
              (vec_get ?s3 lb_temp) (vec_get ?s3 ub_temp)"
  let ?x1 = "fst (snd ?U)"
  have m1: "m1 = snd (snd ?M)"
    using A
    by (simp add: mma_SetOuterMovelimit_def split_beta g2 vec_get_after_evals_other [OF bnd(1)]
        vec_get_after_evals_other [OF bnd(2)] vec_get_after_evals_other [OF tmp'(1)]
        vec_get_after_evals_other [OF tmp'(2)] split: if_splits)
  have U: "mma_Update E m1 (o_x s) (o_g s) (np_cons s) (o_gcon s) lb_temp ub_temp ?s3 =
      (fst ?U, snd (snd ?U),
       vec_put (o_x s) ?x1 (?s3\<lparr>calls := calls ?s3 @ [Update_call ?x0 ?cv (fst ?U)]\<rparr>))"
    by (simp add: mma_Update_def split_beta g3 c3)
  have s4: "?s4 = vec_put (o_x s) ?x1 (?s3\<lparr>calls := calls ?s3 @ [Update_call ?x0 ?cv (fst ?U)]\<rparr>)"
    by (simp add: after_update_def U)
  have m2: "solver_after_update E lb_temp ub_temp m m1 s = snd (snd ?U)"
    by (simp add: solver_after_update_def U)
  have code: "update_code E lb_temp ub_temp m m1 s = fst ?U"
    by (simp add: update_code_def U)
  have lx: "length ?x1 = length ?x0"
    by (rule upd)
  have h4: "heap ?s4 (np_x s) = ?x1"
    unfolding s4 using xv h3 lx by (simp add: vec_put_def store_def)
  have g4: "vec_get ?s4 (o_x s) = ?x1"
    using xv h4 lx by (simp add: vec_get_def load_def after_update_def)
  have vbx: "vec_block (?s3\<lparr>calls := calls ?s3 @ [Update_call ?x0 ?cv (fst ?U)]\<rparr>) (o_x s) =
      Some (np_x s)"
    using xv by (simp add: vec_block_def)
  have fr: "vec_get ?s4 y = vec_get ?s3 y" if "vec_block s y \<noteq> Some (np_x s)" for y
    unfolding s4 using that by (subst vec_get_vec_put_other [OF vbx]) simp_all
  have frs: "map (vec_get ?s4) (o_gcon s) = map (vec_get ?s3) (o_gcon s)"
    using others(2) by (intro map_cong refl fr) simp
  let ?K = "KKTresidual E (snd (snd ?U)) ?x1 (vec_get ?s3 (o_g s)) ?cv
              (map (vec_get ?s3) (o_gcon s)) (vec_get ?s3 lb_temp) (vec_get ?s3 ub_temp)"
  have K: "kkt_of_iteration E lb_temp ub_temp m m1 s =
      (fst ?K, fst (snd ?K), snd (snd ?K),
       ?s4\<lparr>calls := calls ?s4 @ [KKTresidual_call ?x1 ?cv]\<rparr>)"
    by (simp add: kkt_of_iteration_def mma_KKTresidual_def split_beta g4 c4 m2
        fr [OF others(1)] fr [OF tmp(1)] fr [OF tmp(3)] frs)
  have e1: "evalObjCon E (prob s) ?x0 (heap s (np_cons s)) =
      ((obj_of_iteration E s, ?cv), snd (evalObjCon E (prob s) ?x0 (heap s (np_cons s))))"
    by (simp add: obj_of_iteration_def cons_of_iteration_def)
  have e2: "?M = (fst ?M, fst (snd ?M), m1)"
    by (simp add: m1)
  have e3: "?U = (fst ?U, ?x1, snd (snd ?U))"
    by simp
  have e4: "?K = (fst ?K, (fst (fst (snd ?K)), snd (fst (snd ?K))), m')"
    by (simp add: m' K)
  have obj: "o_obj (call_evalObjCon E s) = obj_of_iteration E s"
    by (simp add: call_evalObjCon_def obj_of_iteration_def split_beta)
  have calls: "calls t = calls s @
        [EvalObjCon ?x0, EvalObjConGrad ?x0, SetOuterMovelimit_call ?x0,
         Update_call ?x0 ?cv (fst ?U), KKTresidual_call ?x1 ?cv]"
    using d(1)
    by (simp add: t after_iteration_def calls_after_update c3 c4 g2 g3 g4 code x_after_evalObjCon)
  have hx: "heap t (np_x s) = ?x1"
    by (simp add: t after_iteration_def h4)
  have hc: "heap t (np_cons s) = ?cv"
    by (simp add: t after_iteration_def c4)
  have files: "files t name = files s name @
        (if iter mod 10 = 0 then [(header_format, header_args)] else []) @
        [(row_format,
          [I iter, D (obj_of_iteration E s), D (fst (fst (snd ?K))), D (snd (fst (snd ?K))),
           D (double_sum (map double_abs ?x1)), D (max_violation ?cv (get_num_cons E))])]"
    by (simp add: t row_of_iteration_def c4 g4 obj K)
  show ?thesis
    apply (intro exI conjI)
            apply (rule e1)
           apply (rule e2)
          apply (rule e3)
         apply (rule e4)
        apply (rule calls)
       apply (rule hx)
      apply (rule hc)
     apply (rule name)
    apply (rule files)
    done
qed

text \<open>The first iteration of the constructed driver: it starts at \<open>[1/2, 1/2]\<close>, where the
  objective is 1 and the constraint value 0; \<^verbatim>\<open>Update\<close> returns \<open>[2/5, 2/5]\<close>, which is
  what \<^verbatim>\<open>KKTresidual\<close> is handed, with the constraint value 0 of \<open>[1/2, 1/2]\<close>; the record
  holds the norm 4/5 of \<open>[2/5, 2/5]\<close>.\<close>

theorem iteration_dataflow_witness:
  "\<exists>m' t. iteration E_demo 5 6 0 0 (loop_entry E_demo S_ready) = (Inr m', t)
     \<and> distinct [np_x (loop_entry E_demo S_ready), np_g (loop_entry E_demo S_ready),
           np_cons (loop_entry E_demo S_ready), np_gcon (loop_entry E_demo S_ready)]
     \<and> (\<exists>vx. vecs (loop_entry E_demo S_ready) (o_x (loop_entry E_demo S_ready)) = Some vx
          \<and> v_array vx = Some (np_x (loop_entry E_demo S_ready), 0)
          \<and> nat (v_lsize vx) =
              length (heap (loop_entry E_demo S_ready) (np_x (loop_entry E_demo S_ready))))
     \<and> vec_block (loop_entry E_demo S_ready) 5 \<notin>
          {Some (np_x (loop_entry E_demo S_ready)), Some (np_g (loop_entry E_demo S_ready)),
           Some (np_cons (loop_entry E_demo S_ready)), Some (np_gcon (loop_entry E_demo S_ready))}
     \<and> vec_block (loop_entry E_demo S_ready) 6 \<notin>
          {Some (np_x (loop_entry E_demo S_ready)), Some (np_g (loop_entry E_demo S_ready)),
           Some (np_cons (loop_entry E_demo S_ready)), Some (np_gcon (loop_entry E_demo S_ready))}
     \<and> vec_block (loop_entry E_demo S_ready) (o_lb (loop_entry E_demo S_ready)) \<notin>
          {Some (np_g (loop_entry E_demo S_ready)), Some (np_cons (loop_entry E_demo S_ready)),
           Some (np_gcon (loop_entry E_demo S_ready))}
     \<and> vec_block (loop_entry E_demo S_ready) (o_ub (loop_entry E_demo S_ready)) \<notin>
          {Some (np_g (loop_entry E_demo S_ready)), Some (np_cons (loop_entry E_demo S_ready)),
           Some (np_gcon (loop_entry E_demo S_ready))}
     \<and> vec_block (loop_entry E_demo S_ready) (o_g (loop_entry E_demo S_ready))
          \<noteq> Some (np_x (loop_entry E_demo S_ready))
     \<and> (\<forall>v\<in>set (o_gcon (loop_entry E_demo S_ready)).
            vec_block (loop_entry E_demo S_ready) v \<noteq> Some (np_x (loop_entry E_demo S_ready)))
     \<and> (\<forall>m x g c gc lo hi. length (fst (snd (Update E_demo m x g c gc lo hi))) = length x)
     \<and> calls t = calls (loop_entry E_demo S_ready) @
          [EvalObjCon [Finite (1 / 2), Finite (1 / 2)],
           EvalObjConGrad [Finite (1 / 2), Finite (1 / 2)],
           SetOuterMovelimit_call [Finite (1 / 2), Finite (1 / 2)],
           Update_call [Finite (1 / 2), Finite (1 / 2)] [Finite 0] 0,
           KKTresidual_call [Finite (2 / 5), Finite (2 / 5)] [Finite 0]]
     \<and> heap t 0 = [Finite (2 / 5), Finite (2 / 5)]
     \<and> files t ''mma.log'' =
          [(header_format, header_args),
           (row_format, [I 0, D (Finite 1), D (Finite 0), D (Finite 0), D (Finite (4 / 5)),
                         D (Finite 0)])]"
proof -
  let ?s = "loop_entry E_demo S_ready"
  have "\<exists>m1 m'. iteration E_demo 5 6 0 0 ?s = (Inr m', after_iteration E_demo 5 6 0 0 m1 ''mma.log'' ?s)"
    by (rule iteration_ok) (simp_all add: SetOuterMovelimit_finite_def SetOuterMovelimit_spec_def)
  then obtain m' t where it: "iteration E_demo 5 6 0 0 ?s = (Inr m', t)"
    by blast
  have d: "distinct [np_x ?s, np_g ?s, np_cons ?s, np_gcon ?s]"
    by simp
  have xv: "vecs ?s (o_x ?s) = Some \<lparr>v_lsize = 2, v_gsize = 2, v_type = Some VECMPI,
                 v_array = Some (0, 0), v_unplaced = Some (6, 0)\<rparr>"
    "v_array \<lparr>v_lsize = 2, v_gsize = 2, v_type = Some VECMPI,
                 v_array = Some (0, 0), v_unplaced = Some (6, 0)\<rparr> = Some (np_x ?s, 0)"
    "nat (v_lsize \<lparr>v_lsize = 2, v_gsize = 2, v_type = Some VECMPI,
                 v_array = Some (0, 0), v_unplaced = Some (6::nat, 0::nat)\<rparr>) = length (heap ?s (np_x ?s))"
    by simp_all
  have tmp:
    "vec_block ?s 5 \<notin> {Some (np_x ?s), Some (np_g ?s), Some (np_cons ?s), Some (np_gcon ?s)}"
    "vec_block ?s 6 \<notin> {Some (np_x ?s), Some (np_g ?s), Some (np_cons ?s), Some (np_gcon ?s)}"
    by simp_all
  have bnd:
    "vec_block ?s (o_lb ?s) \<notin> {Some (np_g ?s), Some (np_cons ?s), Some (np_gcon ?s)}"
    "vec_block ?s (o_ub ?s) \<notin> {Some (np_g ?s), Some (np_cons ?s), Some (np_gcon ?s)}"
    by (simp_all add: loop_entry_vec_block vec_block_def)
  have others: "vec_block ?s (o_g ?s) \<noteq> Some (np_x ?s)"
    "\<forall>v\<in>set (o_gcon ?s). vec_block ?s v \<noteq> Some (np_x ?s)"
    by (simp_all add: loop_entry_vec_block vec_block_def)
  have upd: "length (fst (snd (Update E_demo m x g c gc lo hi))) = length x" for m x g c gc lo hi
    by simp
  have v: "max_violation [Finite 0] 1 = Finite 0"
    by (rule max_violation_example)
  from iteration_dataflow [OF it d xv tmp bnd others upd] it d xv tmp bnd others upd show ?thesis
    by (auto simp: v)
qed

subsection \<open>A failing update\<close>

text \<open>C4 fails on the code: the code that \<^verbatim>\<open>Update\<close> returns is not looked at (line 141),
  unlike that of \<^verbatim>\<open>SetOuterMovelimit\<close> (line 138). With a solver whose \<^verbatim>\<open>Update\<close> returns the
  error code 1 on every call, optimize(2) calls it in both iterations, logs both records
  and returns 0.\<close>

theorem update_failure_is_ignored:
  "fst (optimize E_update_fails 2 S_ready) = Inr ()
   \<and> update_codes (calls (snd (optimize E_update_fails 2 S_ready))) = [1, 1]
   \<and> map shape (files (snd (optimize E_update_fails 2 S_ready)) ''mma.log'') =
       [(header_format, [S ''iter'']), (row_format, [I 0]), (row_format, [I 1])]"
proof -
  from update_fails_ok [of 2] obtain t where run: "optimize E_update_fails 2 S_ready = (Inr (), t)"
    by blast
  have "update_codes (calls t) = update_codes (calls S_ready) @ replicate (nat 2) 1"
    by (rule optimize_update_codes [OF run]) simp
  moreover have "log_shape 0 2 = [(header_format, [S ''iter'']), (row_format, [I 0]), (row_format, [I 1])]"
    by (simp add: log_shape_step log_shape_done)
  moreover obtain ps where "files t = (files S_ready)(''mma.log'' := files S_ready ''mma.log'' @ ps)"
    "map shape ps = log_shape 0 2"
    using optimize_log [OF run, of "''mma.log''"] by auto
  ultimately show ?thesis
    by (simp add: run numeral_2_eq_2)
qed

subsection \<open>A log file that cannot be opened\<close>

text \<open>C9 fails on the code: the result of \<^verbatim>\<open>fopen\<close> is not looked at (line 39). When the log
  file cannot be opened, the constructor returns normally, with a null stream.\<close>

theorem failed_open_is_ignored:
  "fst (Optimizer E_nolog ''/no/such/dir/mma.log'' S_init) = Inr ()
   \<and> fp (snd (Optimizer E_nolog ''/no/such/dir/mma.log'' S_init)) = None"
  by (simp add: ctor_simps)

subsection \<open>The move-limit box\<close>

text \<open>C6, on the move limits as the specification gives them and the fraction 0.2 of the
  driver (line 102). For every local variable \<open>i\<close>: \<open>lb_temp[i] = max(lb[i], x[i] - 0.2*(ub[i]-lb[i]))\<close>
  and \<open>ub_temp[i] = min(ub[i], x[i] + 0.2*(ub[i]-lb[i]))\<close>; so \<open>lb[i] \<le> lb_temp[i]\<close> and
  \<open>ub_temp[i] \<le> ub[i]\<close>; and if \<open>ub[i] = lb[i]\<close> and the iterate is in the permanent box
  (\<open>x[i] = lb[i]\<close>), both temporary bounds are that point.\<close>

theorem move_limit_box:
  assumes "i < length x"
  shows "fst (fst (snd (SetOuterMovelimit_spec m lb ub (finite_part movelim) x lb_temp0 ub_temp0))) ! i
           = max (lb ! i) (x ! i - 0.2 * (ub ! i - lb ! i))
       \<and> snd (fst (snd (SetOuterMovelimit_spec m lb ub (finite_part movelim) x lb_temp0 ub_temp0))) ! i
           = min (ub ! i) (x ! i + 0.2 * (ub ! i - lb ! i))
       \<and> lb ! i \<le> fst (fst (snd (SetOuterMovelimit_spec m lb ub (finite_part movelim) x lb_temp0 ub_temp0))) ! i
       \<and> snd (fst (snd (SetOuterMovelimit_spec m lb ub (finite_part movelim) x lb_temp0 ub_temp0))) ! i \<le> ub ! i
       \<and> (ub ! i = lb ! i \<and> x ! i = lb ! i \<longrightarrow>
            fst (fst (snd (SetOuterMovelimit_spec m lb ub (finite_part movelim) x lb_temp0 ub_temp0))) ! i = lb ! i
          \<and> snd (fst (snd (SetOuterMovelimit_spec m lb ub (finite_part movelim) x lb_temp0 ub_temp0))) ! i = lb ! i)"
  using assms by (simp add: SetOuterMovelimit_spec_def movelim_def)

theorem move_limit_box_witness:
  "(0::nat) < length [1 / 2 :: real, 1]
   \<and> fst (fst (snd (SetOuterMovelimit_spec () [0, 1] [1, 1] (finite_part movelim) [1 / 2, 1] [0, 0] [0, 0]))) ! 0
        = 3 / 10
   \<and> snd (fst (snd (SetOuterMovelimit_spec () [0, 1] [1, 1] (finite_part movelim) [1 / 2, 1] [0, 0] [0, 0]))) ! 0
        = 7 / 10
   \<and> (1::nat) < length [1 / 2 :: real, 1] \<and> [1 :: real, 1] ! 1 = [0 :: real, 1] ! 1
   \<and> [1 / 2 :: real, 1] ! 1 = [0 :: real, 1] ! 1
   \<and> fst (fst (snd (SetOuterMovelimit_spec () [0, 1] [1, 1] (finite_part movelim) [1 / 2, 1] [0, 0] [0, 0]))) ! 1 = 1
   \<and> snd (fst (snd (SetOuterMovelimit_spec () [0, 1] [1, 1] (finite_part movelim) [1 / 2, 1] [0, 0] [0, 0]))) ! 1 = 1"
  using move_limit_box [of 0 "[1 / 2, 1]" "()" "[0, 1]" "[1, 1]" "[0, 0]" "[0, 0]"]
    move_limit_box [of 1 "[1 / 2, 1]" "()" "[0, 1]" "[1, 1]" "[0, 0]" "[0, 0]"]
  by simp

text \<open>C6 as stated fails where the iterate is outside a box of one point: with
  \<open>lb = ub = 0\<close> and \<open>x = 1\<close> the temporary bounds are \<open>lb_temp = 1\<close> and \<open>ub_temp = 0\<close>, not
  the point \<open>0\<close>.\<close>

theorem move_limit_collapse_counterexample:
  "[0::real] ! 0 = [0::real] ! 0
   \<and> fst (snd (SetOuterMovelimit_spec () [0] [0] (finite_part movelim) [1] [0] [0])) = ([1], [0])"
  by (simp add: SetOuterMovelimit_spec_def movelim_def)

subsection \<open>A call with no iteration\<close>

text \<open>C3. Every call of optimize runs the set-up of section 4.3 of the specification
  (steps 1 to 3: the query of the initial design and bounds, the temporary bounds, the
  construction of the solver) before the loop. A call with \<open>niter = 0\<close>, whatever its
  outcome, makes no other call on its collaborators: no evaluation (\<^verbatim>\<open>evalObjCon\<close>,
  \<^verbatim>\<open>evalObjConGrad\<close>) and no step of the solver (\<^verbatim>\<open>SetOuterMovelimit\<close>, \<^verbatim>\<open>Update\<close>,
  \<^verbatim>\<open>KKTresidual\<close>). It returns with the design buffer holding the initial design, as
  \<^verbatim>\<open>getVarsAndBounds\<close> supplied it (the buffer of x being allocated before the call and
  apart from those of the bounds).\<close>

theorem optimize_zero:
  assumes "np_x s < nblk s" and "np_lb s \<noteq> np_x s" and "np_ub s \<noteq> np_x s"
    and "optimize E 0 s = (r, t)"
  shows "\<exists>new. calls t = calls s @ new
       \<and> filter evaluation_or_step new = []
       \<and> (new = [GetVarsAndBounds] \<or> (\<exists>xs. new = [GetVarsAndBounds, MMA_ctor xs]))
       \<and> getOptimizedDesign t =
           fst (fst (getVarsAndBounds E (prob s) (heap s (np_x s)) (heap s (np_lb s)) (heap s (np_ub s))))"
  using optimize_zero_outcome [OF assms] by auto

theorem optimize_zero_witness:
  "np_x S_ready < nblk S_ready \<and> np_lb S_ready \<noteq> np_x S_ready \<and> np_ub S_ready \<noteq> np_x S_ready
   \<and> optimize E_demo 0 S_ready = (Inr (), snd (optimize E_demo 0 S_ready))
   \<and> (\<exists>new. calls (snd (optimize E_demo 0 S_ready)) = new
        \<and> filter evaluation_or_step new = []
        \<and> (new = [GetVarsAndBounds] \<or> (\<exists>xs. new = [GetVarsAndBounds, MMA_ctor xs])))
   \<and> getOptimizedDesign (snd (optimize E_demo 0 S_ready)) = [Finite (1 / 2), Finite (1 / 2)]"
proof -
  have a: "np_x S_ready < nblk S_ready" "np_lb S_ready \<noteq> np_x S_ready" "np_ub S_ready \<noteq> np_x S_ready"
    by simp_all
  have b: "optimize E_demo 0 S_ready = (Inr (), snd (optimize E_demo 0 S_ready))"
    by (rule demo_run)
  from optimize_zero [OF a b] a b show ?thesis by simp
qed

subsection \<open>The temporary bounds\<close>

text \<open>C5 fails on the code: the temporary vectors are destroyed on lines 173-174 only, which
  an early return through \<^verbatim>\<open>PetscCall\<close> does not reach. When \<^verbatim>\<open>SetOuterMovelimit\<close> fails in the
  first iteration, optimize returns its code at once, and both temporary vectors (the
  vectors 5 and 6) are still live.\<close>

theorem temporaries_leak_on_failure:
  "fst (optimize E_movelimit_fails 1 S_ready) = Inl 1
   \<and> vecs (snd (optimize E_movelimit_fails 1 S_ready)) 5 \<noteq> None
   \<and> vecs (snd (optimize E_movelimit_fails 1 S_ready)) 6 \<noteq> None"
proof -
  have "\<exists>t. optimize E_movelimit_fails 1 S_ready = (Inl 1, t) \<and> vecs t (nvec S_ready) \<noteq> None
     \<and> vecs t (Suc (nvec S_ready)) \<noteq> None"
    by (rule optimize_movelimit_failure) simp_all
  then show ?thesis by (auto simp: eval_nat_numeral)
qed

text \<open>On normal completion they are released: when optimize returns 0, the two temporary
  vectors that the call created (the vectors \<open>nvec s\<close> and \<open>Suc (nvec s)\<close>) are destroyed,
  and every other vector is as before the call.\<close>

theorem temporaries_destroyed_on_success:
  assumes "optimize E niter s = (Inr u, t)"
  shows "vecs t = (vecs s)(nvec s := None, Suc (nvec s) := None)
       \<and> vecs t (nvec s) = None \<and> vecs t (Suc (nvec s)) = None"
  using assms by (rule optimize_vecs)

theorem temporaries_destroyed_on_success_witness:
  "optimize E_demo 3 S_ready = (Inr (), snd (optimize E_demo 3 S_ready))
   \<and> nvec S_ready = 5
   \<and> vecs (snd (optimize E_demo 3 S_ready)) 5 = None
   \<and> vecs (snd (optimize E_demo 3 S_ready)) 6 = None"
  using temporaries_destroyed_on_success [OF demo_run [of 3]] demo_run [of 3]
  by (simp add: eval_nat_numeral)

subsection \<open>The log\<close>

text \<open>C8, as the code has it. When optimize returns 0 with an open log, the prints it
  appended to the log are, for the iterations \<open>0\<close> to \<open>niter - 1\<close> in order: the header when
  the iteration is a multiple of 10, then one data record, whose first argument is the
  iteration. The format of the record is \<^verbatim>\<open>%6d\<close> and five times \<^verbatim>\<open>%20.10e\<close>: scientific
  notation with 10 digits after the decimal point, which is 11 significant digits.\<close>

theorem optimize_log_records:
  assumes "optimize E niter s = (Inr u, t)" and "fp s = Some name"
  shows "(\<exists>ps. files t name = files s name @ ps \<and> map shape ps = log_shape 0 niter)
       \<and> conversions row_format =
           [Conv 6 None CHR ''d'', Conv 20 (Some 10) CHR ''e'', Conv 20 (Some 10) CHR ''e'',
            Conv 20 (Some 10) CHR ''e'', Conv 20 (Some 10) CHR ''e'', Conv 20 (Some 10) CHR ''e'']
       \<and> map significant_digits (conversions row_format) =
           [None, Some 11, Some 11, Some 11, Some 11, Some 11]"
proof -
  from optimize_log [OF assms] obtain ps where
    "files t = (files s)(name := files s name @ ps)" "map shape ps = log_shape 0 niter"
    by blast
  then have "\<exists>ps. files t name = files s name @ ps \<and> map shape ps = log_shape 0 niter"
    by auto
  then show ?thesis
    by (simp add: row_conversions significant_digits_def)
qed

text \<open>A run of three iterations: one header, then the records of the iterations 0, 1, 2.\<close>

theorem optimize_log_records_witness:
  "optimize E_demo 3 S_ready = (Inr (), snd (optimize E_demo 3 S_ready))
   \<and> fp S_ready = Some ''mma.log''
   \<and> map shape (files (snd (optimize E_demo 3 S_ready)) ''mma.log'') =
       [(header_format, [S ''iter'']), (row_format, [I 0]), (row_format, [I 1]), (row_format, [I 2])]"
  using optimize_log_records [OF demo_run [of 3], of "''mma.log''"] demo_run [of 3]
  by (auto simp: log_shape_3)

text \<open>C8 as stated (10 significant digits) fails: each of the five \<^verbatim>\<open>%20.10e\<close> fields of a
  record prints 11 significant digits.\<close>

theorem log_digits_counterexample:
  "map significant_digits (conversions row_format) =
     [None, Some 11, Some 11, Some 11, Some 11, Some 11]"
  by (simp add: row_conversions significant_digits_def)

subsection \<open>Two calls in a row\<close>

text \<open>C7, as the code has it. Every call of optimize on a driver laid out as the
  constructor lays it out, whatever its outcome, starts with \<^verbatim>\<open>getVarsAndBounds\<close>, which
  overwrites the buffers of x, lb and ub: when the call returns, the buffers of lb and ub
  hold the bounds that \<^verbatim>\<open>getVarsAndBounds\<close> wrote, and as long as the call has made no
  evaluation and no step of the solver the buffer of x holds the design that it wrote. A
  call that fails before line 128 makes
  no other call on its collaborators. Every other call, and so every call that returns 0,
  then constructs a new solver; and if \<open>niter > 0\<close> its next call is the first evaluation,
  at the design that \<^verbatim>\<open>getVarsAndBounds\<close> wrote, whatever design the call before left in
  the buffer.\<close>

theorem optimize_starts_from_getVarsAndBounds:
  assumes "optimize E niter s = (r, t)" and "driver_layout s"
  shows "\<exists>rest. calls t = calls s @ GetVarsAndBounds # rest
       \<and> (rest = [] \<or> (\<exists>xs rest'. rest = MMA_ctor xs # rest'
             \<and> (if 0 < niter
                 then \<exists>rest''. rest' = EvalObjCon (fst (fst (getVarsAndBounds E (prob s)
                        (heap s (np_x s)) (heap s (np_lb s)) (heap s (np_ub s))))) # rest''
                 else rest' = [])))
       \<and> (r = Inr () \<longrightarrow> rest \<noteq> [])
       \<and> (filter evaluation_or_step rest = [] \<longrightarrow>
            heap t (np_x s) = fst (fst (getVarsAndBounds E (prob s)
                        (heap s (np_x s)) (heap s (np_lb s)) (heap s (np_ub s)))))
       \<and> heap t (np_lb s) = fst (snd (fst (getVarsAndBounds E (prob s)
                        (heap s (np_x s)) (heap s (np_lb s)) (heap s (np_ub s)))))
       \<and> heap t (np_ub s) = snd (snd (fst (getVarsAndBounds E (prob s)
                        (heap s (np_x s)) (heap s (np_lb s)) (heap s (np_ub s)))))"
  using assms by (rule optimize_any)

text \<open>The first call on the constructed driver, with one iteration: the buffer of ub,
  \<open>[0, 0]\<close> before the call, holds \<open>[1, 1]\<close> after it, and the first evaluation is at
  \<open>[1/2, 1/2]\<close>.\<close>

theorem optimize_starts_from_getVarsAndBounds_witness:
  "optimize E_demo 1 S_ready = (Inr (), snd (optimize E_demo 1 S_ready))
   \<and> driver_layout S_ready
   \<and> (\<exists>xs rest. calls (snd (optimize E_demo 1 S_ready)) =
         GetVarsAndBounds # MMA_ctor xs # EvalObjCon [Finite (1 / 2), Finite (1 / 2)] # rest)
   \<and> heap S_ready 2 = [Finite 0, Finite 0]
   \<and> heap (snd (optimize E_demo 1 S_ready)) 1 = [Finite 0, Finite 0]
   \<and> heap (snd (optimize E_demo 1 S_ready)) 2 = [Finite 1, Finite 1]"
proof -
  have h: "heap S_ready 2 = [Finite 0, Finite 0]"
    by (simp add: S_ready_def Optimizer_demo eval_nat_numeral)
  from optimize_starts_from_getVarsAndBounds [OF demo_run [of 1] driver_layout_S_ready]
    demo_run [of 1] driver_layout_S_ready h
  show ?thesis by auto
qed

text \<open>C7 as stated fails: after optimize(1) has left the design \<open>[2/5, 2/5]\<close> in the
  buffer, a second optimize(1) makes its first evaluation at \<open>[1/2, 1/2]\<close>, the design of
  \<^verbatim>\<open>getVarsAndBounds\<close>.\<close>

theorem optimize_restart_counterexample:
  "getOptimizedDesign (snd (optimize E_demo 1 S_ready)) = [Finite (2 / 5), Finite (2 / 5)]
   \<and> calls (snd (optimize E_demo 1 (snd (optimize E_demo 1 S_ready))))
       ! (length (calls (snd (optimize E_demo 1 S_ready))) + 2) = EvalObjCon [Finite (1 / 2), Finite (1 / 2)]"
proof -
  let ?S1 = "snd (optimize E_demo 1 S_ready)"
  have run1: "optimize E_demo 1 S_ready = (Inr (), ?S1)"
    by (rule demo_run)
  note f1 = optimize_fields [OF run1]
  from optimize_one_iteration [OF run1] obtain m1 where
    "heap ?S1 = heap (after_update E_demo 5 6 0 m1 (loop_entry E_demo S_ready))"
    by (auto simp: eval_nat_numeral)
  then have a: "getOptimizedDesign ?S1 = [Finite (2 / 5), Finite (2 / 5)]"
    by (simp add: getOptimizedDesign_def f1 x_after_update_demo)
  have live: "vecs ?S1 (o_x ?S1) = Some \<lparr>v_lsize = 2, v_gsize = 2, v_type = Some VECMPI,
                 v_array = Some (0, 0), v_unplaced = Some (6, 0)\<rparr>"
    using optimize_vecs [OF run1] by (simp add: f1)
  have name: "fp ?S1 = Some ''mma.log''"
    by (simp add: f1)
  have "\<exists>t. optimize E_demo 1 ?S1 = (Inr (), t)"
    by (rule optimize_ok [OF _ _ name live]) (simp_all add: SetOuterMovelimit_finite_def SetOuterMovelimit_spec_def)
  then have run2: "optimize E_demo 1 ?S1 = (Inr (), snd (optimize E_demo 1 ?S1))"
    by auto
  have wf: "np_x ?S1 < nblk ?S1" "np_lb ?S1 \<noteq> np_x ?S1" "np_ub ?S1 \<noteq> np_x ?S1"
    by (simp_all add: f1)
  have pos: "(0::int) < 1" by simp
  from optimize_first_evaluation [OF wf run2 pos]
  have b: "calls (snd (optimize E_demo 1 ?S1)) ! (length (calls ?S1) + 2) = EvalObjCon [Finite (1 / 2), Finite (1 / 2)]"
    by (auto simp: nth_append)
  from a b show ?thesis by blast
qed

end
